theory Spec2Isabelle
  imports Main "HOL-Library.AList"
begin

section \<open>Python values\<close>

text \<open>
  The documents handled by \<open>wic/ast.py\<close> are the values produced by a YAML loader:
  \<open>None\<close>, booleans, integers, strings, lists and insertion-ordered dictionaries.
  The code also builds \<open>StepId(stem, plugin_ns)\<close> named tuples and uses them as
  dictionary keys, so keys are values too. A dictionary is an association list in
  insertion order; \<open>d[k] = v\<close> replaces in place or appends (\<open>AList.update\<close>).
  Values are compared structurally, so \<open>copy.deepcopy\<close> is the identity on them.
\<close>

datatype yaml =
    YNone
  | YBool bool
  | YInt int
  | YStr string
  | YList "yaml list"
  | YDict "(yaml \<times> yaml) list"
  | YStepId yaml yaml

text \<open>
  Every exception the code can raise is a value of \<open>error\<close>; a computation returns
  \<open>error + 'a\<close> with \<open>Inl\<close> for the raised exception. \<open>Exception msg\<close> is the
  generic exception raised by the \<open>raise Exception(...)\<close> statements of the source.
\<close>

datatype error =
    KeyError
  | IndexError
  | TypeError
  | AttributeError
  | ValueError
  | UnboundLocalError
  | SystemExit
  | Exception string

definition ebind :: "error + 'a \<Rightarrow> ('a \<Rightarrow> error + 'b) \<Rightarrow> error + 'b" where
  "ebind m f = (case m of Inl e \<Rightarrow> Inl e | Inr x \<Rightarrow> f x)"

fun foldE :: "('a \<Rightarrow> 's \<Rightarrow> error + 's) \<Rightarrow> 'a list \<Rightarrow> 's \<Rightarrow> error + 's" where
  "foldE f [] s = Inr s"
| "foldE f (x # xs) s = ebind (f x s) (foldE f xs)"

fun mapE :: "('a \<Rightarrow> error + 'b) \<Rightarrow> 'a list \<Rightarrow> error + 'b list" where
  "mapE f [] = Inr []"
| "mapE f (x # xs) = ebind (f x) (\<lambda>y. ebind (mapE f xs) (\<lambda>ys. Inr (y # ys)))"

subsection \<open>Truth value, type, hashing, membership\<close>

fun truthy :: "yaml \<Rightarrow> bool" where
  "truthy YNone = False"
| "truthy (YBool b) = b"
| "truthy (YInt i) = (i \<noteq> 0)"
| "truthy (YStr s) = (s \<noteq> [])"
| "truthy (YList xs) = (xs \<noteq> [])"
| "truthy (YDict d) = (d \<noteq> [])"
| "truthy (YStepId a b) = True"

datatype py_type = NoneType | BoolT | IntT | StrT | ListT | DictT | StepIdT

fun type_of :: "yaml \<Rightarrow> py_type" where
  "type_of YNone = NoneType"
| "type_of (YBool b) = BoolT"
| "type_of (YInt i) = IntT"
| "type_of (YStr s) = StrT"
| "type_of (YList xs) = ListT"
| "type_of (YDict d) = DictT"
| "type_of (YStepId a b) = StepIdT"

fun hashable :: "yaml \<Rightarrow> bool" where
  "hashable (YList xs) = False"
| "hashable (YDict d) = False"
| "hashable (YStepId a b) = (hashable a \<and> hashable b)"
| "hashable v = True"

definition is_substring :: "string \<Rightarrow> string \<Rightarrow> bool" where
  "is_substring p s = list_ex (\<lambda>i. take (length p) (drop i s) = p) [0..<Suc (length s)]"

fun py_in :: "yaml \<Rightarrow> yaml \<Rightarrow> error + bool" where
  "py_in x (YDict d) = (if hashable x then Inr (map_of d x \<noteq> None) else Inl TypeError)"
| "py_in x (YList xs) = Inr (x \<in> set xs)"
| "py_in x (YStr s) = (case x of YStr p \<Rightarrow> Inr (is_substring p s) | _ \<Rightarrow> Inl TypeError)"
| "py_in x (YStepId a b) = Inr (x = a \<or> x = b)"
| "py_in x v = Inl TypeError"

subsection \<open>Attribute and item access with a string key\<close>

text \<open>
  \<open>py_get obj k d\<close> is \<open>obj.get(k, d)\<close>, \<open>py_getitem obj k\<close> is \<open>obj[k]\<close>,
  \<open>py_setitem\<close> and \<open>py_delitem\<close> are \<open>obj[k] = v\<close> and \<open>del obj[k]\<close>,
  \<open>py_items\<close> is \<open>obj.items()\<close>, \<open>py_iter\<close> is iteration over \<open>obj\<close>.
\<close>

fun py_get :: "yaml \<Rightarrow> string \<Rightarrow> yaml \<Rightarrow> error + yaml" where
  "py_get (YDict d) k dflt = Inr (case map_of d (YStr k) of Some v \<Rightarrow> v | None \<Rightarrow> dflt)"
| "py_get v k dflt = Inl AttributeError"

fun py_getitem :: "yaml \<Rightarrow> string \<Rightarrow> error + yaml" where
  "py_getitem (YDict d) k = (case map_of d (YStr k) of Some v \<Rightarrow> Inr v | None \<Rightarrow> Inl KeyError)"
| "py_getitem v k = Inl TypeError"

fun py_setitem :: "yaml \<Rightarrow> string \<Rightarrow> yaml \<Rightarrow> error + yaml" where
  "py_setitem (YDict d) k v = Inr (YDict (AList.update (YStr k) v d))"
| "py_setitem obj k v = Inl TypeError"

fun py_delitem :: "yaml \<Rightarrow> string \<Rightarrow> error + yaml" where
  "py_delitem (YDict d) k =
     (if map_of d (YStr k) \<noteq> None then Inr (YDict (AList.delete (YStr k) d)) else Inl KeyError)"
| "py_delitem obj k = Inl TypeError"

fun py_items :: "yaml \<Rightarrow> error + (yaml \<times> yaml) list" where
  "py_items (YDict d) = Inr d"
| "py_items v = Inl AttributeError"

fun py_iter :: "yaml \<Rightarrow> error + yaml list" where
  "py_iter (YDict d) = Inr (map fst d)"
| "py_iter (YList xs) = Inr xs"
| "py_iter (YStr s) = Inr (map (\<lambda>c. YStr [c]) s)"
| "py_iter (YStepId a b) = Inr [a, b]"
| "py_iter v = Inl TypeError"

fun py_len :: "yaml \<Rightarrow> error + int" where
  "py_len (YDict d) = Inr (int (length d))"
| "py_len (YList xs) = Inr (int (length xs))"
| "py_len (YStr s) = Inr (int (length s))"
| "py_len (YStepId a b) = Inr 2"
| "py_len v = Inl TypeError"

subsection \<open>List indexing and slicing with Python integers\<close>

definition norm_index :: "nat \<Rightarrow> int \<Rightarrow> int" where
  "norm_index n i = (if i < 0 then int n + i else i)"

definition list_index :: "'a list \<Rightarrow> int \<Rightarrow> error + 'a" where
  "list_index xs i =
     (let j = norm_index (length xs) i
      in if 0 \<le> j \<and> j < int (length xs) then Inr (xs ! nat j) else Inl IndexError)"

definition slice_to :: "'a list \<Rightarrow> int \<Rightarrow> 'a list" where
  "slice_to xs i = take (nat (norm_index (length xs) i)) xs"

definition slice_from :: "'a list \<Rightarrow> int \<Rightarrow> 'a list" where
  "slice_from xs i = drop (nat (norm_index (length xs) i)) xs"

subsection \<open>Decimal numerals\<close>

definition digit_char :: "nat \<Rightarrow> char" where
  "digit_char d = ''0123456789'' ! d"

fun show_nat :: "nat \<Rightarrow> string" where
  "show_nat n = (if n < 10 then [digit_char n] else show_nat (n div 10) @ [digit_char (n mod 10)])"

definition show_int :: "int \<Rightarrow> string" where
  "show_int i = (if i < 0 then CHR ''-'' # show_nat (nat (- i)) else show_nat (nat i))"

definition digit_val :: "char \<Rightarrow> nat option" where
  "digit_val c = map_of (zip ''0123456789'' [0, 1, 2, 3, 4, 5, 6, 7, 8, 9]) c"

fun parse_digits :: "nat \<Rightarrow> string \<Rightarrow> nat option" where
  "parse_digits acc [] = Some acc"
| "parse_digits acc (c # cs) =
     (case digit_val c of None \<Rightarrow> None | Some d \<Rightarrow> parse_digits (10 * acc + d) cs)"

definition parse_int :: "string \<Rightarrow> int option" where
  "parse_int s =
     (case s of
        [] \<Rightarrow> None
      | c # cs \<Rightarrow>
          if c = CHR ''-'' then (if cs = [] then None else map_option (\<lambda>n. - int n) (parse_digits 0 cs))
          else map_option int (parse_digits 0 s))"

section \<open>Python strings\<close>

text \<open>
  \<open>str.replace\<close> is only ever called with the one-character pattern \<open>'/'\<close>, for
  which it is a character-wise substitution. \<open>str.split(sep)\<close> cuts at the leftmost
  non-overlapping occurrences of a non-empty separator and always returns at least one
  piece; \<open>sep.join\<close> is its left inverse.
\<close>

definition str_replace_char :: "char \<Rightarrow> string \<Rightarrow> string \<Rightarrow> string" where
  "str_replace_char c new s = concat (map (\<lambda>x. if x = c then new else [x]) s)"

fun str_split :: "string \<Rightarrow> string \<Rightarrow> string list" where
  "str_split sep [] = [[]]"
| "str_split sep (c # cs) =
     (if sep \<noteq> [] \<and> take (length sep) (c # cs) = sep
      then [] # str_split sep (drop (length sep) (c # cs))
      else (case str_split sep cs of
              p # ps \<Rightarrow> (c # p) # ps
            | [] \<Rightarrow> [[c]]))"

fun str_join :: "string \<Rightarrow> string list \<Rightarrow> string" where
  "str_join sep [] = []"
| "str_join sep [p] = p"
| "str_join sep (p # q # ps) = p @ sep @ str_join sep (q # ps)"


section \<open>Helpers of \<open>wic.utils\<close> and of the libraries\<close>

text \<open>
  \<open>pathlib.Path(s).stem\<close> (standard library): the last path component without its
  last suffix; a leading or a trailing dot is not a suffix separator.
\<close>

definition path_name :: "string \<Rightarrow> string" where
  "path_name s =
     (let comps = filter (\<lambda>c. c \<noteq> [] \<and> c \<noteq> ''.'') (str_split ''/'' s)
      in if comps = [] then [] else last comps)"

definition path_stem :: "string \<Rightarrow> string" where
  "path_stem s =
     (let name = path_name s;
          pieces = str_split ''.'' name;
          front = str_join ''.'' (butlast pieces)
      in if 2 \<le> length pieces \<and> front \<noteq> [] \<and> last pieces \<noteq> [] then front else name)"

text \<open>
  Modelled from the spec: \<open>utils.step_name_str\<close> and \<open>utils.parse_step_name_str\<close>
  are not among the sources. The step name is
  \<open>{parent_stem}__step-{index+1}_{step_key}\<close>; the parser cuts at the first
  \<open>__step-\<close>, reads the decimal index up to the next underscore and returns the
  0-based index.
\<close>

definition step_name_str :: "string \<Rightarrow> int \<Rightarrow> string \<Rightarrow> string" where
  "step_name_str yaml_stem i step_key =
     yaml_stem @ ''__step-'' @ show_int (i + 1) @ ''_'' @ step_key"

definition parse_step_name_str :: "string \<Rightarrow> error + (string \<times> int \<times> string)" where
  "parse_step_name_str step_name =
     (case str_split ''__step-'' step_name of
        stem # p # ps \<Rightarrow>
          (let rest = str_join ''__step-'' (p # ps);
               digits = takeWhile (\<lambda>c. c \<noteq> CHR ''_'') rest
           in if length digits < length rest
              then (case parse_int digits of
                      Some n \<Rightarrow> Inr (stem, n - 1, drop (Suc (length digits)) rest)
                    | None \<Rightarrow> Inl (Exception ''Error! step name is not of the format {yaml_stem}__step-{i+1}_{step_key}''))
              else Inl (Exception ''Error! step name is not of the format {yaml_stem}__step-{i+1}_{step_key}''))
      | _ \<Rightarrow> Inl (Exception ''Error! step name is not of the format {yaml_stem}__step-{i+1}_{step_key}''))"

text \<open>
  The key of a step in \<open>wic: steps:\<close> is written inline in the source as
  \<open>f'({i + 1}, {step_key})'\<close>; \<open>meta_step_key n k\<close> is that string for the 1-based
  index \<open>n\<close>.
\<close>

definition meta_step_key :: "int \<Rightarrow> string \<Rightarrow> string" where
  "meta_step_key n step_key = ''('' @ show_int n @ '', '' @ step_key @ '')''"

text \<open>
  Modelled from the spec: the parser of these keys used by \<open>utils.reindex_wic_steps\<close>
  is not among the sources. The spelling \<open>(N, step_key)\<close> is exact, with one space
  after the comma.
\<close>

definition parse_meta_step_key :: "string \<Rightarrow> (int \<times> string) option" where
  "parse_meta_step_key s =
     (if length s < 2 \<or> hd s \<noteq> CHR ''('' \<or> last s \<noteq> CHR '')'' then None
      else (case str_split '', '' (butlast (tl s)) of
              d # p # ps \<Rightarrow> map_option (\<lambda>n. (n, str_join '', '' (p # ps))) (parse_int d)
            | _ \<Rightarrow> None))"

text \<open>
  Modelled from the spec: \<open>utils.get_steps_keys\<close> is not among the sources. A step
  list is an ordered sequence of single-key mappings and the key of entry \<open>i\<close> is its
  step key; an entry of another shape lies outside the data model and is rejected.
\<close>

fun step_key_of :: "yaml \<Rightarrow> error + string" where
  "step_key_of (YDict [(YStr k, v)]) = Inr k"
| "step_key_of v = Inl TypeError"

fun get_steps_keys :: "yaml \<Rightarrow> error + string list" where
  "get_steps_keys (YList steps) = mapE step_key_of steps"
| "get_steps_keys v = Inl TypeError"

text \<open>
  Modelled from the spec: \<open>utils.get_subkeys\<close> is not among the sources. A step key
  whose stem is the stem of a tool is a tool step; every other step key names a
  subworkflow.
\<close>

definition get_subkeys :: "string list \<Rightarrow> string list \<Rightarrow> string list" where
  "get_subkeys steps_keys tools_stems = filter (\<lambda>k. path_stem k \<notin> set tools_stems) steps_keys"

text \<open>
  Modelled from the spec: \<open>utils.reindex_wic_steps\<close> is not among the sources. It
  rebuilds the \<open>wic: steps:\<close> mapping, adding \<open>num_steps\<close> to the index of every key
  whose index is at least \<open>index\<close>. The two calls of the source pass \<open>(1, i)\<close> for the
  subworkflow's own keys, which shifts all of them, and \<open>(i + 1, L - 1)\<close> for the
  parent's keys after the key of step \<open>i + 1\<close> has been deleted.
\<close>

definition reindex_wic_steps :: "yaml \<Rightarrow> int \<Rightarrow> int \<Rightarrow> error + yaml" where
  "reindex_wic_steps wic_steps index num_steps =
     ebind (py_items wic_steps) (\<lambda>items.
     ebind (foldE (\<lambda>(keyv, val) acc.
              (case keyv of
                 YStr keystr \<Rightarrow>
                   (case parse_meta_step_key keystr of
                      None \<Rightarrow> Inl ValueError
                    | Some (i, s) \<Rightarrow>
                        Inr (AList.update
                               (YStr (if index \<le> i then meta_step_key (i + num_steps) s else keystr))
                               val acc))
               | _ \<Rightarrow> Inl TypeError)) items [])
       (\<lambda>reindexed. Inr (YDict reindexed)))"

text \<open>
  \<open>reindex_key index num_steps k\<close> is the key under which \<open>reindex_wic_steps\<close>
  stores the entry of the key \<open>k\<close>.
\<close>

definition reindex_key :: "int \<Rightarrow> int \<Rightarrow> yaml \<Rightarrow> yaml" where
  "reindex_key index num_steps keyv =
     (case keyv of
        YStr keystr \<Rightarrow>
          (case parse_meta_step_key keystr of
             None \<Rightarrow> keyv
           | Some (i, s) \<Rightarrow> YStr (if index \<le> i then meta_step_key (i + num_steps) s else keystr))
      | _ \<Rightarrow> keyv)"

text \<open>
  Modelled from the spec: \<open>mergedeep.merge\<close> with \<open>Strategy.TYPESAFE_REPLACE\<close> is
  an external library. For every key of the source: where both sides hold a mapping,
  recurse; where the destination has no such key, insert; where the types differ, fail
  with \<open>TypeError\<close>; otherwise the source value replaces the destination value.
\<close>

function merge_dict :: "(yaml \<times> yaml) list \<Rightarrow> (yaml \<times> yaml) list \<Rightarrow> error + (yaml \<times> yaml) list" where
  "merge_dict dst [] = Inr dst"
| "merge_dict dst ((k, sv) # src) =
     (case map_of dst k of
        None \<Rightarrow> merge_dict (dst @ [(k, sv)]) src
      | Some dv \<Rightarrow>
          (case (dv, sv) of
             (YDict dd, YDict sd) \<Rightarrow>
               (case merge_dict dd sd of
                  Inl e \<Rightarrow> Inl e
                | Inr m \<Rightarrow> merge_dict (AList.update k (YDict m) dst) src)
           | _ \<Rightarrow>
               if type_of dv \<noteq> type_of sv then Inl TypeError
               else merge_dict (AList.update k sv dst) src))"
  by pat_completeness auto
termination
  by (relation "measure (\<lambda>(dst, src). size_list (size_prod size size) src)") auto

fun merge :: "yaml \<Rightarrow> yaml \<Rightarrow> error + yaml" where
  "merge (YDict d) (YDict s) = (case merge_dict d s of Inl e \<Rightarrow> Inl e | Inr m \<Rightarrow> Inr (YDict m))"
| "merge dst (YDict s) = (if s = [] then Inr dst else Inl TypeError)"
| "merge dst (YList xs) = (if xs = [] then Inr dst else Inl TypeError)"
| "merge dst (YStr s) = (if s = [] then Inr dst else Inl TypeError)"
| "merge dst src = Inl TypeError"

section \<open>\<open>apply_args\<close>\<close>

text \<open>
  \<open>step_value steps i k\<close> is \<open>steps[i][k]\<close> and \<open>set_step_value\<close> is the assignment
  \<open>steps[i][k] = v\<close>. The loops of the source run over \<open>enumerate(steps_keys)\<close>.
  In \<open>apply_args\<close> the mapping \<open>in_step\<close> is either the step's own \<open>in\<close> mapping or
  the \<open>in\<close> mapping of its \<open>parentargs\<close>; the assignment \<open>in_step[inputkey] = argval\<close>
  changes that mapping in place, which the model writes back to where it came from.
  The text of the exception omits the YAML dumps of the source's message. Warnings
  are printed only and leave no trace in the result.
\<close>

definition step_value :: "yaml list \<Rightarrow> int \<Rightarrow> string \<Rightarrow> error + yaml" where
  "step_value steps i step_key = ebind (list_index steps i) (\<lambda>step. py_getitem step step_key)"

definition set_step_value :: "yaml list \<Rightarrow> int \<Rightarrow> string \<Rightarrow> yaml \<Rightarrow> error + yaml list" where
  "set_step_value steps i step_key v =
     ebind (list_index steps i) (\<lambda>step.
     ebind (py_setitem step step_key v) (\<lambda>step'.
     Inr (steps[nat (norm_index (length steps) i) := step'])))"

definition enumerate_py :: "'a list \<Rightarrow> (int \<times> 'a) list" where
  "enumerate_py xs = zip (map int [0..<length xs]) xs"

definition subst_in_step :: "yaml \<Rightarrow> yaml \<Rightarrow> yaml \<Rightarrow> error + yaml" where
  "subst_in_step argkey argval in_step =
     ebind (py_items in_step) (\<lambda>items.
     ebind (mapE (\<lambda>(inputkey, inputval).
              (case argkey of
                 YStr a \<Rightarrow> Inr (inputkey, if inputval = YStr (''~'' @ a) then argval else inputval)
               | _ \<Rightarrow> Inl TypeError)) items)
       (\<lambda>items'. Inr (YDict items')))"

definition apply_arg_to_step :: "yaml \<Rightarrow> yaml \<Rightarrow> (int \<times> string) \<Rightarrow> yaml list \<Rightarrow> error + yaml list" where
  "apply_arg_to_step argkey argval = (\<lambda>(i, step_key) steps.
     ebind (step_value steps i step_key) (\<lambda>v.
     ebind (py_get v ''in'' (YDict [])) (\<lambda>in_step.
       if truthy in_step
       then ebind (subst_in_step argkey argval in_step) (\<lambda>in_step'.
            ebind (py_setitem v ''in'' in_step') (\<lambda>v'.
            set_step_value steps i step_key v'))
       else ebind (py_get v ''parentargs'' (YDict [])) (\<lambda>pa.
            ebind (py_get pa ''in'' (YDict [])) (\<lambda>in_step.
            ebind (subst_in_step argkey argval in_step) (\<lambda>in_step'.
              if truthy in_step
              then ebind (py_setitem pa ''in'' in_step') (\<lambda>pa'.
                   ebind (py_setitem v ''parentargs'' pa') (\<lambda>v'.
                   set_step_value steps i step_key v'))
              else Inr steps))))))"

definition apply_args :: "yaml \<Rightarrow> yaml \<Rightarrow> error + yaml" where
  "apply_args sub_yml_tree sub_parentargs =
     ebind (py_get sub_yml_tree ''inputs'' (YDict [])) (\<lambda>inputs_workflow.
     ebind (py_in (YStr ''inputs'') sub_yml_tree) (\<lambda>has_inputs.
     ebind (if has_inputs then py_delitem sub_yml_tree ''inputs'' else Inr sub_yml_tree) (\<lambda>tree1.
     ebind (py_getitem tree1 ''steps'') (\<lambda>steps.
     ebind (get_steps_keys steps) (\<lambda>steps_keys.
     ebind (py_iter inputs_workflow) (\<lambda>formals.
     ebind (foldE (\<lambda>argkey (u::unit).
              ebind (py_get sub_parentargs ''in'' (YDict [])) (\<lambda>pin.
              ebind (py_in argkey pin) (\<lambda>supplied. Inr ()))) formals ()) (\<lambda>u.
     ebind (py_get sub_parentargs ''in'' (YDict [])) (\<lambda>pin.
     ebind (py_items pin) (\<lambda>args.
     ebind (foldE (\<lambda>(argkey, argval) steps_list.
              ebind (py_in argkey inputs_workflow) (\<lambda>declared.
                if \<not> declared
                then Inl (Exception (''Error while inlineing '' @ (case argkey of YStr a \<Rightarrow> a | _ \<Rightarrow> [])))
                else foldE (apply_arg_to_step argkey argval) (enumerate_py steps_keys) steps_list))
            args (case steps of YList xs \<Rightarrow> xs | _ \<Rightarrow> [])) (\<lambda>steps_list.
     py_setitem tree1 ''steps'' (YList steps_list)))))))))))"


section \<open>\<open>inline_subworkflow_wic_tag\<close>\<close>

text \<open>
  The source walks from the root tag down to the parent of the inlined subworkflow
  and then changes that node in place. \<open>wic_tag_walk\<close> returns the node after the
  change; an early \<open>return tag_wic\<close> leaves every node as it was.
\<close>

fun wic_tag_walk :: "yaml \<Rightarrow> (int \<times> string) list \<Rightarrow> int \<Rightarrow> error + yaml" where
  "wic_tag_walk sub_wic_parent [] len_substeps = Inl IndexError"
| "wic_tag_walk sub_wic_parent [(sub_index, sub_step_name)] len_substeps =
     (let key = meta_step_key (sub_index + 1) sub_step_name in
      ebind (py_get sub_wic_parent ''wic'' (YDict [])) (\<lambda>w.
      ebind (py_get w ''steps'' (YDict [])) (\<lambda>st.
      ebind (py_get st key (YDict [])) (\<lambda>sub_wic.
      ebind (py_get sub_wic ''wic'' (YDict [])) (\<lambda>sw.
      ebind (py_get sw ''steps'' (YDict [])) (\<lambda>ss.
      ebind (reindex_wic_steps ss 1 sub_index) (\<lambda>sub_wic_steps_reindexed.
      ebind (py_in (YStr key) st) (\<lambda>present.
      ebind (if present
             then ebind (py_getitem sub_wic_parent ''wic'') (\<lambda>w1.
                  ebind (py_getitem w1 ''steps'') (\<lambda>st1.
                  ebind (py_delitem st1 key) (\<lambda>st2.
                  ebind (py_setitem w1 ''steps'' st2) (\<lambda>w2.
                  py_setitem sub_wic_parent ''wic'' w2))))
             else Inr sub_wic_parent) (\<lambda>parent1.
      ebind (py_getitem parent1 ''wic'') (\<lambda>w3.
      ebind (py_getitem w3 ''steps'') (\<lambda>st3.
      ebind (reindex_wic_steps st3 (sub_index + 1) (len_substeps - 1)) (\<lambda>sub_wic_parent_steps_reindexed.
      ebind (merge sub_wic_steps_reindexed sub_wic_parent_steps_reindexed) (\<lambda>merged.
      ebind (py_setitem w3 ''steps'' merged) (\<lambda>w4.
      py_setitem parent1 ''wic'' w4))))))))))))))"
| "wic_tag_walk sub_wic_parent ((index, step_name) # rest) len_substeps =
     (let key = meta_step_key (index + 1) step_name in
      ebind (py_get sub_wic_parent ''wic'' (YDict [])) (\<lambda>w.
      ebind (py_get w ''steps'' (YDict [])) (\<lambda>st.
      ebind (py_get st key (YDict [])) (\<lambda>child.
      ebind (py_get child ''wic'' (YDict [])) (\<lambda>cw.
      ebind (py_in (YStr ''steps'') cw) (\<lambda>has_steps.
        if \<not> has_steps then Inr sub_wic_parent
        else ebind (wic_tag_walk child rest len_substeps) (\<lambda>child'.
             ebind (py_setitem st key child') (\<lambda>st'.
             ebind (py_setitem w ''steps'' st') (\<lambda>w'.
             py_setitem sub_wic_parent ''wic'' w')))))))))"

definition inline_subworkflow_wic_tag :: "yaml \<Rightarrow> string list \<Rightarrow> int \<Rightarrow> error + yaml" where
  "inline_subworkflow_wic_tag wic_tag namespaces len_substeps =
     ebind (py_getitem wic_tag ''wic'') (\<lambda>tag_wic.
     ebind (mapE (\<lambda>ns. ebind (parse_step_name_str ns) (\<lambda>(stem, i, step_key). Inr (i, step_key)))
              namespaces) (\<lambda>step_ints_names.
     ebind (wic_tag_walk wic_tag step_ints_names len_substeps) (\<lambda>wic_tag'.
     py_getitem wic_tag' ''wic'')))"

section \<open>\<open>inline_subworkflow\<close>\<close>

text \<open>
  \<open>attr_stem\<close> and \<open>attr_plugin_ns\<close> read the fields of a \<open>StepId\<close>;
  \<open>py_dict\<close> is \<open>dict(pairs)\<close> and \<open>py_concat\<close> is \<open>+\<close> on lists and strings.
  \<open>utils.extract_backend\<close> is not among the sources and is a parameter of
  \<open>inline_subworkflow\<close>. The exception raised for an unknown step name carries the
  name only, not the list of step names.
\<close>

fun attr_stem :: "yaml \<Rightarrow> error + yaml" where
  "attr_stem (YStepId stem plugin_ns) = Inr stem"
| "attr_stem v = Inl AttributeError"

fun attr_plugin_ns :: "yaml \<Rightarrow> error + yaml" where
  "attr_plugin_ns (YStepId stem plugin_ns) = Inr plugin_ns"
| "attr_plugin_ns v = Inl AttributeError"

fun as_path :: "yaml \<Rightarrow> error + string" where
  "as_path (YStr s) = Inr s"
| "as_path v = Inl TypeError"

definition py_dict :: "(yaml \<times> yaml) list \<Rightarrow> error + yaml" where
  "py_dict pairs =
     ebind (foldE (\<lambda>(k, v) acc. if hashable k then Inr (AList.update k v acc) else Inl TypeError)
              pairs []) (\<lambda>d. Inr (YDict d))"

fun py_concat :: "yaml \<Rightarrow> yaml \<Rightarrow> error + yaml" where
  "py_concat (YList xs) (YList ys) = Inr (YList (xs @ ys))"
| "py_concat (YStr xs) (YStr ys) = Inr (YStr (xs @ ys))"
| "py_concat a b = Inl TypeError"

lemma ebind_cong [fundef_cong]:
  "m = m' \<Longrightarrow> (\<And>x. m' = Inr x \<Longrightarrow> f x = f' x) \<Longrightarrow> ebind m f = ebind m' f'"
  by (auto simp: ebind_def split: sum.splits)

lemma mapE_cong [fundef_cong]:
  "xs = ys \<Longrightarrow> (\<And>x. x \<in> set ys \<Longrightarrow> f x = g x) \<Longrightarrow> mapE f xs = mapE g ys"
proof (induction ys arbitrary: xs)
  case Nil
  then show ?case by simp
next
  case (Cons y ys)
  then have "mapE f ys = mapE g ys" by simp
  with Cons show ?case by simp
qed

lemma size_map_of: "map_of d k = Some v \<Longrightarrow> size v < size (YDict d)"
  by (induction d) (auto split: if_splits)

lemma size_py_getitem: "py_getitem obj k = Inr v \<Longrightarrow> size v < size obj"
  by (cases obj) (auto split: option.splits dest: size_map_of)

lemma size_py_items: "py_items obj = Inr items \<Longrightarrow> (k, v) \<in> set items \<Longrightarrow> size v < size obj"
proof (cases obj)
  case (YDict d)
  assume "py_items obj = Inr items" "(k, v) \<in> set items"
  then have "(k, v) \<in> set d" using YDict by simp
  then have "size v < size (YDict d)"
    by (induction d) auto
  then show ?thesis using YDict by simp
qed auto

lemma size_py_get_backends:
  "py_get t ''wic'' (YDict []) = Inr w \<Longrightarrow> py_getitem w ''backends'' = Inr b \<Longrightarrow> size b < size t"
proof (cases t)
  case (YDict d)
  assume g: "py_get t ''wic'' (YDict []) = Inr w" and b: "py_getitem w ''backends'' = Inr b"
  show ?thesis
  proof (cases "map_of d (YStr ''wic'')")
    case None
    with g YDict have "w = YDict []" by simp
    with b show ?thesis by simp
  next
    case (Some v)
    with g YDict have "w = v" by simp
    with Some have "size w < size t" using YDict size_map_of by blast
    with size_py_getitem[OF b] show ?thesis by simp
  qed
qed auto

definition step_names :: "string \<Rightarrow> string list \<Rightarrow> string list" where
  "step_names yaml_stem steps_keys =
     map (\<lambda>(i, step_key). step_name_str yaml_stem i step_key) (enumerate_py steps_keys)"

definition inline_backend_choice ::
  "(yaml \<Rightarrow> yaml \<Rightarrow> error + (yaml \<times> yaml)) \<Rightarrow> yaml \<times> yaml \<Rightarrow> yaml
     \<Rightarrow> error + ((yaml \<times> yaml) \<times> int)" where
  "inline_backend_choice extract_backend yaml_tree_tuple wic_wic =
     ebind (extract_backend (snd yaml_tree_tuple) wic_wic) (\<lambda>(back_name, backend_tree).
     ebind (py_getitem backend_tree ''steps'') (\<lambda>steps.
     ebind (py_len steps) (\<lambda>len_substeps.
     ebind (attr_plugin_ns (fst yaml_tree_tuple)) (\<lambda>plugin_ns.
     Inr ((YStepId back_name plugin_ns, YDict [(YStr ''steps'', steps)]), 0)))))"

definition splice_substeps ::
  "yaml \<Rightarrow> yaml \<Rightarrow> yaml list \<Rightarrow> int \<Rightarrow> string \<Rightarrow> yaml \<Rightarrow> yaml
     \<Rightarrow> error + (yaml \<times> yaml \<times> int)" where
  "splice_substeps yaml_tree wic_wic steps_list i step_key sub_yml_tree sub_parentargs =
     ebind (apply_args sub_yml_tree sub_parentargs) (\<lambda>sub_yml_tree'.
     ebind (py_getitem sub_yml_tree' ''steps'') (\<lambda>sub_steps.
     ebind (py_concat (YList (slice_to steps_list i)) sub_steps) (\<lambda>front.
     ebind (py_concat front (YList (slice_from steps_list (i + 1)))) (\<lambda>new_steps.
     ebind (py_setitem yaml_tree ''steps'' new_steps) (\<lambda>yaml_tree1.
     ebind (py_len sub_steps) (\<lambda>len_substeps.
     ebind (py_get wic_wic ''steps'' (YDict [])) (\<lambda>pst.
     ebind (py_get pst (meta_step_key (i + 1) step_key) (YDict [])) (\<lambda>pentry.
     ebind (py_get pentry ''wic'' (YDict [])) (\<lambda>parent_wic_tag.
     ebind (py_get sub_yml_tree' ''wic'' (YDict [])) (\<lambda>sub_wic_tag.
     ebind (py_in (YStr ''steps'') wic_wic) (\<lambda>has_steps.
     ebind (if has_steps then Inr wic_wic else py_setitem wic_wic ''steps'' (YDict [])) (\<lambda>wic_wic1.
     ebind (py_getitem wic_wic1 ''steps'') (\<lambda>st.
     ebind (py_in (YStr (meta_step_key (i + 1) step_key)) st) (\<lambda>has_key.
     ebind (if has_key then Inr st else py_setitem st (meta_step_key (i + 1) step_key) (YDict [])) (\<lambda>st1.
     ebind (merge sub_wic_tag parent_wic_tag) (\<lambda>merged.
     ebind (py_getitem st1 (meta_step_key (i + 1) step_key)) (\<lambda>entry.
     ebind (py_setitem entry ''wic'' merged) (\<lambda>entry'.
     ebind (py_setitem st1 (meta_step_key (i + 1) step_key) entry') (\<lambda>st2.
     ebind (py_setitem wic_wic1 ''steps'' st2) (\<lambda>wic_wic2.
     Inr (yaml_tree1, wic_wic2, len_substeps)))))))))))))))))))))"

function inline_subworkflow ::
  "(yaml \<Rightarrow> yaml \<Rightarrow> error + (yaml \<times> yaml)) \<Rightarrow> yaml \<times> yaml \<Rightarrow> string list
     \<Rightarrow> error + ((yaml \<times> yaml) \<times> int)" where
  "inline_subworkflow extract_backend yaml_tree_tuple namespaces =
     (if namespaces = []
      then Inr (yaml_tree_tuple, 0)
      else ebind (attr_stem (fst yaml_tree_tuple)) (\<lambda>yaml_name.
           ebind (py_get (snd yaml_tree_tuple) ''wic'' (YDict [])) (\<lambda>wic_wic.
           ebind (py_in (YStr ''backends'') wic_wic) (\<lambda>has_backends.
           (if has_backends
            then (if length namespaces = 1
                  then inline_backend_choice extract_backend yaml_tree_tuple wic_wic
                  else ebind (py_getitem wic_wic ''backends'') (\<lambda>backends.
                       ebind (py_items backends) (\<lambda>items.
                       ebind (mapE (\<lambda>item. ebind (inline_subworkflow extract_backend item namespaces)
                                              (\<lambda>r. Inr (fst r))) items) (\<lambda>backends_trees.
                       ebind (py_dict backends_trees) (\<lambda>new_backends.
                       ebind (py_setitem wic_wic ''backends'' new_backends) (\<lambda>wic_wic'.
                       ebind (py_setitem (snd yaml_tree_tuple) ''wic'' wic_wic') (\<lambda>yaml_tree'.
                       Inr ((fst yaml_tree_tuple, yaml_tree'), 0))))))))
            else ebind (py_getitem (snd yaml_tree_tuple) ''steps'') (\<lambda>steps.
                 ebind (get_steps_keys steps) (\<lambda>steps_keys.
                 ebind (as_path yaml_name) (\<lambda>yaml_name_str.
                 ebind (py_iter steps) (\<lambda>steps_list.
                 (if hd namespaces \<notin> set (step_names (path_stem yaml_name_str) steps_keys)
                  then Inl (Exception (''Error! '' @ hd namespaces @ '' not in step_names''))
                  else ebind (parse_step_name_str (hd namespaces)) (\<lambda>(yaml_stem', i, step_key).
                       ebind (step_value steps_list i step_key) (\<lambda>step_val.
                       ebind (py_getitem step_val ''subtree'') (\<lambda>sub_yml_tree.
                       ebind (py_getitem step_val ''parentargs'') (\<lambda>sub_parentargs.
                       ebind (if length namespaces = 1
                              then splice_substeps (snd yaml_tree_tuple) wic_wic steps_list i step_key
                                     sub_yml_tree sub_parentargs
                              else ebind (attr_plugin_ns (fst yaml_tree_tuple)) (\<lambda>plugin_ns.
                                   ebind (inline_subworkflow extract_backend
                                            (YStepId (YStr step_key) plugin_ns, sub_yml_tree) (tl namespaces)) (\<lambda>r.
                                   ebind (set_step_value steps_list i step_key
                                            (YDict [(YStr ''subtree'', snd (fst r)), (YStr ''parentargs'', sub_parentargs)])) (\<lambda>steps_list'.
                                   ebind (py_setitem (snd yaml_tree_tuple) ''steps'' (YList steps_list')) (\<lambda>yaml_tree1.
                                   Inr (yaml_tree1, wic_wic, snd r)))))) (\<lambda>(yaml_tree1, wic_wic', len_substeps).
                       ebind (inline_subworkflow_wic_tag (YDict [(YStr ''wic'', wic_wic')]) namespaces len_substeps) (\<lambda>tag.
                       ebind (py_setitem yaml_tree1 ''wic'' tag) (\<lambda>yaml_tree2.
                       Inr ((fst yaml_tree_tuple, yaml_tree2), len_substeps))))))))))))))))))"
  by pat_completeness auto
termination
proof (relation "measures [\<lambda>(e, t, ns). length ns, \<lambda>(e, t, ns). size (snd t)]", goal_cases)
  case 1
  then show ?case by simp
next
  case (2 extract_backend yaml_tree_tuple namespaces yaml_name wic_wic has_backends backends items item)
  obtain k v where item: "item = (k, v)" by (cases item)
  have "size v < size backends" using 2 size_py_items item by blast
  moreover have "size backends < size (snd yaml_tree_tuple)"
    using 2 size_py_get_backends by blast
  ultimately show ?case using item by simp
next
  case (3 extract_backend yaml_tree_tuple namespaces)
  from \<open>namespaces \<noteq> []\<close> show ?case by (cases namespaces) auto
qed


section \<open>\<open>read_ast_from_disk\<close> and \<open>merge_yml_trees\<close>\<close>

text \<open>
  Both functions recurse through documents that are not part of their argument (the
  files of the catalog, the parent's \<open>wic\<close> tag), so they need not terminate. They take
  fuel, and \<open>None\<close> is the run that does not return.
\<close>

definition cbind :: "(error + 'a) option \<Rightarrow> ('a \<Rightarrow> (error + 'b) option) \<Rightarrow> (error + 'b) option" where
  "cbind m f = (case m of None \<Rightarrow> None | Some (Inl e) \<Rightarrow> Some (Inl e) | Some (Inr x) \<Rightarrow> f x)"

fun foldC :: "('a \<Rightarrow> 's \<Rightarrow> (error + 's) option) \<Rightarrow> 'a list \<Rightarrow> 's \<Rightarrow> (error + 's) option" where
  "foldC f [] s = Some (Inr s)"
| "foldC f (x # xs) s = cbind (f x s) (foldC f xs)"

fun mapC :: "('a \<Rightarrow> (error + 'b) option) \<Rightarrow> 'a list \<Rightarrow> (error + 'b list) option" where
  "mapC f [] = Some (Inr [])"
| "mapC f (x # xs) = cbind (f x) (\<lambda>y. cbind (mapC f xs) (\<lambda>ys. Some (Inr (y # ys))))"

text \<open>
  \<open>py_str\<close> is \<open>str(v)\<close> as used by f-strings; \<open>py_repr\<close> renders containers the
  way Python prints them (escapes beyond backslash, quote, newline, carriage return and
  tab are not modelled).
\<close>

definition path_suffix :: "string \<Rightarrow> string" where
  "path_suffix s =
     (let name = path_name s;
          pieces = str_split ''.'' name;
          front = str_join ''.'' (butlast pieces)
      in if 2 \<le> length pieces \<and> front \<noteq> [] \<and> last pieces \<noteq> [] then CHR ''.'' # last pieces else [])"

fun py_repr_str :: "string \<Rightarrow> string" where
  "py_repr_str s =
     (let q = (if CHR 0x27 \<in> set s \<and> CHR 0x22 \<notin> set s then CHR 0x22 else CHR 0x27)
      in [q] @ concat (map (\<lambda>c. if c = CHR 0x5C then [c, c]
                                 else if c = q then [CHR 0x5C, c]
                                 else if c = CHR 0x0A then [CHR 0x5C, CHR ''n'']
                                 else if c = CHR 0x0D then [CHR 0x5C, CHR ''r'']
                                 else if c = CHR 0x09 then [CHR 0x5C, CHR ''t'']
                                 else [c]) s) @ [q])"

function py_repr :: "yaml \<Rightarrow> string" where
  "py_repr YNone = ''None''"
| "py_repr (YBool b) = (if b then ''True'' else ''False'')"
| "py_repr (YInt i) = show_int i"
| "py_repr (YStr s) = py_repr_str s"
| "py_repr (YList xs) = ''['' @ str_join '', '' (map py_repr xs) @ '']''"
| "py_repr (YDict d) =
     ''{'' @ str_join '', '' (map (\<lambda>kv. py_repr (fst kv) @ '': '' @ py_repr (snd kv)) d) @ ''}''"
| "py_repr (YStepId a b) = ''StepId(stem='' @ py_repr a @ '', plugin_ns='' @ py_repr b @ '')''"
  by pat_completeness auto
termination
proof (relation "measure size", goal_cases)
  case 1
  then show ?case by simp
next
  case (2 xs x)
  then show ?case by (induction xs) auto
next
  case (3 d kv)
  then show ?case by (induction d) (auto simp: less_Suc_eq)
next
  case (4 d kv)
  then show ?case by (induction d) (auto simp: less_Suc_eq)
next
  case 5
  then show ?case by simp
next
  case 6
  then show ?case by simp
qed

fun py_str :: "yaml \<Rightarrow> string" where
  "py_str (YStr s) = s"
| "py_str v = py_repr v"

text \<open>
  The arguments of \<open>read_ast_from_disk\<close> other than the document: the home
  directory, the catalog of workflow files by namespace and stem, the identifiers of
  the tools, the schema validator, and the files on disk (\<open>None\<close> for a path that does
  not exist).
\<close>

record env =
  homedir :: string
  yml_paths :: "(string \<times> (string \<times> string) list) list"
  tools :: "(string \<times> string) list"
  validate :: "yaml \<Rightarrow> bool"
  ignore_validation_errors :: bool
  disk :: "string \<Rightarrow> yaml option"

definition tools_stems :: "env \<Rightarrow> string list" where
  "tools_stems e = map fst (tools e)"

text \<open>
  \<open>path_div s names\<close> is \<open>str(Path(s) / n1 / n2 ...)\<close> for names without a slash
  (\<open>pathlib\<close>, standard library, POSIX flavour): the root is \<open>//\<close> for exactly two
  leading slashes and \<open>/\<close> for any other number of them, empty components and
  \<open>.\<close> components are dropped, and the components are joined by single slashes.
\<close>

definition path_root :: "string \<Rightarrow> string" where
  "path_root s =
     (if take 1 s \<noteq> ''/'' then []
      else if take 1 (drop 1 s) \<noteq> ''/'' \<or> take 1 (drop 2 s) = ''/'' then ''/''
      else ''//'')"

definition path_parts :: "string \<Rightarrow> string list" where
  "path_parts s = filter (\<lambda>c. c \<noteq> [] \<and> c \<noteq> ''.'') (str_split ''/'' s)"

definition path_div :: "string \<Rightarrow> string list \<Rightarrow> string" where
  "path_div s names =
     (if path_root s = [] \<and> path_parts s @ names = [] then ''.''
      else path_root s @ str_join ''/'' (path_parts s @ names))"

definition namespace_miss_msg :: "env \<Rightarrow> yaml \<Rightarrow> string" where
  "namespace_miss_msg e plugin_ns =
     ''Error! namespace '' @ py_str plugin_ns @ '' not found in yaml paths. Check ''
       @ path_div (homedir e) [''wic'', ''yml_dirs.txt'']"

definition indentation_hint :: "string \<Rightarrow> string" where
  "indentation_hint doc_stem =
     [CHR 0x0A] @ ''(Check that you have properly indented the `in` tag in '' @ doc_stem @ '')''"

definition stem_miss_msg :: "string \<Rightarrow> yaml \<Rightarrow> string \<Rightarrow> string" where
  "stem_miss_msg stem plugin_ns doc_stem =
     ''Error! '' @ stem @ '' not found in namespace '' @ py_str plugin_ns
       @ '' when attempting to read '' @ doc_stem @ ''.yml''
       @ (if stem = ''in'' then indentation_hint doc_stem else [])"

definition lookup_namespace :: "env \<Rightarrow> yaml \<Rightarrow> error + (string \<times> string) list" where
  "lookup_namespace e plugin_ns =
     (if \<not> hashable plugin_ns then Inl TypeError
      else (case plugin_ns of
              YStr ns \<Rightarrow> Inr (case map_of (yml_paths e) ns of Some paths \<Rightarrow> paths | None \<Rightarrow> [])
            | _ \<Rightarrow> Inr []))"

fun read_ast_from_disk ::
  "nat \<Rightarrow> env \<Rightarrow> yaml \<times> yaml \<Rightarrow> (error + yaml \<times> yaml) option" where
  "read_ast_from_disk 0 e yaml_tree_tuple = None"
| "read_ast_from_disk (Suc fuel) e (step_id, yaml_tree) =
     cbind (Some (if \<not> ignore_validation_errors e \<and> \<not> validate e yaml_tree
                  then ebind (attr_stem step_id) (\<lambda>st. ebind (as_path st) (\<lambda>p. Inl SystemExit))
                  else Inr ())) (\<lambda>valid.
     cbind (Some (py_get yaml_tree ''wic'' (YDict []))) (\<lambda>wic_wic.
     cbind (Some (py_in (YStr ''backends'') wic_wic)) (\<lambda>has_backends.
     (if has_backends
      then cbind (Some (py_getitem wic_wic ''backends'')) (\<lambda>backends.
           cbind (Some (py_items backends)) (\<lambda>items.
           cbind (mapC (\<lambda>(back_name, back).
                          cbind (Some (py_get wic_wic ''namespace'' (YStr ''global''))) (\<lambda>plugin_ns.
                          read_ast_from_disk fuel e (YStepId back_name plugin_ns, back))) items) (\<lambda>backends_trees.
           cbind (Some (py_dict backends_trees)) (\<lambda>new_backends.
           cbind (Some (py_setitem wic_wic ''backends'' new_backends)) (\<lambda>wic_wic'.
           cbind (Some (py_setitem yaml_tree ''wic'' wic_wic')) (\<lambda>yaml_tree'.
           Some (Inr (step_id, yaml_tree'))))))))
      else cbind (Some (py_getitem yaml_tree ''steps'')) (\<lambda>steps.
           cbind (Some (py_get wic_wic ''steps'' (YDict []))) (\<lambda>wic_steps.
           cbind (Some (get_steps_keys steps)) (\<lambda>steps_keys.
           cbind (Some (py_iter steps)) (\<lambda>steps_list.
           cbind (foldC (\<lambda>(i, step_key) steps_list.
                           if step_key \<in> set (get_subkeys steps_keys (tools_stems e))
                           then cbind (Some (py_get wic_steps (meta_step_key (i + 1) step_key) (YDict []))) (\<lambda>sub_wic.
                                cbind (Some (py_get sub_wic ''wic'' (YDict []))) (\<lambda>sub_wic_wic.
                                cbind (Some (py_get sub_wic_wic ''namespace'' (YStr ''global''))) (\<lambda>plugin_ns.
                                cbind (Some (lookup_namespace e plugin_ns)) (\<lambda>paths_ns_i.
                                cbind (Some (if paths_ns_i = [] then Inl (Exception (namespace_miss_msg e plugin_ns))
                                             else if map_of paths_ns_i (path_stem step_key) = None
                                             then ebind (attr_stem step_id) (\<lambda>st.
                                                    Inl (Exception (stem_miss_msg (path_stem step_key) plugin_ns (py_str st))))
                                             else Inr ())) (\<lambda>doc_stem.
                                cbind (Some (case map_of paths_ns_i (path_stem step_key) of
                                               Some p \<Rightarrow> Inr p | None \<Rightarrow> Inl KeyError)) (\<lambda>yaml_path.
                                cbind (Some (case disk e yaml_path of
                                               Some raw \<Rightarrow>
                                                 if path_suffix yaml_path = ''.yml'' then Inr raw
                                                 else Inl (Exception (''Error! '' @ yaml_path @ '' does not exist or is not a .yml file.''))
                                             | None \<Rightarrow> Inl (Exception (''Error! '' @ yaml_path @ '' does not exist or is not a .yml file.'')))) (\<lambda>sub_yaml_tree_raw.
                                cbind (read_ast_from_disk fuel e (YStepId (YStr step_key) plugin_ns, sub_yaml_tree_raw)) (\<lambda>y_t.
                                cbind (Some (step_value steps_list i step_key)) (\<lambda>step_val.
                                Some (set_step_value steps_list i step_key
                                        (YDict [(YStr ''subtree'', snd y_t),
                                                (YStr ''parentargs'', if step_val = YNone then YDict [] else step_val)])))))))))))
                           else Some (Inr steps_list))
                    (enumerate_py steps_keys) steps_list) (\<lambda>steps_list'.
           cbind (Some (py_setitem yaml_tree ''steps'' (YList steps_list'))) (\<lambda>yaml_tree'.
           Some (Inr (step_id, yaml_tree'))))))))))))"

fun merge_yml_trees ::
  "nat \<Rightarrow> yaml \<times> yaml \<Rightarrow> yaml \<Rightarrow> string list \<Rightarrow> (error + yaml \<times> yaml) option" where
  "merge_yml_trees 0 yaml_tree_tuple wic_parent tool_stems = None"
| "merge_yml_trees (Suc fuel) (step_id, yaml_tree) wic_parent tool_stems =
     cbind (Some (py_get yaml_tree ''wic'' (YDict []))) (\<lambda>wic_self_wic.
     cbind (Some (merge (YDict [(YStr ''wic'', wic_self_wic)]) wic_parent)) (\<lambda>wic.
     cbind (Some (py_getitem wic ''wic'')) (\<lambda>wic_wic.
     cbind (Some (py_setitem yaml_tree ''wic'' wic_wic)) (\<lambda>yaml_tree1.
     cbind (Some (py_get wic_wic ''steps'' (YDict []))) (\<lambda>wic_steps.
     cbind (Some (py_in (YStr ''backends'') wic_wic)) (\<lambda>has_backends.
     (if has_backends
      then cbind (Some (py_getitem wic_wic ''backends'')) (\<lambda>backends.
           cbind (Some (py_items backends)) (\<lambda>items.
           cbind (mapC (\<lambda>(stepid, back). merge_yml_trees fuel (stepid, back) wic_parent tool_stems) items) (\<lambda>backends_trees.
           cbind (Some (py_dict backends_trees)) (\<lambda>new_backends.
           cbind (Some (py_setitem wic_wic ''backends'' new_backends)) (\<lambda>wic_wic'.
           cbind (Some (py_setitem yaml_tree1 ''wic'' wic_wic')) (\<lambda>yaml_tree2.
           Some (Inr (step_id, yaml_tree2))))))))
      else cbind (Some (py_getitem yaml_tree1 ''steps'')) (\<lambda>steps.
           cbind (Some (get_steps_keys steps)) (\<lambda>steps_keys.
           cbind (Some (py_iter steps)) (\<lambda>steps_list.
           cbind (foldC (\<lambda>(i, step_key) steps_list.
                           if step_key \<in> set (get_subkeys steps_keys tool_stems)
                           then cbind (Some (step_value steps_list i step_key)) (\<lambda>step_val.
                                cbind (Some (py_getitem step_val ''subtree'')) (\<lambda>sub_yml_tree_initial.
                                cbind (Some (py_get wic_steps (meta_step_key (i + 1) step_key) (YDict []))) (\<lambda>sub_wic.
                                cbind (Some (attr_plugin_ns step_id)) (\<lambda>plugin_ns.
                                cbind (merge_yml_trees fuel (YStepId (YStr step_key) plugin_ns, sub_yml_tree_initial)
                                         sub_wic tool_stems) (\<lambda>y_t.
                                cbind (Some (py_setitem step_val ''subtree'' (snd y_t))) (\<lambda>step_val'.
                                Some (set_step_value steps_list i step_key step_val')))))))
                           else Some (ebind (py_get wic_steps (meta_step_key (i + 1) step_key) (YDict [])) (\<lambda>clt_args.
                                      ebind (py_in (YStr ''wic'') clt_args) (\<lambda>has_wic.
                                      ebind (if has_wic then py_delitem clt_args ''wic'' else Inr clt_args) (\<lambda>sub_yml_tree.
                                      ebind (step_value steps_list i step_key) (\<lambda>step_val.
                                      ebind (merge (if truthy step_val then step_val else YDict []) sub_yml_tree) (\<lambda>args_provided_dict.
                                      set_step_value steps_list i step_key args_provided_dict)))))))
                    (enumerate_py steps_keys) steps_list) (\<lambda>steps_list'.
           cbind (Some (py_setitem yaml_tree1 ''steps'' (YList steps_list'))) (\<lambda>yaml_tree2.
           Some (Inr (step_id, yaml_tree2))))))))))))))"


section \<open>\<open>move_slash_last\<close> and \<open>inline_subworkflow_cwl\<close>\<close>

definition move_slash_last :: "string \<Rightarrow> string" where
  "move_slash_last source_new =
     (if CHR ''/'' \<in> set source_new
      then (let replaced = str_replace_char CHR ''/'' ''___'' source_new;
                source_split = str_split ''___'' replaced
            in str_join ''___'' (butlast source_split) @ ''/'' @ last source_split)
      else source_new)"

fun move_slash_last_val :: "yaml \<Rightarrow> error + yaml" where
  "move_slash_last_val (YStr s) = Inr (YStr (move_slash_last s))"
| "move_slash_last_val v =
     ebind (py_in (YStr ''/'') v) (\<lambda>has_slash. if has_slash then Inl AttributeError else Inr v)"

fun py_getitem_val :: "yaml \<Rightarrow> yaml \<Rightarrow> error + yaml" where
  "py_getitem_val (YDict d) k =
     (if \<not> hashable k then Inl TypeError
      else (case map_of d k of Some v \<Rightarrow> Inr v | None \<Rightarrow> Inl KeyError))"
| "py_getitem_val (YList xs) (YInt i) = list_index xs i"
| "py_getitem_val (YList xs) (YBool b) = list_index xs (if b then 1 else 0)"
| "py_getitem_val (YStr s) (YInt i) = ebind (list_index s i) (\<lambda>c. Inr (YStr [c]))"
| "py_getitem_val (YStr s) (YBool b) = ebind (list_index s (if b then 1 else 0)) (\<lambda>c. Inr (YStr [c]))"
| "py_getitem_val (YStepId a b) (YInt i) = list_index [a, b] i"
| "py_getitem_val (YStepId a b) (YBool c) = list_index [a, b] (if c then 1 else 0)"
| "py_getitem_val obj k = Inl TypeError"

fun py_setitem_val :: "yaml \<Rightarrow> yaml \<Rightarrow> yaml \<Rightarrow> error + yaml" where
  "py_setitem_val (YDict d) k v =
     (if hashable k then Inr (YDict (AList.update k v d)) else Inl TypeError)"
| "py_setitem_val (YList xs) (YInt i) v =
     ebind (list_index xs i) (\<lambda>old. Inr (YList (xs[nat (norm_index (length xs) i) := v])))"
| "py_setitem_val (YList xs) (YBool b) v =
     ebind (list_index xs (if b then 1 else 0)) (\<lambda>old. Inr (YList (xs[(if b then 1 else 0) := v])))"
| "py_setitem_val obj k v = Inl TypeError"

text \<open>
  \<open>match_inputs_ref text\<close> is the first group of
  \<open>re.match(r'.*\[inputs\.(.*)\].*', text)\<close>: the dot does not match a newline, the
  first star is greedy (the last \<open>[inputs.\<close> that still has a \<open>]\<close> after it) and so
  is the group (up to the last \<open>]\<close> of the line).
\<close>

definition match_inputs_ref :: "string \<Rightarrow> string option" where
  "match_inputs_ref text =
     (let line = takeWhile (\<lambda>c. c \<noteq> CHR 0x0A) text;
          closers = filter (\<lambda>q. line ! q = CHR '']'') [0..<length line]
      in if closers = [] then None
         else (let q = last closers;
                   openers = filter (\<lambda>p. p + 8 \<le> q \<and> take 8 (drop p line) = ''[inputs.'') [0..<length line]
               in if openers = [] then None
                  else Some (take (q - (last openers + 8)) (drop (last openers + 8) line))))"

text \<open>
  The body of the innermost loop reads and writes four things: the local variable
  \<open>source\<close> (unbound until a string or mapping binding assigns it, and kept from one
  iteration, sub-step and step to the next), the parent step's \<open>in\<close> mapping
  \<open>inputs\<close>, the sub-step \<open>substepval\<close> and the mapping \<open>substep_inputs_new\<close>.

  A mapping is a value here and has no identity. The source rewrites the \<open>source\<close>
  of a mapping binding in place, so one mapping object that is bound to two ports is
  prefixed once for each of them, where these definitions prefix each binding once.
  The source creates such sharing itself when it substitutes one mapping actual into
  two ports, and a further level of inlining then shows the difference. The
  definitions agree with the source as long as no mapping or list object occurs at
  two places of a graph that is rewritten, in particular where all bindings are
  strings or numbers, as in every statement below.
\<close>

record binding_state =
  source :: "yaml option"
  inputs :: yaml
  substepval :: yaml
  substep_inputs_new :: "(yaml \<times> yaml) list"

definition add_scatter :: "yaml \<Rightarrow> yaml \<Rightarrow> bool \<Rightarrow> error + yaml" where
  "add_scatter sv name dedup =
     ebind (py_in (YStr ''scatter'') sv) (\<lambda>has_scatter.
       if has_scatter
       then ebind (py_getitem sv ''scatter'') (\<lambda>sc.
            ebind (if dedup then py_in name sc else Inr False) (\<lambda>already.
              if already then Inr sv
              else ebind (py_concat sc (YList [name])) (\<lambda>sc'. py_setitem sv ''scatter'' sc')))
       else py_setitem sv ''scatter'' (YList [name]))"

definition copy_binding ::
  "yaml \<Rightarrow> yaml \<times> yaml \<Rightarrow> binding_state \<Rightarrow> error + (yaml \<times> binding_state)" where
  "copy_binding step_key = (\<lambda>(subinputkey, subinputval) st.
     (case subinputval of
        YStr s \<Rightarrow>
          ebind (py_concat step_key (YStr ''___'')) (\<lambda>prefix.
          ebind (py_concat prefix subinputval) (\<lambda>namespaced.
          Inr (subinputval,
               st\<lparr>source := Some (YStr (move_slash_last s)),
                  substep_inputs_new := AList.update subinputkey namespaced (substep_inputs_new st)\<rparr>)))
      | YDict d \<Rightarrow>
          ebind (py_getitem subinputval ''source'') (\<lambda>src.
          ebind (move_slash_last_val src) (\<lambda>source_new.
          ebind (py_concat step_key (YStr ''___'')) (\<lambda>prefix.
          ebind (py_concat prefix source_new) (\<lambda>namespaced.
          ebind (py_setitem subinputval ''source'' namespaced) (\<lambda>subinputval'.
          Inr (subinputval',
               st\<lparr>source := Some src,
                  substep_inputs_new := AList.update subinputkey subinputval' (substep_inputs_new st)\<rparr>))))))
      | _ \<Rightarrow> Inr (subinputval, st)))"

definition flatten_actual :: "yaml \<Rightarrow> yaml \<Rightarrow> yaml \<Rightarrow> error + (yaml \<times> yaml)" where
  "flatten_actual inputs_map src newval =
     (case newval of
        YStr s \<Rightarrow> Inr (YStr (move_slash_last s), inputs_map)
      | YDict d \<Rightarrow>
          (if map_of d (YStr ''source'') \<noteq> None
           then ebind (py_getitem newval ''source'') (\<lambda>old.
                ebind (move_slash_last_val old) (\<lambda>source_new.
                ebind (py_setitem newval ''source'' source_new) (\<lambda>newval'.
                ebind (py_setitem_val inputs_map src newval') (\<lambda>inputs_map'.
                Inr (newval', inputs_map')))))
           else Inr (newval, inputs_map))
      | _ \<Rightarrow> Inr (newval, inputs_map))"

definition promote_input_ref ::
  "yaml \<Rightarrow> yaml \<Rightarrow> binding_state \<Rightarrow> error + binding_state" where
  "promote_input_ref scattervars newval st =
     (case match_inputs_ref (py_str newval) of
        None \<Rightarrow> Inr st
      | Some inputvarname \<Rightarrow>
          if inputvarname = [] then Inr st
          else ebind (py_getitem_val (inputs st) (YStr inputvarname)) (\<lambda>v.
               ebind (py_in (YStr inputvarname) scattervars) (\<lambda>in_scatter.
               ebind (if in_scatter then add_scatter (substepval st) (YStr inputvarname) False
                      else Inr (substepval st)) (\<lambda>sv.
               Inr (st\<lparr>substepval := sv,
                       substep_inputs_new := AList.update (YStr inputvarname) v (substep_inputs_new st)\<rparr>)))))"

definition substitute_formal ::
  "yaml \<Rightarrow> yaml \<Rightarrow> binding_state \<Rightarrow> error + binding_state" where
  "substitute_formal scattervars subinputkey st =
     (case source st of
        None \<Rightarrow> Inl UnboundLocalError
      | Some src \<Rightarrow>
          ebind (py_in src (inputs st)) (\<lambda>is_formal.
          (if is_formal
           then ebind (py_getitem_val (inputs st) src) (\<lambda>newval0.
                ebind (flatten_actual (inputs st) src newval0) (\<lambda>(newval, inputs').
                promote_input_ref scattervars newval
                  (st\<lparr>inputs := inputs',
                      substep_inputs_new := AList.update subinputkey newval (substep_inputs_new st)\<rparr>)))
           else Inr st)))"

definition distribute_scatter ::
  "yaml \<Rightarrow> yaml \<Rightarrow> yaml \<Rightarrow> binding_state \<Rightarrow> error + binding_state" where
  "distribute_scatter scattervars subinputkey subinputval st =
     (if truthy scattervars
      then ebind (case subinputval of
                    YStr s \<Rightarrow> Inr (CHR ''/'' \<in> set s)
                  | YDict d \<Rightarrow> ebind (py_getitem subinputval ''source'') (\<lambda>src. py_in (YStr ''/'') src)
                  | _ \<Rightarrow> Inr False) (\<lambda>cross_step.
           (if cross_step
            then ebind (add_scatter (substepval st) subinputkey True) (\<lambda>sv.
                 ebind (py_setitem sv ''scatterMethod'' (YStr ''dotproduct'')) (\<lambda>sv'.
                 Inr (st\<lparr>substepval := sv'\<rparr>)))
            else Inr st))
      else Inr st)"

definition inline_binding ::
  "yaml \<Rightarrow> yaml \<Rightarrow> yaml \<times> yaml \<Rightarrow> binding_state \<Rightarrow> error + binding_state" where
  "inline_binding step_key scattervars binding st =
     ebind (copy_binding step_key binding st) (\<lambda>(subinputval', st1).
     ebind (substitute_formal scattervars (fst binding) st1) (\<lambda>st2.
     distribute_scatter scattervars (fst binding) subinputval' st2))"

definition inline_substep ::
  "yaml \<Rightarrow> yaml \<Rightarrow> yaml \<times> yaml \<Rightarrow> yaml option \<times> yaml \<times> (yaml \<times> yaml) list
     \<Rightarrow> error + (yaml option \<times> yaml \<times> (yaml \<times> yaml) list)" where
  "inline_substep step_key scattervars = (\<lambda>(substepkey, substepval0) (src, inputs_map, sub_steps_new).
     ebind (py_getitem substepval0 ''in'') (\<lambda>substep_inputs.
     ebind (py_items substep_inputs) (\<lambda>items.
     ebind (foldE (inline_binding step_key scattervars) items
              \<lparr>source = src, inputs = inputs_map, substepval = substepval0, substep_inputs_new = []\<rparr>) (\<lambda>st.
     ebind (py_setitem (substepval st) ''in'' (YDict (substep_inputs_new st))) (\<lambda>sv1.
     ebind (py_getitem sv1 ''run'') (\<lambda>runstr.
     ebind (case runstr of
              YStr r \<Rightarrow> if take 3 r = ''../'' then py_setitem sv1 ''run'' (YStr (drop 3 r)) else Inr sv1
            | _ \<Rightarrow> Inl AttributeError) (\<lambda>sv2.
     ebind (py_concat step_key (YStr ''___'')) (\<lambda>prefix.
     ebind (py_concat prefix substepkey) (\<lambda>namespaced.
     Inr (source st, inputs st, AList.update namespaced sv2 sub_steps_new))))))))))"

definition inline_step ::
  "yaml \<Rightarrow> (yaml \<times> yaml) list \<Rightarrow> yaml \<Rightarrow> yaml option \<times> (yaml \<times> yaml) list \<times> nat
     \<Rightarrow> error + (yaml option \<times> (yaml \<times> yaml) list \<times> nat)" where
  "inline_step steps subkeysdict step_key = (\<lambda>(src, steps_new, count).
     if step_key \<in> set (map fst subkeysdict)
     then ebind (py_getitem_val steps step_key) (\<lambda>step_val.
          ebind (py_getitem step_val ''in'') (\<lambda>inputs_map.
          ebind (py_get step_val ''scatter'' (YList [])) (\<lambda>scattervars.
          ebind (py_getitem_val (YDict subkeysdict) step_key) (\<lambda>sub_cwl_tree.
          ebind (py_getitem sub_cwl_tree ''steps'') (\<lambda>sub_steps.
          ebind (py_items sub_steps) (\<lambda>items.
          ebind (foldE (inline_substep step_key scattervars) items (src, inputs_map, [])) (\<lambda>(src', inputs_map', sub_steps_new).
          Inr (src', fold (\<lambda>(k, v). AList.update k v) sub_steps_new steps_new, count + 1))))))))
     else ebind (py_getitem_val steps step_key) (\<lambda>step_val.
          Inr (src, AList.update step_key step_val steps_new, count)))"

definition rewrite_output :: "yaml \<times> yaml \<Rightarrow> (yaml \<times> yaml) list \<Rightarrow> error + (yaml \<times> yaml) list" where
  "rewrite_output = (\<lambda>(outkey, outval) outputs_new.
     ebind (py_in (YStr ''output_all'') outkey) (\<lambda>skip.
     (if skip
      then Inr outputs_new
      else ebind (py_getitem outval ''outputSource'') (\<lambda>os.
           ebind (move_slash_last_val os) (\<lambda>os'.
           ebind (py_setitem outval ''outputSource'' os') (\<lambda>outval'.
           Inr (AList.update outkey outval' outputs_new)))))))"

text \<open>
  Modelled from the spec: \<open>NodeData\<close> and \<open>RoseTree\<close> are declared in
  \<open>wic_types\<close>, which is not among the sources. Only \<open>namespaces\<close> and
  \<open>compiled_cwl\<close> are read; the other fields are copied and form \<open>other_fields\<close>.
\<close>

record 'x node_data =
  namespaces :: "string list"
  compiled_cwl :: yaml
  other_fields :: 'x

datatype 'x rose_tree = RoseTree (data: "'x node_data") (sub_trees: "'x rose_tree list")

definition subkeysdict_of :: "'x rose_tree list \<Rightarrow> error + (yaml \<times> yaml) list" where
  "subkeysdict_of trees =
     foldE (\<lambda>t acc.
        ebind (list_index (namespaces (data t)) (- 1)) (\<lambda>ns.
        Inr (AList.update (YStr ns) (compiled_cwl (data t)) acc))) trees []"

definition splice_compiled ::
  "yaml \<Rightarrow> 'x rose_tree list \<Rightarrow> error + yaml" where
  "splice_compiled cwl_tree sub_trees' =
     ebind (py_getitem cwl_tree ''steps'') (\<lambda>steps.
     ebind (py_items steps) (\<lambda>steps_items.
     ebind (subkeysdict_of sub_trees') (\<lambda>subkeysdict.
     ebind (foldE (inline_step steps subkeysdict) (map fst steps_items) (None, [], 0)) (\<lambda>(src, steps_new, count).
     ebind (py_setitem cwl_tree ''steps'' (YDict steps_new)) (\<lambda>cwl_tree1.
     ebind (py_getitem cwl_tree1 ''outputs'') (\<lambda>outputs.
     ebind (py_items outputs) (\<lambda>out_items.
     ebind (foldE rewrite_output out_items []) (\<lambda>outputs_new.
     ebind (py_setitem cwl_tree1 ''outputs'' (YDict outputs_new)) (\<lambda>cwl_tree2.
     Inr cwl_tree2)))))))))"

fun inline_subworkflow_cwl :: "'x rose_tree \<Rightarrow> error + 'x rose_tree" where
  "inline_subworkflow_cwl (RoseTree node_data subs) =
     (if subs = [] then Inr (RoseTree node_data subs)
      else ebind (mapE inline_subworkflow_cwl subs) (\<lambda>sub_trees'.
           ebind (splice_compiled (compiled_cwl node_data) sub_trees') (\<lambda>cwl_tree.
           Inr (RoseTree (node_data\<lparr>compiled_cwl := cwl_tree\<rparr>) []))))"

section \<open>Observations and example documents\<close>

text \<open>
  \<open>compiled_step t name\<close> is the step \<open>name\<close> of the compiled graph at the root of
  \<open>t\<close>, and \<open>step_binding t name port\<close> is the binding of \<open>port\<close> in its \<open>in\<close>
  mapping. The constants after them are the inputs at which the functions are
  evaluated below.
\<close>

definition compiled_step :: "'x rose_tree \<Rightarrow> string \<Rightarrow> error + yaml" where
  "compiled_step t name =
     ebind (py_getitem (compiled_cwl (data t)) ''steps'') (\<lambda>steps. py_getitem steps name)"

definition step_binding :: "'x rose_tree \<Rightarrow> string \<Rightarrow> string \<Rightarrow> error + yaml" where
  "step_binding t name port =
     ebind (compiled_step t name) (\<lambda>step.
     ebind (py_getitem step ''in'') (\<lambda>bindings. py_getitem bindings port))"

text \<open>
  \<open>step_resolves fuel e wic_steps i k\<close> says that the loop body of
  \<open>read_ast_from_disk\<close> gets through the subworkflow step \<open>k\<close> at position \<open>i\<close>: the
  lookups of its entry in \<open>wic: steps:\<close> succeed, its namespace holds its stem, the
  file exists with the suffix \<open>.yml\<close>, and the recursive call on the file returns.
\<close>

definition step_resolves :: "nat \<Rightarrow> env \<Rightarrow> yaml \<Rightarrow> int \<Rightarrow> string \<Rightarrow> bool" where
  "step_resolves fuel e wic_steps i step_key =
     (case py_get wic_steps (meta_step_key (i + 1) step_key) (YDict []) of
        Inl err \<Rightarrow> False
      | Inr sub_wic \<Rightarrow>
     (case py_get sub_wic ''wic'' (YDict []) of
        Inl err \<Rightarrow> False
      | Inr sub_wic_wic \<Rightarrow>
     (case py_get sub_wic_wic ''namespace'' (YStr ''global'') of
        Inl err \<Rightarrow> False
      | Inr plugin_ns \<Rightarrow>
     (case lookup_namespace e plugin_ns of
        Inl err \<Rightarrow> False
      | Inr paths_ns_i \<Rightarrow>
     (case map_of paths_ns_i (path_stem step_key) of
        None \<Rightarrow> False
      | Some yaml_path \<Rightarrow>
     (case disk e yaml_path of
        None \<Rightarrow> False
      | Some raw \<Rightarrow>
          path_suffix yaml_path = ''.yml'' \<and>
          (case read_ast_from_disk fuel e (YStepId (YStr step_key) plugin_ns, raw) of
             Some (Inr r) \<Rightarrow> True
           | _ \<Rightarrow> False)))))))"

definition cwl_node :: "string list \<Rightarrow> yaml \<Rightarrow> unit node_data" where
  "cwl_node ns cwl = \<lparr>namespaces = ns, compiled_cwl = cwl, other_fields = ()\<rparr>"

definition scenario5_parent :: yaml where
  "scenario5_parent =
     YDict [(YStr ''steps'',
             YDict [(YStr ''sub'',
                     YDict [(YStr ''in'', YDict [(YStr ''a'', YStr ''upstream/out'')]),
                            (YStr ''scatter'', YList [YStr ''a'']),
                            (YStr ''run'', YStr ''sub.cwl'')])]),
            (YStr ''outputs'', YDict [])]"

definition child_graph :: "(yaml \<times> yaml) list \<Rightarrow> yaml" where
  "child_graph bindings =
     YDict [(YStr ''steps'',
             YDict [(YStr ''c0'',
                     YDict [(YStr ''in'', YDict bindings), (YStr ''run'', YStr ''../c0.cwl'')])]),
            (YStr ''outputs'', YDict [])]"

definition tree_with_child :: "(yaml \<times> yaml) list \<Rightarrow> unit rose_tree" where
  "tree_with_child bindings =
     RoseTree (cwl_node [''root''] scenario5_parent)
       [RoseTree (cwl_node [''root'', ''sub''] (child_graph bindings)) []]"

definition scenario5_tree :: "unit rose_tree" where
  "scenario5_tree = tree_with_child [(YStr ''a'', YStr ''a'')]"


definition root_id :: yaml where
  "root_id = YStepId (YStr ''root'') (YStr ''global'')"

definition body_x :: yaml where
  "body_x =
     YDict [(YStr ''inputs'', YDict [(YStr ''x'', YDict [])]),
            (YStr ''steps'',
             YList [YDict [(YStr ''C'', YDict [(YStr ''in'', YDict [(YStr ''y'', YStr ''~x'')])])]])]"

definition body_x_applied :: yaml where
  "body_x_applied =
     YDict [(YStr ''steps'',
             YList [YDict [(YStr ''C'', YDict [(YStr ''in'', YDict [(YStr ''y'', YInt 42)])])]])]"

definition args_x :: yaml where
  "args_x = YDict [(YStr ''in'', YDict [(YStr ''x'', YInt 42)])]"

definition tool_with_wic :: yaml where
  "tool_with_wic =
     YDict [(YStr ''steps'',
             YList [YDict [(YStr ''echo'', YDict [(YStr ''wic'', YDict [(YStr ''x'', YInt 1)])])]])]"

definition empty_catalog_env :: env where
  "empty_catalog_env =
     \<lparr>homedir = ''/home/u'', yml_paths = [(''global'', [])], tools = [(''echo'', ''global'')],
      validate = (\<lambda>y. True), ignore_validation_errors = False, disk = (\<lambda>p. None)\<rparr>"

definition two_step_doc :: yaml where
  "two_step_doc =
     YDict [(YStr ''steps'', YList [YDict [(YStr ''echo'', YNone)], YDict [(YStr ''foo'', YNone)]])]"

definition body_x_no_inputs :: yaml where
  "body_x_no_inputs =
     YDict [(YStr ''steps'',
             YList [YDict [(YStr ''C'', YDict [(YStr ''in'', YDict [(YStr ''y'', YStr ''~x'')])])]])]"

definition example_state :: binding_state where
  "example_state =
     \<lparr>source = None,
      inputs = YDict [(YStr ''a'', YStr ''upstream/out'')],
      substepval = YDict [(YStr ''in'', YDict []), (YStr ''run'', YStr ''../c0.cwl'')],
      substep_inputs_new = []\<rparr>"

definition example_state_q :: binding_state where
  "example_state_q =
     \<lparr>source = Some (YStr ''x___y/z''),
      inputs = YDict [(YStr ''a'', YStr ''upstream/out'')],
      substepval = YDict [(YStr ''in'', YDict []), (YStr ''run'', YStr ''../c0.cwl''),
                          (YStr ''scatter'', YList [YStr ''q'']),
                          (YStr ''scatterMethod'', YStr ''dotproduct'')],
      substep_inputs_new = [(YStr ''q'', YStr ''sub___x/y/z'')]\<rparr>"

definition example_state_a :: binding_state where
  "example_state_a =
     \<lparr>source = Some (YStr ''a''),
      inputs = YDict [(YStr ''a'', YStr ''upstream/out'')],
      substepval = YDict [(YStr ''in'', YDict []), (YStr ''run'', YStr ''../c0.cwl'')],
      substep_inputs_new = [(YStr ''a'', YStr ''upstream/out'')]\<rparr>"

definition foo_body :: yaml where
  "foo_body =
     YDict [(YStr ''steps'', YList [YDict [(YStr ''echo'', YDict [(YStr ''in'', YDict [])])]])]"

definition foo_catalog_env :: env where
  "foo_catalog_env =
     \<lparr>homedir = ''/home/u'', yml_paths = [(''global'', [(''foo'', ''/p/foo.yml'')])],
      tools = [(''echo'', ''global'')],
      validate = (\<lambda>y. True), ignore_validation_errors = False,
      disk = (\<lambda>p. if p = ''/p/foo.yml'' then Some foo_body else None)\<rparr>"

definition two_step_doc_resolved :: yaml where
  "two_step_doc_resolved =
     YDict [(YStr ''steps'',
             YList [YDict [(YStr ''echo'', YNone)],
                    YDict [(YStr ''foo'',
                            YDict [(YStr ''subtree'', foo_body), (YStr ''parentargs'', YDict [])])]])]"

text \<open>
  A root with the steps \<open>[A, S, B]\<close>, where \<open>S\<close> is a resolved subworkflow with
  the steps \<open>[C, D]\<close>; the parent's meta holds the keys \<open>(2, S)\<close> and \<open>(3, B)\<close>, the
  entry of \<open>S\<close> holds the key \<open>(2, D)\<close>.
\<close>

definition scenario2_sub_meta :: "(yaml \<times> yaml) list" where
  "scenario2_sub_meta =
     [(YStr ''(2, D)'', YDict [(YStr ''wic'', YDict [(YStr ''label'', YStr ''d'')])])]"

definition scenario2_meta :: "(yaml \<times> yaml) list" where
  "scenario2_meta =
     [(YStr ''(2, S)'', YDict [(YStr ''wic'', YDict [(YStr ''steps'', YDict scenario2_sub_meta)])]),
      (YStr ''(3, B)'', YDict [(YStr ''wic'', YDict [(YStr ''label'', YStr ''b'')])])]"

definition scenario2_wic :: yaml where
  "scenario2_wic = YDict [(YStr ''steps'', YDict scenario2_meta)]"

definition scenario2_body :: yaml where
  "scenario2_body =
     YDict [(YStr ''steps'', YList [YDict [(YStr ''C'', YNone)], YDict [(YStr ''D'', YNone)]])]"

definition scenario2_steps :: "yaml list" where
  "scenario2_steps =
     [YDict [(YStr ''A'', YNone)],
      YDict [(YStr ''S'', YDict [(YStr ''subtree'', scenario2_body), (YStr ''parentargs'', YDict [])])],
      YDict [(YStr ''B'', YNone)]]"

definition scenario2_doc :: yaml where
  "scenario2_doc = YDict [(YStr ''steps'', YList scenario2_steps), (YStr ''wic'', scenario2_wic)]"

definition scenario2_inlined_wic :: yaml where
  "scenario2_inlined_wic =
     YDict [(YStr ''steps'',
             YDict [(YStr ''(3, D)'', YDict [(YStr ''wic'', YDict [(YStr ''label'', YStr ''d'')])]),
                    (YStr ''(4, B)'', YDict [(YStr ''wic'', YDict [(YStr ''label'', YStr ''b'')])])])]"

definition scenario2_inlined :: yaml where
  "scenario2_inlined =
     YDict [(YStr ''steps'',
             YList [YDict [(YStr ''A'', YNone)], YDict [(YStr ''C'', YNone)],
                    YDict [(YStr ''D'', YNone)], YDict [(YStr ''B'', YNone)]]),
            (YStr ''wic'', scenario2_inlined_wic)]"

text \<open>
  The parent's meta of the same root with one more key at the index of \<open>S\<close>.
\<close>

definition scenario2_meta_other :: yaml where
  "scenario2_meta_other =
     YDict [(YStr ''wic'',
             YDict [(YStr ''steps'',
                     YDict [(YStr ''(2, S)'', YDict []),
                            (YStr ''(2, other)'', YDict [(YStr ''wic'', YDict [(YStr ''label'', YStr ''o'')])]),
                            (YStr ''(3, B)'', YDict [(YStr ''wic'', YDict [(YStr ''label'', YStr ''b'')])])])])]"

definition no_backend :: "yaml \<Rightarrow> yaml \<Rightarrow> error + (yaml \<times> yaml)" where
  "no_backend yaml_tree wic_wic = Inl KeyError"

text \<open>
  Two documents whose first step \<open>foo\<close> is a subworkflow that resolves: in the first
  the second step has the stem \<open>in\<close>, in the second the step \<open>bar\<close> declares the
  namespace \<open>other\<close>.
\<close>

definition foo_in_doc :: yaml where
  "foo_in_doc =
     YDict [(YStr ''steps'', YList [YDict [(YStr ''foo'', YNone)], YDict [(YStr ''in'', YNone)]])]"

definition other_ns_meta :: yaml where
  "other_ns_meta =
     YDict [(YStr ''(2, bar)'', YDict [(YStr ''wic'', YDict [(YStr ''namespace'', YStr ''other'')])])]"

definition foo_bar_doc :: yaml where
  "foo_bar_doc =
     YDict [(YStr ''steps'', YList [YDict [(YStr ''foo'', YNone)], YDict [(YStr ''bar'', YNone)]]),
            (YStr ''wic'', YDict [(YStr ''steps'', other_ns_meta)])]"

section \<open>Results and loops\<close>

lemma ebind_Inr [simp]: "ebind (Inr x) f = f x"
  by (simp add: ebind_def)

lemma ebind_Inl [simp]: "ebind (Inl e) f = Inl e"
  by (simp add: ebind_def)

lemma ebind_Inr_iff: "ebind m f = Inr r \<longleftrightarrow> (\<exists>x. m = Inr x \<and> f x = Inr r)"
  by (cases m) auto

lemma foldE_invariant:
  "(\<And>x s s'. x \<in> set xs \<Longrightarrow> P s \<Longrightarrow> f x s = Inr s' \<Longrightarrow> P s') \<Longrightarrow>
   P s \<Longrightarrow> foldE f xs s = Inr s' \<Longrightarrow> P s'"
proof (induction xs arbitrary: s)
  case Nil
  then show ?case by simp
next
  case (Cons x xs)
  from Cons.prems(3) obtain s1 where s1: "f x s = Inr s1" and rest: "foldE f xs s1 = Inr s'"
    by (auto simp: ebind_Inr_iff)
  have p1: "P s1" using Cons.prems(1)[of x s s1] Cons.prems(2) s1 by simp
  show ?case
  proof (rule Cons.IH[OF _ p1 rest])
    fix y t t'
    assume "y \<in> set xs" "P t" "f y t = Inr t'"
    then show "P t'" using Cons.prems(1)[of y t t'] by simp
  qed
qed

lemma mapE_length: "mapE f xs = Inr ys \<Longrightarrow> length ys = length xs"
  by (induction xs arbitrary: ys) (auto simp: ebind_Inr_iff)

lemma mapE_nth: "mapE f xs = Inr ys \<Longrightarrow> n < length xs \<Longrightarrow> f (xs ! n) = Inr (ys ! n)"
proof (induction xs arbitrary: ys n)
  case Nil
  then show ?case by simp
next
  case (Cons x xs)
  from Cons.prems(1) obtain y ys' where y: "f x = Inr y" and ys': "mapE f xs = Inr ys'"
    and ys: "ys = y # ys'"
    by (auto simp: ebind_Inr_iff)
  show ?case
  proof (cases n)
    case 0
    with y ys show ?thesis by simp
  next
    case (Suc m)
    with Cons.IH[OF ys', of m] Cons.prems(2) ys show ?thesis by simp
  qed
qed

lemma mapE_update_same:
  "n < length xs \<Longrightarrow> f y = f (xs ! n) \<Longrightarrow> mapE f (xs[n := y]) = mapE f xs"
proof (induction xs arbitrary: n)
  case Nil
  then show ?case by simp
next
  case (Cons x xs)
  then show ?case by (cases n) auto
qed

lemma list_index_nth:
  "list_index xs i = Inr x \<Longrightarrow>
     nat (norm_index (length xs) i) < length xs \<and> x = xs ! nat (norm_index (length xs) i)"
  by (auto simp: list_index_def Let_def split: if_splits)

lemma list_index_nat: "n < length xs \<Longrightarrow> list_index xs (int n) = Inr (xs ! n)"
  by (simp add: list_index_def norm_index_def)

lemma py_get_dict: "py_get obj k dflt = Inr v \<Longrightarrow> \<exists>d. obj = YDict d"
  by (cases obj) auto

lemma py_getitem_dict: "py_getitem obj k = Inr v \<Longrightarrow> \<exists>d. obj = YDict d \<and> map_of d (YStr k) = Some v"
  by (cases obj) (auto split: option.splits)

lemma py_items_dict: "py_items obj = Inr items \<longleftrightarrow> obj = YDict items"
  by (cases obj) auto

lemma get_steps_keys_list: "get_steps_keys steps = Inr keys \<Longrightarrow> \<exists>xs. steps = YList xs"
  by (cases steps) auto

lemma step_key_of_Inr: "step_key_of step = Inr k \<longleftrightarrow> (\<exists>v. step = YDict [(YStr k, v)])"
  by (induction step rule: step_key_of.induct) auto

section \<open>Properties of the string helpers\<close>

lemma str_split_nonempty: "str_split sep s \<noteq> []"
  by (induction sep s rule: str_split.induct) (auto split: list.splits)

lemma str_join_Cons: "ps \<noteq> [] \<Longrightarrow> str_join sep (p # ps) = p @ sep @ str_join sep ps"
  by (cases ps) auto

lemma str_join_split: "str_join sep (str_split sep s) = s"
proof (induction sep s rule: str_split.induct)
  case (1 sep)
  then show ?case by simp
next
  case (2 sep c cs)
  show ?case
  proof (cases "sep \<noteq> [] \<and> take (length sep) (c # cs) = sep")
    case True
    then have e: "str_split sep (c # cs) = [] # str_split sep (drop (length sep) (c # cs))"
      by simp
    have "str_join sep (str_split sep (c # cs)) =
        sep @ str_join sep (str_split sep (drop (length sep) (c # cs)))"
      unfolding e by (simp add: str_join_Cons str_split_nonempty del: str_split.simps)
    also have "\<dots> = take (length sep) (c # cs) @ drop (length sep) (c # cs)"
      using True 2(1) by simp
    finally show ?thesis by (simp del: str_split.simps)
  next
    case False
    obtain p ps where sp: "str_split sep cs = p # ps"
      using str_split_nonempty by (cases "str_split sep cs") auto
    have "str_join sep ((c # p) # ps) = c # str_join sep (p # ps)"
      by (cases ps) auto
    with False sp 2(2) show ?thesis by auto
  qed
qed


lemma str_replace_char_id: "c \<notin> set s \<Longrightarrow> str_replace_char c new s = s"
  by (induction s) (auto simp: str_replace_char_def)

lemma str_replace_char_append:
  "str_replace_char c new (a @ b) = str_replace_char c new a @ str_replace_char c new b"
  by (simp add: str_replace_char_def)

lemma str_replace_char_free: "c \<notin> set new \<Longrightarrow> c \<notin> set (str_replace_char c new s)"
  by (induction s) (auto simp: str_replace_char_def)

lemma str_replace_char_has_new:
  "c \<in> set s \<Longrightarrow> \<exists>a b. str_replace_char c new s = a @ new @ b"
proof -
  assume "c \<in> set s"
  then obtain u v where "s = u @ c # v" by (auto simp: in_set_conv_decomp)
  then have "str_replace_char c new s = str_replace_char c new u @ new @ str_replace_char c new v"
    by (simp add: str_replace_char_def)
  then show ?thesis by blast
qed

lemma str_split_two: "sep \<noteq> [] \<Longrightarrow> 2 \<le> length (str_split sep (a @ sep @ b))"
proof (induction a)
  case Nil
  have "2 \<le> length (str_split sep (sep @ b))"
  proof (cases sep)
    case Nil with \<open>sep \<noteq> []\<close> show ?thesis by simp
  next
    case (Cons x xs)
    have "str_split sep (sep @ b) = [] # str_split sep b"
      unfolding Cons by simp
    then show ?thesis using str_split_nonempty[of sep b] by (cases "str_split sep b") auto
  qed
  then show ?case by simp
next
  case (Cons c a)
  show ?case
  proof (cases "take (length sep) (c # a @ sep @ b) = sep")
    case True
    then have "str_split sep ((c # a) @ sep @ b) = [] # str_split sep (drop (length sep) (c # a @ sep @ b))"
      using Cons.prems by simp
    then show ?thesis
      using str_split_nonempty[of sep "drop (length sep) (c # a @ sep @ b)"]
      by (cases "str_split sep (drop (length sep) (c # a @ sep @ b))") auto
  next
    case False
    obtain p ps where sp: "str_split sep (a @ sep @ b) = p # ps"
      using str_split_nonempty by (cases "str_split sep (a @ sep @ b)") auto
    then have "str_split sep ((c # a) @ sep @ b) = (c # p) # ps"
      using False by simp
    then show ?thesis using Cons.IH[OF Cons.prems] sp by simp
  qed
qed

lemma str_split_parts_subset: "set (concat (str_split sep s)) \<subseteq> set s"
proof (induction sep s rule: str_split.induct)
  case (1 sep) show ?case by simp
next
  case (2 sep c cs)
  show ?case
  proof (cases "sep \<noteq> [] \<and> take (length sep) (c # cs) = sep")
    case True
    then have "set (concat (str_split sep (c # cs))) = set (concat (str_split sep (drop (length sep) (c # cs))))"
      by simp
    also have "\<dots> \<subseteq> set (drop (length sep) (c # cs))" using 2(1) True by simp
    also have "\<dots> \<subseteq> set (c # cs)" by (rule set_drop_subset)
    finally show ?thesis .
  next
    case False
    obtain p ps where sp: "str_split sep cs = p # ps"
      using str_split_nonempty by (cases "str_split sep cs") auto
    with False 2(2) show ?thesis by auto
  qed
qed

lemma str_join_butlast_last:
  "2 \<le> length ps \<Longrightarrow> str_join sep (butlast ps) @ sep @ last ps = str_join sep ps"
proof (induction sep ps rule: str_join.induct)
  case (3 sep p q ps)
  show ?case
  proof (cases ps)
    case Nil then show ?thesis by simp
  next
    case (Cons r rs)
    with 3 show ?thesis by simp
  qed
qed simp_all

lemma str_join_set: "set (str_join sep ps) \<subseteq> set sep \<union> set (concat ps)"
  by (induction sep ps rule: str_join.induct) auto

lemma move_slash_last_idem_aux: "move_slash_last (move_slash_last s) = move_slash_last s"
proof (cases "CHR ''/'' \<in> set s")
  case False
  then show ?thesis by (simp add: move_slash_last_def)
next
  case True
  define t where "t = str_replace_char CHR ''/'' ''___'' s"
  define ps where "ps = str_split ''___'' t"
  define r where "r = str_join ''___'' (butlast ps) @ ''/'' @ last ps"
  have r: "move_slash_last s = r"
    using True by (simp add: move_slash_last_def Let_def r_def ps_def t_def)
  have t_free: "CHR ''/'' \<notin> set t"
    unfolding t_def by (rule str_replace_char_free) simp
  obtain a b where "t = a @ ''___'' @ b"
    using str_replace_char_has_new[OF True, of "''___''"] unfolding t_def by blast
  then have len: "2 \<le> length ps"
    unfolding ps_def using str_split_two[of "''___''" a b] by simp
  have parts_free: "CHR ''/'' \<notin> set (concat ps)"
    using str_split_parts_subset[of "''___''" t] t_free unfolding ps_def by blast
  have ps_ne: "ps \<noteq> []" using len by auto
  have "set (concat (butlast ps)) \<subseteq> set (concat ps)"
    using in_set_butlastD by fastforce
  then have "CHR ''/'' \<notin> set (concat (butlast ps))"
    using parts_free by blast
  moreover have "CHR ''/'' \<notin> set ''___''" by simp
  ultimately have bl_free: "CHR ''/'' \<notin> set (str_join ''___'' (butlast ps))"
    using str_join_set[of "''___''" "butlast ps"] by blast
  have "last ps \<in> set ps" by (rule last_in_set[OF ps_ne])
  then have "set (last ps) \<subseteq> set (concat ps)" by (simp only: set_concat) blast
  then have last_free: "CHR ''/'' \<notin> set (last ps)" using parts_free by blast
  have "str_replace_char CHR ''/'' ''___'' r
      = str_join ''___'' (butlast ps) @ ''___'' @ last ps"
    unfolding r_def str_replace_char_append
      str_replace_char_id[OF bl_free] str_replace_char_id[OF last_free]
    by (simp add: str_replace_char_def)
  also have "\<dots> = t"
    using str_join_butlast_last[OF len, of "''___''"] str_join_split[of "''___''" t]
    unfolding ps_def by simp
  finally have rep: "str_replace_char CHR ''/'' ''___'' r = t" .
  have "CHR ''/'' \<in> set r" unfolding r_def by simp
  then have "move_slash_last r =
      str_join ''___'' (butlast (str_split ''___'' (str_replace_char CHR ''/'' ''___'' r)))
        @ ''/'' @ last (str_split ''___'' (str_replace_char CHR ''/'' ''___'' r))"
    by (simp add: move_slash_last_def Let_def)
  also have "\<dots> = r" unfolding rep by (simp add: r_def ps_def)
  finally have "move_slash_last r = r" .
  with r show ?thesis by simp
qed


lemma str_split_append_us:
  "sep = ''___'' \<Longrightarrow> a = [] \<or> last a \<noteq> CHR ''_'' \<Longrightarrow>
   str_split sep (a @ sep @ b) = str_split sep a @ str_split sep b"
proof (induction sep a rule: str_split.induct)
  case (1 sep)
  then show ?case by simp
next
  case (2 sep c cs)
  note sep = \<open>sep = ''___''\<close>
  from 2(4) have lastc: "last (c # cs) \<noteq> CHR ''_''" by simp
  show ?case
  proof (cases "take (length sep) (c # cs) = sep")
    case True
    define d where "d = drop (length sep) (c # cs)"
    have ccs: "c # cs = sep @ d"
      unfolding d_def using True by (metis append_take_drop_id)
    have dl: "d = [] \<or> last d \<noteq> CHR ''_''"
      using lastc unfolding ccs by (cases "d = []") auto
    have ih: "str_split sep (d @ sep @ b) = str_split sep d @ str_split sep b"
      using 2(1) True sep dl unfolding d_def by simp
    have l: "str_split sep ((c # cs) @ sep @ b) = [] # str_split sep (d @ sep @ b)"
      unfolding ccs using sep by simp
    have r: "str_split sep (c # cs) = [] # str_split sep d"
      unfolding ccs using sep by simp
    show ?thesis unfolding l r ih by simp
  next
    case False
    have csl: "cs = [] \<or> last cs \<noteq> CHR ''_''"
      using lastc by (cases "cs = []") auto
    have ih: "str_split sep (cs @ sep @ b) = str_split sep cs @ str_split sep b"
      using 2(2) False sep csl by simp
    have nt: "take (length sep) ((c # cs) @ sep @ b) \<noteq> sep"
    proof (cases "length sep \<le> length (c # cs)")
      case True
      then have "take (length sep) ((c # cs) @ sep @ b) = take (length sep) (c # cs)"
        by (simp only: take_append) simp
      then show ?thesis using False by simp
    next
      case short: False
      show ?thesis
      proof
        assume eq: "take (length sep) ((c # cs) @ sep @ b) = sep"
        have "last (c # cs) \<in> set (c # cs)" by simp
        moreover have "set (c # cs) \<subseteq> set (take (length sep) ((c # cs) @ sep @ b))"
          using short by (auto simp: take_Cons' split: if_splits)
        ultimately have "last (c # cs) \<in> set sep" using eq by (metis subsetD)
        then show False using lastc sep by simp
      qed
    qed
    obtain p ps where sp: "str_split sep cs = p # ps"
      using str_split_nonempty by (cases "str_split sep cs") auto
    have l: "str_split sep ((c # cs) @ sep @ b) = (c # p) # ps @ str_split sep b"
      using nt ih sp by simp
    have r: "str_split sep (c # cs) = (c # p) # ps"
      using False sp by simp
    show ?thesis unfolding l r by simp
  qed
qed

lemma str_split_none:
  "sep \<noteq> [] \<Longrightarrow> \<not> (\<exists>u v. b = u @ sep @ v) \<Longrightarrow> str_split sep b = [b]"
proof (induction b)
  case Nil
  then show ?case by simp
next
  case (Cons c cs)
  have nt: "take (length sep) (c # cs) \<noteq> sep"
  proof
    assume "take (length sep) (c # cs) = sep"
    then have "c # cs = [] @ sep @ drop (length sep) (c # cs)"
      by (metis append_Nil append_take_drop_id)
    with Cons.prems(2) show False by blast
  qed
  have "\<not> (\<exists>u v. cs = u @ sep @ v)"
  proof
    assume "\<exists>u v. cs = u @ sep @ v"
    then obtain u v where "cs = u @ sep @ v" by blast
    then have "c # cs = (c # u) @ sep @ v" by simp
    with Cons.prems(2) show False by blast
  qed
  with Cons.IH Cons.prems(1) have "str_split sep cs = [cs]" by simp
  with nt show ?case by simp
qed

lemma move_slash_last_single_aux:
  assumes a: "CHR ''/'' \<notin> set a" and b: "CHR ''/'' \<notin> set b"
    and a_end: "\<not> (\<exists>u. a = u @ ''_'')"
    and b_sep: "\<not> (\<exists>u v. b = u @ ''___'' @ v)"
  shows "move_slash_last (a @ ''/'' @ b) = a @ ''/'' @ b"
proof -
  have al: "a = [] \<or> last a \<noteq> CHR ''_''"
  proof (cases "a = []")
    case False
    then have "a = butlast a @ [last a]" by simp
    with a_end show ?thesis by (metis)
  qed simp
  have rep: "str_replace_char CHR ''/'' ''___'' (a @ ''/'' @ b) = a @ ''___'' @ b"
    unfolding str_replace_char_append str_replace_char_id[OF a] str_replace_char_id[OF b]
    by (simp add: str_replace_char_def)
  have sp: "str_split ''___'' (a @ ''___'' @ b) = str_split ''___'' a @ [b]"
    using str_split_append_us[OF refl al, of b] str_split_none[OF _ b_sep] by simp
  have j: "str_join ''___'' (str_split ''___'' a) = a" by (rule str_join_split)
  have "move_slash_last (a @ ''/'' @ b) =
      str_join ''___'' (butlast (str_split ''___'' (str_replace_char CHR ''/'' ''___'' (a @ ''/'' @ b))))
        @ ''/'' @ last (str_split ''___'' (str_replace_char CHR ''/'' ''___'' (a @ ''/'' @ b)))"
    by (simp add: move_slash_last_def Let_def)
  also have "\<dots> = a @ ''/'' @ b"
    unfolding rep sp by (simp add: j)
  finally show ?thesis .
qed


section \<open>Claims about \<open>move_slash_last\<close>\<close>

text \<open>
  C7 (counterexample). The string \<open>_/\<close> contains exactly one slash, yet
  \<open>move_slash_last\<close> returns \<open>/_\<close>: after the replacement the text is
  four underscores, and \<open>split\<close> cuts at the leftmost three of them.
\<close>

theorem move_slash_last_single_slash_counterexample:
  "length (filter (\<lambda>c. c = CHR ''/'') ''_/'') = 1 \<and> move_slash_last ''_/'' \<noteq> ''_/''"
  by (simp add: move_slash_last_def str_replace_char_def)

text \<open>
  C7 (amended). \<open>move_slash_last\<close> is idempotent on every string; and it returns
  its argument unchanged on every string with exactly one slash whose text before the
  slash does not end in an underscore and whose text after the slash does not contain
  three consecutive underscores.
\<close>

theorem move_slash_last_idempotent_and_single_slash:
  "move_slash_last (move_slash_last s) = move_slash_last s \<and>
   (CHR ''/'' \<notin> set a \<longrightarrow> CHR ''/'' \<notin> set b \<longrightarrow>
    \<not> (\<exists>u. a = u @ ''_'') \<longrightarrow> \<not> (\<exists>u v. b = u @ ''___'' @ v) \<longrightarrow>
    move_slash_last (a @ ''/'' @ b) = a @ ''/'' @ b)"
  using move_slash_last_idem_aux move_slash_last_single_aux by blast

theorem move_slash_last_idempotent_and_single_slash_witness:
  "move_slash_last (move_slash_last ''a/b/c/port'') = move_slash_last ''a/b/c/port'' \<and>
   CHR ''/'' \<notin> set ''sub___c0'' \<and> CHR ''/'' \<notin> set ''out'' \<and>
   \<not> (\<exists>u. ''sub___c0'' = u @ ''_'') \<and> \<not> (\<exists>u v. ''out'' = u @ ''___'' @ v) \<and>
   move_slash_last ''sub___c0/out'' = ''sub___c0/out''"
proof -
  have h1: "CHR ''/'' \<notin> set ''sub___c0''" by simp
  have h2: "CHR ''/'' \<notin> set ''out''" by simp
  have h3: "\<not> (\<exists>u. ''sub___c0'' = u @ ''_'')"
  proof
    assume "\<exists>u. ''sub___c0'' = u @ ''_''"
    then obtain u where e: "''sub___c0'' = u @ ''_''" by blast
    have "last (u @ ''_'') = CHR ''_''" by simp
    with e[symmetric] show False by simp
  qed
  have h4: "\<not> (\<exists>u v. ''out'' = u @ ''___'' @ v)"
  proof
    assume "\<exists>u v. ''out'' = u @ ''___'' @ v"
    then obtain u v where e: "''out'' = u @ ''___'' @ v" by blast
    have "CHR ''_'' \<in> set (u @ ''___'' @ v)" by simp
    with e[symmetric] show False by simp
  qed
  from move_slash_last_idempotent_and_single_slash[of "''a/b/c/port''" "''sub___c0''" "''out''"]
    h1 h2 h3 h4
  show ?thesis by simp
qed

section \<open>The functions at concrete inputs\<close>

lemma scenario5_result:
  "inline_subworkflow_cwl scenario5_tree =
     Inr (RoseTree (cwl_node [''root'']
            (YDict [(YStr ''steps'',
                     YDict [(YStr ''sub___c0'',
                             YDict [(YStr ''in'', YDict [(YStr ''a'', YStr ''upstream/out'')]),
                                    (YStr ''run'', YStr ''c0.cwl'')])]),
                    (YStr ''outputs'', YDict [])])) [])"
  by code_simp


text \<open>
  C3 (counterexample). The first application substitutes \<open>42\<close> for \<open>~x\<close> and removes
  \<open>inputs\<close>; the second application, with the same parent arguments, finds that \<open>x\<close>
  is no longer a declared input and raises.
\<close>

theorem apply_args_twice_counterexample:
  "apply_args body_x args_x = Inr body_x_applied \<and>
   apply_args body_x_applied args_x = Inl (Exception ''Error while inlineing x'')"
  by code_simp

text \<open>
  C5. A tool step whose own arguments contain \<open>wic\<close> keeps that key: only the
  \<open>wic\<close> key of the parent's per-step entry is removed before the merge, and nothing
  raises.
\<close>

theorem merge_yml_trees_keeps_own_wic:
  "merge_yml_trees 1 (root_id, tool_with_wic) (YDict []) [''echo'']
     = Some (Inr (root_id,
          YDict [(YStr ''steps'',
                  YList [YDict [(YStr ''echo'', YDict [(YStr ''wic'', YDict [(YStr ''x'', YInt 1)])])]]),
                 (YStr ''wic'', YDict [])]))"
  by code_simp

text \<open>
  C6. The child binds port \<open>q\<close> to \<open>x/y/z\<close>, which names no formal parameter of the
  parent step \<open>sub\<close>. As a string the binding is prefixed as it is and keeps its two
  inner slashes, where the claim expects \<open>sub___x___y/z\<close>; the same reference given
  as the \<open>source\<close> of a mapping is flattened before it is prefixed.
\<close>

theorem string_binding_not_flattened:
  "py_in (YStr (move_slash_last ''x/y/z'')) (YDict [(YStr ''a'', YStr ''upstream/out'')]) = Inr False \<and>
   ebind (inline_subworkflow_cwl (tree_with_child [(YStr ''q'', YStr ''x/y/z'')]))
     (\<lambda>t. step_binding t ''sub___c0'' ''q'') = Inr (YStr ''sub___x/y/z'') \<and>
   ''sub___'' @ move_slash_last ''x/y/z'' = ''sub___x___y/z'' \<and>
   ebind (inline_subworkflow_cwl
            (tree_with_child [(YStr ''q'', YDict [(YStr ''source'', YStr ''x/y/z'')])]))
     (\<lambda>t. step_binding t ''sub___c0'' ''q'')
     = Inr (YDict [(YStr ''source'', YStr ''sub___x___y/z'')])"
  by code_simp

text \<open>
  C9 (counterexample). The namespace \<open>global\<close> is a key of the catalog, with no
  documents; the step \<open>foo\<close> is a subworkflow step whose stem is absent from it. The
  resolver reports the namespace as not found, not the stem.
\<close>

theorem empty_namespace_counterexample:
  "map_of (yml_paths empty_catalog_env) ''global'' = Some [] \<and>
   read_ast_from_disk 1 empty_catalog_env (root_id, two_step_doc)
     = Some (Inl (Exception
         ''Error! namespace global not found in yaml paths. Check /home/u/wic/yml_dirs.txt''))"
  by code_simp

section \<open>\<open>apply_args\<close> applied twice\<close>

lemma set_step_value_keys:
  assumes keys: "mapE step_key_of sl = Inr keys"
    and get: "step_value sl i k = Inr v"
    and set: "set_step_value sl i k v' = Inr sl'"
  shows "mapE step_key_of sl' = Inr keys"
proof -
  from get obtain step where li: "list_index sl i = Inr step" and gi: "py_getitem step k = Inr v"
    by (auto simp: step_value_def ebind_Inr_iff)
  define n where "n = nat (norm_index (length sl) i)"
  from list_index_nth[OF li] have n: "n < length sl" and step: "step = sl ! n"
    by (simp_all add: n_def)
  from mapE_nth[OF keys n] obtain w where w: "sl ! n = YDict [(YStr (keys ! n), w)]"
    by (auto simp: step_key_of_Inr)
  from gi step w have k: "k = keys ! n" by (auto split: if_splits)
  from set li obtain step' where s': "py_setitem step k v' = Inr step'" and sl': "sl' = sl[n := step']"
    by (auto simp: set_step_value_def ebind_Inr_iff n_def)
  from s' step w k have "step' = YDict [(YStr k, v')]" by auto
  then have "step_key_of step' = step_key_of (sl ! n)" using w k by simp
  from mapE_update_same[OF n this] keys sl' show ?thesis by simp
qed

lemma apply_arg_to_step_keys:
  assumes keys: "mapE step_key_of sl = Inr keys"
    and run: "apply_arg_to_step argkey argval (i, k) sl = Inr sl'"
  shows "mapE step_key_of sl' = Inr keys"
proof -
  from run obtain v in_step where v: "step_value sl i k = Inr v"
    and ins: "py_get v ''in'' (YDict []) = Inr in_step"
    by (auto simp: apply_arg_to_step_def ebind_Inr_iff)
  show ?thesis
  proof (cases "truthy in_step")
    case True
    with run v ins obtain v' where "set_step_value sl i k v' = Inr sl'"
      by (auto simp: apply_arg_to_step_def ebind_Inr_iff)
    from set_step_value_keys[OF keys v this] show ?thesis .
  next
    case False
    with run v ins have "sl' = sl \<or> (\<exists>v'. set_step_value sl i k v' = Inr sl')"
      by (auto simp: apply_arg_to_step_def ebind_Inr_iff split: if_splits)
    then show ?thesis using keys set_step_value_keys[OF keys v] by auto
  qed
qed

lemma apply_args_steps_keys:
  assumes keys: "mapE step_key_of sl = Inr keys"
    and run: "foldE (\<lambda>(argkey, argval) steps_list.
                ebind (py_in argkey inputs_workflow) (\<lambda>declared.
                  if \<not> declared then Inl (Exception (msg argkey))
                  else foldE (apply_arg_to_step argkey argval) steps_keys steps_list))
              args sl = Inr sl'"
  shows "mapE step_key_of sl' = Inr keys"
proof (rule foldE_invariant[where P = "\<lambda>s. mapE step_key_of s = Inr keys", OF _ keys run])
  fix x :: "yaml \<times> yaml" and s s'
  assume P: "mapE step_key_of s = Inr keys"
    and f: "(case x of (argkey, argval) \<Rightarrow> \<lambda>steps_list.
                ebind (py_in argkey inputs_workflow) (\<lambda>declared.
                  if \<not> declared then Inl (Exception (msg argkey))
                  else foldE (apply_arg_to_step argkey argval) steps_keys steps_list)) s = Inr s'"
  obtain argkey argval where x: "x = (argkey, argval)" by (cases x)
  from f x have inner: "foldE (apply_arg_to_step argkey argval) steps_keys s = Inr s'"
    by (auto simp: ebind_Inr_iff split: if_splits)
  show "mapE step_key_of s' = Inr keys"
  proof (rule foldE_invariant[where P = "\<lambda>s. mapE step_key_of s = Inr keys", OF _ P inner])
    fix y :: "int \<times> string" and t t'
    assume "mapE step_key_of t = Inr keys" and "apply_arg_to_step argkey argval y t = Inr t'"
    then show "mapE step_key_of t' = Inr keys"
      using apply_arg_to_step_keys[of t keys argkey argval "fst y" "snd y" t'] by simp
  qed
qed

text \<open>
  C3 (amended). Let \<open>apply_args\<close> succeed on a body with result \<open>body'\<close>. If the
  parent arguments give no \<open>in\<close> bindings, a second application with the same parent
  arguments returns \<open>body'\<close> again. If they give at least one binding, the first of
  them for the name \<open>a\<close>, the second application raises the exception for \<open>a\<close>: the
  first application removed \<open>inputs\<close>, so \<open>a\<close> is no longer a declared input.
\<close>

theorem apply_args_second_application:
  assumes first: "apply_args body pa = Inr body'"
  shows "(py_get pa ''in'' (YDict []) = Inr (YDict []) \<longrightarrow> apply_args body' pa = Inr body') \<and>
         (\<forall>a v rest. py_get pa ''in'' (YDict []) = Inr (YDict ((YStr a, v) # rest)) \<longrightarrow>
            apply_args body' pa = Inl (Exception (''Error while inlineing '' @ a)))"
proof -
  from first obtain iw hi tree1 steps keys pin args sl where
        get_iw: "py_get body ''inputs'' (YDict []) = Inr iw"
    and has: "py_in (YStr ''inputs'') body = Inr hi"
    and del: "(if hi then py_delitem body ''inputs'' else Inr body) = Inr tree1"
    and st: "py_getitem tree1 ''steps'' = Inr steps"
    and ks: "get_steps_keys steps = Inr keys"
    and pin: "py_get pa ''in'' (YDict []) = Inr pin"
    and args: "py_items pin = Inr args"
    and loop: "foldE (\<lambda>(argkey, argval) steps_list.
                ebind (py_in argkey iw) (\<lambda>declared.
                  if \<not> declared
                  then Inl (Exception (''Error while inlineing '' @ (case argkey of YStr a \<Rightarrow> a | _ \<Rightarrow> [])))
                  else foldE (apply_arg_to_step argkey argval) (enumerate_py keys) steps_list))
              args (case steps of YList xs \<Rightarrow> xs | _ \<Rightarrow> []) = Inr sl"
    and set: "py_setitem tree1 ''steps'' (YList sl) = Inr body'"
    unfolding apply_args_def by (auto simp: ebind_Inr_iff)
  from get_iw obtain d where body: "body = YDict d" using py_get_dict by blast
  obtain d1 where tree1: "tree1 = YDict d1" and no_inputs: "map_of d1 (YStr ''inputs'') = None"
  proof (cases hi)
    case True
    with del body have "tree1 = YDict (AList.delete (YStr ''inputs'') d)"
      by (auto split: if_splits)
    moreover have "map_of (AList.delete (YStr ''inputs'') d) (YStr ''inputs'') = None"
      by (simp add: delete_conv)
    ultimately show ?thesis using that by blast
  next
    case False
    with del has body show ?thesis using that by auto
  qed
  from get_steps_keys_list[OF ks] obtain xs where steps: "steps = YList xs" by blast
  from ks steps have keys_xs: "mapE step_key_of xs = Inr keys" by simp
  from loop steps have loop': "foldE (\<lambda>(argkey, argval) steps_list.
                ebind (py_in argkey iw) (\<lambda>declared.
                  if \<not> declared
                  then Inl (Exception (''Error while inlineing '' @ (case argkey of YStr a \<Rightarrow> a | _ \<Rightarrow> [])))
                  else foldE (apply_arg_to_step argkey argval) (enumerate_py keys) steps_list))
              args xs = Inr sl" by simp
  have keys_sl: "mapE step_key_of sl = Inr keys"
    by (rule apply_args_steps_keys[OF keys_xs loop'])
  from set tree1 have body': "body' = YDict (AList.update (YStr ''steps'') (YList sl) d1)"
    by simp
  have g1: "py_get body' ''inputs'' (YDict []) = Inr (YDict [])"
    using no_inputs by (simp add: body' update_conv')
  have g2: "py_in (YStr ''inputs'') body' = Inr False"
    using no_inputs by (simp add: body' update_conv')
  have g3: "py_getitem body' ''steps'' = Inr (YList sl)"
    by (simp add: body' update_conv')
  have g4: "get_steps_keys (YList sl) = Inr keys" using keys_sl by simp
  have g5: "py_setitem body' ''steps'' (YList sl) = Inr body'"
    by (simp add: body')
  have second: "apply_args body' pa =
      ebind (foldE (\<lambda>(argkey, argval) steps_list.
                ebind (py_in argkey (YDict [])) (\<lambda>declared.
                  if \<not> declared
                  then Inl (Exception (''Error while inlineing '' @ (case argkey of YStr a \<Rightarrow> a | _ \<Rightarrow> [])))
                  else foldE (apply_arg_to_step argkey argval) (enumerate_py keys) steps_list))
              args sl) (\<lambda>steps_list. py_setitem body' ''steps'' (YList steps_list))"
    unfolding apply_args_def by (simp add: g1 g2 g3 g4 keys_sl pin args)
  show ?thesis
  proof (intro conjI allI impI)
    assume "py_get pa ''in'' (YDict []) = Inr (YDict [])"
    with pin have "pin = YDict []" by (metis sum.inject(2))
    with args have "args = []" by simp
    then show "apply_args body' pa = Inr body'" unfolding second by (simp add: g5)
  next
    fix a v rest
    assume "py_get pa ''in'' (YDict []) = Inr (YDict ((YStr a, v) # rest))"
    with pin have "pin = YDict ((YStr a, v) # rest)" by (metis sum.inject(2))
    with args have "args = (YStr a, v) # rest" by simp
    then show "apply_args body' pa = Inl (Exception (''Error while inlineing '' @ a))"
      unfolding second by simp
  qed
qed

theorem apply_args_second_application_witness:
  "apply_args body_x args_x = Inr body_x_applied \<and>
   py_get args_x ''in'' (YDict []) = Inr (YDict ((YStr ''x'', YInt 42) # [])) \<and>
   apply_args body_x_applied args_x = Inl (Exception (''Error while inlineing '' @ ''x'')) \<and>
   apply_args body_x (YDict []) = Inr body_x_no_inputs \<and>
   py_get (YDict []) ''in'' (YDict []) = Inr (YDict []) \<and>
   apply_args body_x_no_inputs (YDict []) = Inr body_x_no_inputs"
proof -
  have h1: "apply_args body_x args_x = Inr body_x_applied" by code_simp
  have h2: "py_get args_x ''in'' (YDict []) = Inr (YDict ((YStr ''x'', YInt 42) # []))" by code_simp
  have h3: "apply_args body_x (YDict []) = Inr body_x_no_inputs" by code_simp
  have h4: "py_get (YDict []) ''in'' (YDict []) = Inr (YDict [])" by simp
  from apply_args_second_application[OF h1] h2
  have c1: "apply_args body_x_applied args_x = Inl (Exception (''Error while inlineing '' @ ''x''))"
    by blast
  from apply_args_second_application[OF h3] h4
  have c2: "apply_args body_x_no_inputs (YDict []) = Inr body_x_no_inputs" by blast
  from h1 h2 h3 h4 c1 c2 show ?thesis by blast
qed

section \<open>One input binding of a sub-step\<close>

lemma substitute_formal_not_formal:
  "source st = Some src \<Longrightarrow> py_in src (inputs st) = Inr False \<Longrightarrow>
     substitute_formal sv k st = Inr st"
  by (simp add: substitute_formal_def)

lemma copy_binding_other:
  "(\<forall>s. v \<noteq> YStr s) \<Longrightarrow> (\<forall>d. v \<noteq> YDict d) \<Longrightarrow> copy_binding sk (k, v) st = Inr (v, st)"
  by (cases v) (auto simp: copy_binding_def)

lemma distribute_scatter_other:
  "(\<forall>s. v \<noteq> YStr s) \<Longrightarrow> (\<forall>d. v \<noteq> YDict d) \<Longrightarrow> distribute_scatter sv k v st = Inr st"
  by (cases v) (auto simp: distribute_scatter_def)

text \<open>
  C10. The test \<open>source in inputs\<close> reads the variable \<open>source\<close>, which only the
  string and the mapping branch assign. On a binding whose value is neither, the body
  fails with the unbound-variable error while \<open>source\<close> is unbound; once an earlier
  binding has bound it to \<open>src\<close>, the test is made on \<open>src\<close>: the binding is dropped
  when \<open>src\<close> is not a formal parameter, and is bound to the parent's actual for
  \<open>src\<close> when it is. At the level of the whole function: a child whose first binding
  is the integer \<open>5\<close> makes it fail, and a child that binds \<open>a\<close> to the formal \<open>a\<close>
  and then \<open>p\<close> to \<open>5\<close> gets \<open>p\<close> bound to the parent's actual for \<open>a\<close>.
\<close>

theorem source_variable_unbound_or_stale:
  "((\<forall>s. v \<noteq> YStr s) \<and> (\<forall>d. v \<noteq> YDict d) \<longrightarrow>
      (source st = None \<longrightarrow> inline_binding sk sv (k, v) st = Inl UnboundLocalError) \<and>
      (source st = Some src \<and> py_in src (inputs st) = Inr False \<longrightarrow>
         inline_binding sk sv (k, v) st = Inr st) \<and>
      (source st = Some src \<and> py_in src (inputs st) = Inr True \<and>
       py_getitem_val (inputs st) src = Inr (YStr a) \<and> match_inputs_ref (move_slash_last a) = None \<longrightarrow>
         inline_binding sk sv (k, v) st
           = Inr (st\<lparr>substep_inputs_new :=
                        AList.update k (YStr (move_slash_last a)) (substep_inputs_new st)\<rparr>))) \<and>
   inline_subworkflow_cwl (tree_with_child [(YStr ''p'', YInt 5)]) = Inl UnboundLocalError \<and>
   ebind (inline_subworkflow_cwl (tree_with_child [(YStr ''a'', YStr ''a''), (YStr ''p'', YInt 5)]))
     (\<lambda>t. step_binding t ''sub___c0'' ''p'') = Inr (YStr ''upstream/out'')"
proof (intro conjI impI; (elim conjE)?)
  assume v: "\<forall>s. v \<noteq> YStr s" "\<forall>d. v \<noteq> YDict d" and "source st = None"
  then show "inline_binding sk sv (k, v) st = Inl UnboundLocalError"
    by (simp add: inline_binding_def copy_binding_other substitute_formal_def)
next
  assume v: "\<forall>s. v \<noteq> YStr s" "\<forall>d. v \<noteq> YDict d"
    and "source st = Some src" "py_in src (inputs st) = Inr False"
  then show "inline_binding sk sv (k, v) st = Inr st"
    by (simp add: inline_binding_def copy_binding_other substitute_formal_not_formal
        distribute_scatter_other)
next
  assume v: "\<forall>s. v \<noteq> YStr s" "\<forall>d. v \<noteq> YDict d"
    and s: "source st = Some src" "py_in src (inputs st) = Inr True"
      "py_getitem_val (inputs st) src = Inr (YStr a)" "match_inputs_ref (move_slash_last a) = None"
  have "substitute_formal sv k st
      = Inr (st\<lparr>substep_inputs_new := AList.update k (YStr (move_slash_last a)) (substep_inputs_new st)\<rparr>)"
    using s by (simp add: substitute_formal_def flatten_actual_def promote_input_ref_def)
  then show "inline_binding sk sv (k, v) st
      = Inr (st\<lparr>substep_inputs_new := AList.update k (YStr (move_slash_last a)) (substep_inputs_new st)\<rparr>)"
    using v by (simp add: inline_binding_def copy_binding_other distribute_scatter_other)
next
  show "inline_subworkflow_cwl (tree_with_child [(YStr ''p'', YInt 5)]) = Inl UnboundLocalError"
    by code_simp
next
  show "ebind (inline_subworkflow_cwl (tree_with_child [(YStr ''a'', YStr ''a''), (YStr ''p'', YInt 5)]))
     (\<lambda>t. step_binding t ''sub___c0'' ''p'') = Inr (YStr ''upstream/out'')"
    by code_simp
qed

theorem source_variable_unbound_or_stale_witness:
  "(\<forall>s. YInt 5 \<noteq> YStr s) \<and> (\<forall>d. YInt 5 \<noteq> YDict d) \<and>
   source example_state = None \<and>
   inline_binding (YStr ''sub'') (YList [YStr ''a'']) (YStr ''p'', YInt 5) example_state
     = Inl UnboundLocalError \<and>
   source example_state_q = Some (YStr ''x___y/z'') \<and>
   py_in (YStr ''x___y/z'') (inputs example_state_q) = Inr False \<and>
   inline_binding (YStr ''sub'') (YList [YStr ''a'']) (YStr ''p'', YInt 5) example_state_q
     = Inr example_state_q \<and>
   source example_state_a = Some (YStr ''a'') \<and>
   py_in (YStr ''a'') (inputs example_state_a) = Inr True \<and>
   py_getitem_val (inputs example_state_a) (YStr ''a'') = Inr (YStr ''upstream/out'') \<and>
   match_inputs_ref (move_slash_last ''upstream/out'') = None \<and>
   inline_binding (YStr ''sub'') (YList [YStr ''a'']) (YStr ''p'', YInt 5) example_state_a
     = Inr (example_state_a\<lparr>substep_inputs_new :=
              AList.update (YStr ''p'') (YStr (move_slash_last ''upstream/out''))
                (substep_inputs_new example_state_a)\<rparr>)"
proof -
  have v: "(\<forall>s. YInt 5 \<noteq> YStr s) \<and> (\<forall>d. YInt 5 \<noteq> YDict d)" by simp
  have a1: "source example_state = None" by code_simp
  have b1: "source example_state_q = Some (YStr ''x___y/z'')" by code_simp
  have b2: "py_in (YStr ''x___y/z'') (inputs example_state_q) = Inr False" by code_simp
  have c1: "source example_state_a = Some (YStr ''a'')" by code_simp
  have c2: "py_in (YStr ''a'') (inputs example_state_a) = Inr True" by code_simp
  have c3: "py_getitem_val (inputs example_state_a) (YStr ''a'') = Inr (YStr ''upstream/out'')"
    by code_simp
  have c4: "match_inputs_ref (move_slash_last ''upstream/out'') = None" by code_simp
  note t1 = source_variable_unbound_or_stale[where v = "YInt 5" and st = example_state
      and sk = "YStr ''sub''" and sv = "YList [YStr ''a'']" and k = "YStr ''p''"]
  note t2 = source_variable_unbound_or_stale[where v = "YInt 5" and st = example_state_q
      and sk = "YStr ''sub''" and sv = "YList [YStr ''a'']" and k = "YStr ''p''"
      and src = "YStr ''x___y/z''"]
  note t3 = source_variable_unbound_or_stale[where v = "YInt 5" and st = example_state_a
      and sk = "YStr ''sub''" and sv = "YList [YStr ''a'']" and k = "YStr ''p''"
      and src = "YStr ''a''" and a = "''upstream/out''"]
  from t1 v a1 have r1: "inline_binding (YStr ''sub'') (YList [YStr ''a'']) (YStr ''p'', YInt 5) example_state
     = Inl UnboundLocalError" by blast
  from t2 v b1 b2 have r2: "inline_binding (YStr ''sub'') (YList [YStr ''a'']) (YStr ''p'', YInt 5) example_state_q
     = Inr example_state_q" by blast
  from t3 v c1 c2 c3 c4 have r3: "inline_binding (YStr ''sub'') (YList [YStr ''a'']) (YStr ''p'', YInt 5) example_state_a
     = Inr (example_state_a\<lparr>substep_inputs_new :=
              AList.update (YStr ''p'') (YStr (move_slash_last ''upstream/out''))
                (substep_inputs_new example_state_a)\<rparr>)" by blast
  from v a1 b1 b2 c1 c2 c3 c4 r1 r2 r3 show ?thesis by blast
qed


section \<open>Scatter in the compiled-graph splice\<close>





section \<open>\<open>read_ast_from_disk\<close>\<close>

lemma cbind_Inr [simp]: "cbind (Some (Inr x)) f = f x"
  by (simp add: cbind_def)

lemma cbind_Inl [simp]: "cbind (Some (Inl e)) f = Some (Inl e)"
  by (simp add: cbind_def)

lemma cbind_None [simp]: "cbind None f = None"
  by (simp add: cbind_def)

lemma cbind_Inr_iff: "cbind m f = Some (Inr r) \<longleftrightarrow> (\<exists>x. m = Some (Inr x) \<and> f x = Some (Inr r))"
  by (auto simp: cbind_def split: option.splits sum.splits)

lemma foldC_skip_then_fail:
  "(\<And>x. x \<in> set xs \<Longrightarrow> f x s = Some (Inr s)) \<Longrightarrow> f y s = Some (Inl e) \<Longrightarrow>
     foldC f (xs @ y # zs) s = Some (Inl e)"
  by (induction xs) auto

lemma enumerate_py_append:
  "enumerate_py (xs @ ys) = enumerate_py xs @ zip (map int [length xs..<length xs + length ys]) ys"
proof -
  have "[0..<length xs + length ys] = [0..<length xs] @ [length xs..<length xs + length ys]"
    by (metis le_add1 upt_add_eq_append zero_le add_0)
  then show ?thesis by (simp add: enumerate_py_def)
qed

lemma enumerate_py_append_Cons:
  "\<exists>zs. enumerate_py (pre @ k # post) = enumerate_py pre @ (int (length pre), k) # zs"
proof -
  have e: "[length pre..<length pre + Suc (length post)]
      = length pre # [Suc (length pre)..<length pre + Suc (length post)]"
    by (rule upt_conv_Cons) simp
  have "enumerate_py (pre @ k # post)
      = enumerate_py pre @ zip (map int [length pre..<length pre + Suc (length post)]) (k # post)"
    using enumerate_py_append[of pre "k # post"] by (simp del: upt_Suc)
  then have "enumerate_py (pre @ k # post)
      = enumerate_py pre @ (int (length pre), k)
          # zip (map int [Suc (length pre)..<length pre + Suc (length post)]) post"
    unfolding e by simp
  then show ?thesis by blast
qed

lemma enumerate_py_snd: "x \<in> set (enumerate_py xs) \<Longrightarrow> snd x \<in> set xs"
  unfolding enumerate_py_def by (cases x) (auto dest: set_zip_rightD)

lemma foldC_append: "foldC f (xs @ ys) s = cbind (foldC f xs s) (foldC f ys)"
proof (induction xs arbitrary: s)
  case Nil
  show ?case by simp
next
  case (Cons x xs)
  show ?case
  proof (cases "f x s")
    case None
    then show ?thesis by simp
  next
    case (Some r)
    then show ?thesis using Cons.IH by (cases r) auto
  qed
qed

lemma foldC_invariant_returns:
  "(\<And>x s. x \<in> set xs \<Longrightarrow> I s \<Longrightarrow> \<exists>s'. f x s = Some (Inr s') \<and> I s') \<Longrightarrow> I s \<Longrightarrow>
     \<exists>s'. foldC f xs s = Some (Inr s') \<and> I s'"
proof (induction xs arbitrary: s)
  case Nil
  then show ?case by simp
next
  case (Cons x xs)
  from Cons.prems(1)[of x s] Cons.prems(2) obtain s1 where s1: "f x s = Some (Inr s1)" and i1: "I s1"
    by auto
  have "\<exists>s'. foldC f xs s1 = Some (Inr s') \<and> I s'"
  proof (rule Cons.IH[OF _ i1])
    fix y t assume "y \<in> set xs" "I t"
    then show "\<exists>s'. f y t = Some (Inr s') \<and> I s'" using Cons.prems(1)[of y t] by simp
  qed
  with s1 show ?case by simp
qed

lemma enumerate_py_mem:
  "x \<in> set (enumerate_py xs) \<Longrightarrow> \<exists>n < length xs. x = (int n, xs ! n)"
  unfolding enumerate_py_def by (auto simp: set_zip)

text \<open>
  C9 (amended). Take a document without backends that passes validation and a
  subworkflow step \<open>k\<close> of it that the loop reaches: every step before it is a tool
  step or a subworkflow step that resolves. Let the step declare the namespace \<open>ns\<close>.
  If \<open>ns\<close> is absent from the catalog, or is present with no documents at all, the
  resolver raises the namespace-miss exception. If \<open>ns\<close> has documents and the stem
  of the step is not among them, the resolver raises the stem-miss exception, whose
  message ends with the indentation hint exactly when the stem is \<open>in\<close>.
\<close>

theorem read_ast_from_disk_misses:
  assumes valid: "ignore_validation_errors e \<or> validate e doc"
    and wic: "py_get doc ''wic'' (YDict []) = Inr w"
    and no_backends: "py_in (YStr ''backends'') w = Inr False"
    and steps: "py_getitem doc ''steps'' = Inr (YList steps)"
    and keys: "get_steps_keys (YList steps) = Inr (pre @ k # post)"
    and wsteps: "py_get w ''steps'' (YDict []) = Inr wsteps"
    and earlier: "\<forall>n < length pre. path_stem (pre ! n) \<in> set (tools_stems e) \<or>
                    step_resolves fuel e wsteps (int n) (pre ! n)"
    and subworkflow: "path_stem k \<notin> set (tools_stems e)"
    and entry: "py_get wsteps (meta_step_key (int (length pre) + 1) k) (YDict []) = Inr sw"
    and entry_wic: "py_get sw ''wic'' (YDict []) = Inr sww"
    and namespace: "py_get sww ''namespace'' (YStr ''global'') = Inr (YStr ns)"
  shows "(map_of (yml_paths e) ns = None \<or> map_of (yml_paths e) ns = Some [] \<longrightarrow>
            read_ast_from_disk (Suc fuel) e (YStepId (YStr doc_stem) doc_ns, doc)
              = Some (Inl (Exception
                  (''Error! namespace '' @ ns @ '' not found in yaml paths. Check ''
                     @ path_div (homedir e) [''wic'', ''yml_dirs.txt''])))) \<and>
         (\<forall>paths. map_of (yml_paths e) ns = Some paths \<and> paths \<noteq> [] \<and>
                  map_of paths (path_stem k) = None \<longrightarrow>
            read_ast_from_disk (Suc fuel) e (YStepId (YStr doc_stem) doc_ns, doc)
              = Some (Inl (Exception
                  (''Error! '' @ path_stem k @ '' not found in namespace '' @ ns
                     @ '' when attempting to read '' @ doc_stem @ ''.yml''
                     @ (if path_stem k = ''in'' then indentation_hint doc_stem else [])))))"
proof -
  define body where "body = (\<lambda>(i, step_key) steps_list.
     if step_key \<in> set (get_subkeys (pre @ k # post) (tools_stems e))
     then cbind (Some (py_get wsteps (meta_step_key (i + 1) step_key) (YDict []))) (\<lambda>sub_wic.
          cbind (Some (py_get sub_wic ''wic'' (YDict []))) (\<lambda>sub_wic_wic.
          cbind (Some (py_get sub_wic_wic ''namespace'' (YStr ''global''))) (\<lambda>plugin_ns.
          cbind (Some (lookup_namespace e plugin_ns)) (\<lambda>paths_ns_i.
          cbind (Some (if paths_ns_i = [] then Inl (Exception (namespace_miss_msg e plugin_ns))
                       else if map_of paths_ns_i (path_stem step_key) = None
                       then ebind (attr_stem (YStepId (YStr doc_stem) doc_ns)) (\<lambda>st.
                              Inl (Exception (stem_miss_msg (path_stem step_key) plugin_ns (py_str st))))
                       else Inr ())) (\<lambda>doc_stem.
          cbind (Some (case map_of paths_ns_i (path_stem step_key) of
                         Some p \<Rightarrow> Inr p | None \<Rightarrow> Inl KeyError)) (\<lambda>yaml_path.
          cbind (Some (case disk e yaml_path of
                         Some raw \<Rightarrow>
                           if path_suffix yaml_path = ''.yml'' then Inr raw
                           else Inl (Exception (''Error! '' @ yaml_path @ '' does not exist or is not a .yml file.''))
                       | None \<Rightarrow> Inl (Exception (''Error! '' @ yaml_path @ '' does not exist or is not a .yml file.'')))) (\<lambda>sub_yaml_tree_raw.
          cbind (read_ast_from_disk fuel e (YStepId (YStr step_key) plugin_ns, sub_yaml_tree_raw)) (\<lambda>y_t.
          cbind (Some (step_value steps_list i step_key)) (\<lambda>step_val.
          Some (set_step_value steps_list i step_key
                  (YDict [(YStr ''subtree'', snd y_t),
                          (YStr ''parentargs'', if step_val = YNone then YDict [] else step_val)])))))))))))
     else Some (Inr steps_list))"
  let ?keys = "pre @ k # post"
  have unfold: "read_ast_from_disk (Suc fuel) e (YStepId (YStr doc_stem) doc_ns, doc) =
      cbind (foldC body (enumerate_py ?keys) steps) (\<lambda>steps_list'.
      cbind (Some (py_setitem doc ''steps'' (YList steps_list'))) (\<lambda>yaml_tree'.
      Some (Inr (YStepId (YStr doc_stem) doc_ns, yaml_tree'))))"
    using valid keys by (auto simp: wic no_backends steps wsteps body_def)
  have keys0: "mapE step_key_of steps = Inr ?keys" using keys by simp
  have step: "\<exists>sl'. body x sl = Some (Inr sl') \<and> mapE step_key_of sl' = Inr ?keys"
    if x: "x \<in> set (enumerate_py pre)" and inv: "mapE step_key_of sl = Inr ?keys" for x sl
  proof -
    from enumerate_py_mem[OF x] obtain n where n: "n < length pre" and xn: "x = (int n, pre ! n)"
      by blast
    let ?k = "pre ! n"
    show ?thesis
    proof (cases "path_stem ?k \<in> set (tools_stems e)")
      case True
      then have "?k \<notin> set (get_subkeys ?keys (tools_stems e))"
        by (auto simp: get_subkeys_def)
      with inv show ?thesis unfolding xn by (simp add: body_def)
    next
      case False
      with n have sub: "?k \<in> set (get_subkeys ?keys (tools_stems e))"
        by (auto simp: get_subkeys_def)
      from earlier n False have res: "step_resolves fuel e wsteps (int n) ?k" by blast
      from res obtain sub_wic where a1: "py_get wsteps (meta_step_key (int n + 1) ?k) (YDict []) = Inr sub_wic"
        unfolding step_resolves_def by (auto split: sum.splits)
      from res a1 obtain sww' where a2: "py_get sub_wic ''wic'' (YDict []) = Inr sww'"
        unfolding step_resolves_def by (auto split: sum.splits)
      from res a1 a2 obtain pns where a3: "py_get sww' ''namespace'' (YStr ''global'') = Inr pns"
        unfolding step_resolves_def by (auto split: sum.splits)
      from res a1 a2 a3 obtain paths where a4: "lookup_namespace e pns = Inr paths"
        unfolding step_resolves_def by (auto split: sum.splits)
      from res a1 a2 a3 a4 obtain p where a5: "map_of paths (path_stem ?k) = Some p"
        unfolding step_resolves_def by (auto split: option.splits)
      from res a1 a2 a3 a4 a5 obtain raw where a6: "disk e p = Some raw"
        unfolding step_resolves_def by (auto split: option.splits)
      from res a1 a2 a3 a4 a5 a6 have a7: "path_suffix p = ''.yml''"
        unfolding step_resolves_def by simp
      from res a1 a2 a3 a4 a5 a6 obtain r where
        a8: "read_ast_from_disk fuel e (YStepId (YStr ?k) pns, raw) = Some (Inr r)"
        unfolding step_resolves_def by (auto split: option.splits sum.splits)
      from a5 have ne: "paths \<noteq> []" by auto
      from inv have len: "length sl = length ?keys" using mapE_length by fastforce
      with n have nsl: "n < length sl" by simp
      from mapE_nth[OF inv nsl] n obtain v where v: "sl ! n = YDict [(YStr ?k, v)]"
        by (auto simp: step_key_of_Inr nth_append)
      have li: "list_index sl (int n) = Inr (sl ! n)" using nsl by (rule list_index_nat)
      have sv: "step_value sl (int n) ?k = Inr v"
        by (simp add: step_value_def li v)
      define nv where "nv = YDict [(YStr ''subtree'', snd r),
                          (YStr ''parentargs'', if v = YNone then YDict [] else v)]"
      have set: "set_step_value sl (int n) ?k nv = Inr (sl[n := YDict [(YStr ?k, nv)]])"
        by (simp add: set_step_value_def li v norm_index_def)
      have inv': "mapE step_key_of (sl[n := YDict [(YStr ?k, nv)]]) = Inr ?keys"
        by (rule set_step_value_keys[OF inv sv set])
      have "body x sl = Some (Inr (sl[n := YDict [(YStr ?k, nv)]]))"
        unfolding xn body_def using sub ne
        by (simp add: a1 a2 a3 a4 a5 a6 a7 a8 sv set[unfolded nv_def] nv_def)
      with inv' show ?thesis by blast
    qed
  qed
  from foldC_invariant_returns[of "enumerate_py pre" "\<lambda>sl. mapE step_key_of sl = Inr ?keys" body steps,
      OF step keys0]
  obtain sl where prefix: "foldC body (enumerate_py pre) steps = Some (Inr sl)" by blast
  have ksub: "k \<in> set (get_subkeys ?keys (tools_stems e))"
    using subworkflow by (simp add: get_subkeys_def)
  obtain zs where en: "enumerate_py ?keys = enumerate_py pre @ (int (length pre), k) # zs"
    using enumerate_py_append_Cons[of pre k post] by blast
  have fail: "foldC body (enumerate_py ?keys) steps = Some (Inl err)"
    if "body (int (length pre), k) sl = Some (Inl err)" for err
    unfolding en foldC_append prefix using that by simp
  show ?thesis
  proof (intro conjI impI allI)
    assume "map_of (yml_paths e) ns = None \<or> map_of (yml_paths e) ns = Some []"
    then have "lookup_namespace e (YStr ns) = Inr []"
      by (auto simp: lookup_namespace_def)
    then have "body (int (length pre), k) sl
        = Some (Inl (Exception (namespace_miss_msg e (YStr ns))))"
      using ksub by (simp add: body_def entry entry_wic namespace)
    from fail[OF this]
    show "read_ast_from_disk (Suc fuel) e (YStepId (YStr doc_stem) doc_ns, doc)
              = Some (Inl (Exception
                  (''Error! namespace '' @ ns @ '' not found in yaml paths. Check ''
                     @ path_div (homedir e) [''wic'', ''yml_dirs.txt''])))"
      unfolding unfold by (simp add: namespace_miss_msg_def)
  next
    fix paths
    assume "map_of (yml_paths e) ns = Some paths \<and> paths \<noteq> [] \<and> map_of paths (path_stem k) = None"
    then have p: "lookup_namespace e (YStr ns) = Inr paths" "paths \<noteq> []"
        "map_of paths (path_stem k) = None"
      by (auto simp: lookup_namespace_def)
    then have "body (int (length pre), k) sl
        = Some (Inl (Exception (stem_miss_msg (path_stem k) (YStr ns) doc_stem)))"
      using ksub by (simp add: body_def entry entry_wic namespace)
    from fail[OF this]
    show "read_ast_from_disk (Suc fuel) e (YStepId (YStr doc_stem) doc_ns, doc)
              = Some (Inl (Exception
                  (''Error! '' @ path_stem k @ '' not found in namespace '' @ ns
                     @ '' when attempting to read '' @ doc_stem @ ''.yml''
                     @ (if path_stem k = ''in'' then indentation_hint doc_stem else []))))"
      unfolding unfold by (simp add: stem_miss_msg_def)
  qed
qed

theorem read_ast_from_disk_misses_witness:
  "(ignore_validation_errors foo_catalog_env \<or> validate foo_catalog_env foo_in_doc) \<and>
   py_get foo_in_doc ''wic'' (YDict []) = Inr (YDict []) \<and>
   py_in (YStr ''backends'') (YDict []) = Inr False \<and>
   py_getitem foo_in_doc ''steps'' = Inr (YList [YDict [(YStr ''foo'', YNone)], YDict [(YStr ''in'', YNone)]]) \<and>
   get_steps_keys (YList [YDict [(YStr ''foo'', YNone)], YDict [(YStr ''in'', YNone)]]) = Inr ([''foo''] @ ''in'' # []) \<and>
   path_stem ''foo'' \<notin> set (tools_stems foo_catalog_env) \<and>
   step_resolves 1 foo_catalog_env (YDict []) (int 0) ''foo'' \<and>
   path_stem ''in'' \<notin> set (tools_stems foo_catalog_env) \<and>
   map_of (yml_paths foo_catalog_env) ''global'' = Some [(''foo'', ''/p/foo.yml'')] \<and>
   map_of [(''foo'', ''/p/foo.yml'')] (path_stem ''in'') = None \<and>
   read_ast_from_disk (Suc 1) foo_catalog_env (YStepId (YStr ''root'') (YStr ''global''), foo_in_doc)
     = Some (Inl (Exception
         (''Error! '' @ path_stem ''in'' @ '' not found in namespace '' @ ''global''
            @ '' when attempting to read '' @ ''root'' @ ''.yml''
            @ (if path_stem ''in'' = ''in'' then indentation_hint ''root'' else [])))) \<and>
   path_stem ''in'' = ''in'' \<and>
   py_get foo_bar_doc ''wic'' (YDict []) = Inr (YDict [(YStr ''steps'', other_ns_meta)]) \<and>
   py_get other_ns_meta (meta_step_key (int (length [''foo'']) + 1) ''bar'') (YDict [])
     = Inr (YDict [(YStr ''wic'', YDict [(YStr ''namespace'', YStr ''other'')])]) \<and>
   step_resolves 1 foo_catalog_env other_ns_meta (int 0) ''foo'' \<and>
   map_of (yml_paths foo_catalog_env) ''other'' = None \<and>
   read_ast_from_disk (Suc 1) foo_catalog_env (YStepId (YStr ''root'') (YStr ''global''), foo_bar_doc)
     = Some (Inl (Exception
         (''Error! namespace '' @ ''other'' @ '' not found in yaml paths. Check ''
            @ path_div (homedir foo_catalog_env) [''wic'', ''yml_dirs.txt''])))"
proof -
  have v1: "ignore_validation_errors foo_catalog_env \<or> validate foo_catalog_env foo_in_doc"
    by (simp add: foo_catalog_env_def)
  have v2: "ignore_validation_errors foo_catalog_env \<or> validate foo_catalog_env foo_bar_doc"
    by (simp add: foo_catalog_env_def)
  have w1: "py_get foo_in_doc ''wic'' (YDict []) = Inr (YDict [])" by code_simp
  have w2: "py_get foo_bar_doc ''wic'' (YDict []) = Inr (YDict [(YStr ''steps'', other_ns_meta)])"
    by code_simp
  have nb1: "py_in (YStr ''backends'') (YDict []) = Inr False" by simp
  have nb2: "py_in (YStr ''backends'') (YDict [(YStr ''steps'', other_ns_meta)]) = Inr False" by simp
  have st1: "py_getitem foo_in_doc ''steps''
      = Inr (YList [YDict [(YStr ''foo'', YNone)], YDict [(YStr ''in'', YNone)]])" by code_simp
  have st2: "py_getitem foo_bar_doc ''steps''
      = Inr (YList [YDict [(YStr ''foo'', YNone)], YDict [(YStr ''bar'', YNone)]])" by code_simp
  have ks1: "get_steps_keys (YList [YDict [(YStr ''foo'', YNone)], YDict [(YStr ''in'', YNone)]])
      = Inr ([''foo''] @ ''in'' # [])" by code_simp
  have ks2: "get_steps_keys (YList [YDict [(YStr ''foo'', YNone)], YDict [(YStr ''bar'', YNone)]])
      = Inr ([''foo''] @ ''bar'' # [])" by code_simp
  have ws1: "py_get (YDict []) ''steps'' (YDict []) = Inr (YDict [])" by simp
  have ws2: "py_get (YDict [(YStr ''steps'', other_ns_meta)]) ''steps'' (YDict []) = Inr other_ns_meta"
    by simp
  have stem_foo: "path_stem ''foo'' \<notin> set (tools_stems foo_catalog_env)" by code_simp
  have stem_in: "path_stem ''in'' = ''in''" by code_simp
  have stem_bar: "path_stem ''bar'' = ''bar''" by code_simp
  have res1: "step_resolves 1 foo_catalog_env (YDict []) (int 0) ''foo''" by code_simp
  have res2: "step_resolves 1 foo_catalog_env other_ns_meta (int 0) ''foo''" by code_simp
  have e1: "\<forall>n < length [''foo'']. path_stem ([''foo''] ! n) \<in> set (tools_stems foo_catalog_env) \<or>
                    step_resolves 1 foo_catalog_env (YDict []) (int n) ([''foo''] ! n)"
    using res1 by simp
  have e2: "\<forall>n < length [''foo'']. path_stem ([''foo''] ! n) \<in> set (tools_stems foo_catalog_env) \<or>
                    step_resolves 1 foo_catalog_env other_ns_meta (int n) ([''foo''] ! n)"
    using res2 by simp
  have sub1: "path_stem ''in'' \<notin> set (tools_stems foo_catalog_env)"
    by (simp add: stem_in tools_stems_def foo_catalog_env_def)
  have sub2: "path_stem ''bar'' \<notin> set (tools_stems foo_catalog_env)"
    by (simp add: stem_bar tools_stems_def foo_catalog_env_def)
  have en1: "py_get (YDict []) (meta_step_key (int (length [''foo'']) + 1) ''in'') (YDict []) = Inr (YDict [])"
    by simp
  have en2: "py_get other_ns_meta (meta_step_key (int (length [''foo'']) + 1) ''bar'') (YDict [])
     = Inr (YDict [(YStr ''wic'', YDict [(YStr ''namespace'', YStr ''other'')])])" by code_simp
  have ew1: "py_get (YDict []) ''wic'' (YDict []) = Inr (YDict [])" by simp
  have ew2: "py_get (YDict [(YStr ''wic'', YDict [(YStr ''namespace'', YStr ''other'')])]) ''wic'' (YDict [])
     = Inr (YDict [(YStr ''namespace'', YStr ''other'')])" by simp
  have ns1: "py_get (YDict []) ''namespace'' (YStr ''global'') = Inr (YStr ''global'')" by simp
  have ns2: "py_get (YDict [(YStr ''namespace'', YStr ''other'')]) ''namespace'' (YStr ''global'')
     = Inr (YStr ''other'')" by simp
  have cat1: "map_of (yml_paths foo_catalog_env) ''global'' = Some [(''foo'', ''/p/foo.yml'')]"
    by (simp add: foo_catalog_env_def)
  have miss: "map_of [(''foo'', ''/p/foo.yml'')] (path_stem ''in'') = None"
    by (simp add: stem_in)
  have cat2: "map_of (yml_paths foo_catalog_env) ''other'' = None"
    by (simp add: foo_catalog_env_def)
  note t1 = read_ast_from_disk_misses[OF v1 w1 nb1 st1 ks1 ws1 e1 sub1 en1 ew1 ns1,
      where doc_stem = "''root''" and doc_ns = "YStr ''global''"]
  note t2 = read_ast_from_disk_misses[OF v2 w2 nb2 st2 ks2 ws2 e2 sub2 en2 ew2 ns2,
      where doc_stem = "''root''" and doc_ns = "YStr ''global''"]
  from t1 cat1 miss
  have r1: "read_ast_from_disk (Suc 1) foo_catalog_env (YStepId (YStr ''root'') (YStr ''global''), foo_in_doc)
     = Some (Inl (Exception
         (''Error! '' @ path_stem ''in'' @ '' not found in namespace '' @ ''global''
            @ '' when attempting to read '' @ ''root'' @ ''.yml''
            @ (if path_stem ''in'' = ''in'' then indentation_hint ''root'' else []))))"
    by blast
  from t2 cat2
  have r2: "read_ast_from_disk (Suc 1) foo_catalog_env (YStepId (YStr ''root'') (YStr ''global''), foo_bar_doc)
     = Some (Inl (Exception
         (''Error! namespace '' @ ''other'' @ '' not found in yaml paths. Check ''
            @ path_div (homedir foo_catalog_env) [''wic'', ''yml_dirs.txt''])))"
    by blast
  from v1 w1 nb1 st1 ks1 stem_foo res1 sub1 cat1 miss r1 stem_in w2 en2 res2 cat2 r2
  show ?thesis by blast
qed

lemma resolve_loop:
  fixes body :: "int \<times> string \<Rightarrow> yaml list \<Rightarrow> (error + yaml list) option"
  assumes tool: "\<forall>i k sl. k \<notin> set subkeys \<longrightarrow> body (i, k) sl = Some (Inr sl)"
    and sub: "\<forall>i k sl sl'. k \<in> set subkeys \<longrightarrow> body (i, k) sl = Some (Inr sl') \<longrightarrow>
        (\<exists>s v. step_value sl i k = Inr v \<and>
          set_step_value sl i k (YDict [(YStr ''subtree'', s),
             (YStr ''parentargs'', if v = YNone then YDict [] else v)]) = Inr sl')"
  shows "mapE step_key_of sl = Inr keys \<Longrightarrow> ks = drop n keys \<Longrightarrow>
     foldC body (zip (map int [n..<n + length ks]) ks) sl = Some (Inr sl') \<Longrightarrow>
     length sl' = length sl \<and>
     (\<forall>j < length sl.
        (j < n \<longrightarrow> sl' ! j = sl ! j) \<and>
        (n \<le> j \<longrightarrow> keys ! j \<notin> set subkeys \<longrightarrow> sl' ! j = sl ! j) \<and>
        (n \<le> j \<longrightarrow> keys ! j \<in> set subkeys \<longrightarrow>
           (\<exists>s v. sl ! j = YDict [(YStr (keys ! j), v)] \<and>
              sl' ! j = YDict [(YStr (keys ! j),
                 YDict [(YStr ''subtree'', s),
                        (YStr ''parentargs'', if v = YNone then YDict [] else v)])])))"
proof (induction ks arbitrary: n sl)
  case Nil
  from mapE_length[OF Nil(1)] Nil(2) have "length sl \<le> n" by simp
  with Nil(3) show ?case by simp
next
  case (Cons k ks)
  note keys = Cons.prems(1)
  have len: "length keys = length sl" using mapE_length[OF keys] by simp
  from Cons.prems(2) have n: "n < length keys"
    by (metis drop_all list.distinct(1) not_le_imp_less)
  from Cons.prems(2) have k: "k = keys ! n"
    by (metis n Cons_nth_drop_Suc list.inject)
  from Cons.prems(2) have ks: "ks = drop (Suc n) keys"
    by (metis n Cons_nth_drop_Suc list.inject)
  have up: "[n..<n + length (k # ks)] = n # [Suc n..<Suc n + length ks]"
    by (simp add: upt_conv_Cons del: upt_Suc)
  from Cons.prems(3) obtain sl1 where b: "body (int n, k) sl = Some (Inr sl1)"
    and rest: "foldC body (zip (map int [Suc n..<Suc n + length ks]) ks) sl1 = Some (Inr sl')"
    unfolding up by (auto simp: cbind_Inr_iff)
  from mapE_nth[OF keys] n len obtain v0 where v0: "sl ! n = YDict [(YStr k, v0)]"
    unfolding k by (auto simp: step_key_of_Inr)
  have step1: "mapE step_key_of sl1 = Inr keys \<and> length sl1 = length sl \<and>
      (\<forall>j < length sl. j \<noteq> n \<longrightarrow> sl1 ! j = sl ! j) \<and>
      (k \<notin> set subkeys \<longrightarrow> sl1 ! n = sl ! n) \<and>
      (k \<in> set subkeys \<longrightarrow> (\<exists>s. sl1 ! n = YDict [(YStr k,
                 YDict [(YStr ''subtree'', s),
                        (YStr ''parentargs'', if v0 = YNone then YDict [] else v0)])]))"
  proof (cases "k \<in> set subkeys")
    case False
    from tool False have "body (int n, k) sl = Some (Inr sl)" by blast
    with b have "sl1 = sl" by simp
    with False keys show ?thesis by simp
  next
    case True
    from sub True b obtain s v where sv: "step_value sl (int n) k = Inr v"
      and set: "set_step_value sl (int n) k (YDict [(YStr ''subtree'', s),
             (YStr ''parentargs'', if v = YNone then YDict [] else v)]) = Inr sl1"
      by blast
    have li: "list_index sl (int n) = Inr (sl ! n)" using n len by (simp add: list_index_nat)
    from sv li v0 have v: "v = v0" by (simp add: step_value_def)
    from set li v0 have sl1: "sl1 = sl[n := YDict [(YStr k, YDict [(YStr ''subtree'', s),
             (YStr ''parentargs'', if v = YNone then YDict [] else v)])]]"
      by (auto simp: set_step_value_def norm_index_def)
    from set_step_value_keys[OF keys sv set] sl1 v n len True show ?thesis by auto
  qed
  from step1 have keys1: "mapE step_key_of sl1 = Inr keys" by simp
  from Cons.IH[OF keys1 ks rest]
  have ih: "length sl' = length sl1" and ihj: "\<And>j. j < length sl1 \<Longrightarrow>
        (j < Suc n \<longrightarrow> sl' ! j = sl1 ! j) \<and>
        (Suc n \<le> j \<longrightarrow> keys ! j \<notin> set subkeys \<longrightarrow> sl' ! j = sl1 ! j) \<and>
        (Suc n \<le> j \<longrightarrow> keys ! j \<in> set subkeys \<longrightarrow>
           (\<exists>s v. sl1 ! j = YDict [(YStr (keys ! j), v)] \<and>
              sl' ! j = YDict [(YStr (keys ! j),
                 YDict [(YStr ''subtree'', s),
                        (YStr ''parentargs'', if v = YNone then YDict [] else v)])]))"
    by blast+
  show ?case
  proof (intro conjI allI impI)
    show "length sl' = length sl" using ih step1 by simp
  next
    fix j assume "j < length sl" "j < n"
    then show "sl' ! j = sl ! j" using ihj[of j] step1 by simp
  next
    fix j assume j: "j < length sl" "n \<le> j" "keys ! j \<notin> set subkeys"
    show "sl' ! j = sl ! j"
    proof (cases "j = n")
      case True
      then show ?thesis using ihj[of n] step1 j k by simp
    next
      case False
      then show ?thesis using ihj[of j] step1 j by simp
    qed
  next
    fix j assume j: "j < length sl" "n \<le> j" "keys ! j \<in> set subkeys"
    show "\<exists>s v. sl ! j = YDict [(YStr (keys ! j), v)] \<and>
              sl' ! j = YDict [(YStr (keys ! j),
                 YDict [(YStr ''subtree'', s),
                        (YStr ''parentargs'', if v = YNone then YDict [] else v)])]"
    proof (cases "j = n")
      case True
      then show ?thesis using ihj[of n] step1 j k v0 by auto
    next
      case False
      then have "sl1 ! j = sl ! j" "Suc n \<le> j" using step1 j by auto
      then show ?thesis using ihj[of j] step1 j by simp
    qed
  qed
qed

text \<open>
  C4. Let the resolver return on a document without backends whose step list
  \<open>steps\<close> has the keys \<open>keys\<close>. The resolved document has a step list of the same
  length; at every position whose key names a subworkflow the entry is the single-key
  mapping from that key to a mapping with exactly the two fields \<open>subtree\<close> and
  \<open>parentargs\<close>, the latter being the original value of the step (the empty mapping
  when that was \<open>None\<close>); at every other position the entry is the original entry.
\<close>

theorem read_ast_from_disk_shapes:
  assumes run: "read_ast_from_disk (Suc fuel) e (step_id, doc) = Some (Inr (step_id', doc'))"
    and wic: "py_get doc ''wic'' (YDict []) = Inr w"
    and no_backends: "py_in (YStr ''backends'') w = Inr False"
    and steps: "py_getitem doc ''steps'' = Inr (YList steps)"
    and keys: "get_steps_keys (YList steps) = Inr keys"
  shows "\<exists>steps'. py_getitem doc' ''steps'' = Inr (YList steps') \<and> length steps' = length steps \<and>
     (\<forall>j < length steps.
        (keys ! j \<in> set (get_subkeys keys (tools_stems e)) \<longrightarrow>
           (\<exists>s v. steps ! j = YDict [(YStr (keys ! j), v)] \<and>
              steps' ! j = YDict [(YStr (keys ! j),
                 YDict [(YStr ''subtree'', s),
                        (YStr ''parentargs'', if v = YNone then YDict [] else v)])])) \<and>
        (keys ! j \<notin> set (get_subkeys keys (tools_stems e)) \<longrightarrow> steps' ! j = steps ! j))"
proof -
  from run wic no_backends steps keys obtain wsteps body sl' where
    body: "body = (\<lambda>(i, step_key) steps_list.
     if step_key \<in> set (get_subkeys keys (tools_stems e))
     then cbind (Some (py_get wsteps (meta_step_key (i + 1) step_key) (YDict []))) (\<lambda>sub_wic.
          cbind (Some (py_get sub_wic ''wic'' (YDict []))) (\<lambda>sub_wic_wic.
          cbind (Some (py_get sub_wic_wic ''namespace'' (YStr ''global''))) (\<lambda>plugin_ns.
          cbind (Some (lookup_namespace e plugin_ns)) (\<lambda>paths_ns_i.
          cbind (Some (if paths_ns_i = [] then Inl (Exception (namespace_miss_msg e plugin_ns))
                       else if map_of paths_ns_i (path_stem step_key) = None
                       then ebind (attr_stem step_id) (\<lambda>st.
                              Inl (Exception (stem_miss_msg (path_stem step_key) plugin_ns (py_str st))))
                       else Inr ())) (\<lambda>doc_stem.
          cbind (Some (case map_of paths_ns_i (path_stem step_key) of
                         Some p \<Rightarrow> Inr p | None \<Rightarrow> Inl KeyError)) (\<lambda>yaml_path.
          cbind (Some (case disk e yaml_path of
                         Some raw \<Rightarrow>
                           if path_suffix yaml_path = ''.yml'' then Inr raw
                           else Inl (Exception (''Error! '' @ yaml_path @ '' does not exist or is not a .yml file.''))
                       | None \<Rightarrow> Inl (Exception (''Error! '' @ yaml_path @ '' does not exist or is not a .yml file.'')))) (\<lambda>sub_yaml_tree_raw.
          cbind (read_ast_from_disk fuel e (YStepId (YStr step_key) plugin_ns, sub_yaml_tree_raw)) (\<lambda>y_t.
          cbind (Some (step_value steps_list i step_key)) (\<lambda>step_val.
          Some (set_step_value steps_list i step_key
                  (YDict [(YStr ''subtree'', snd y_t),
                          (YStr ''parentargs'', if step_val = YNone then YDict [] else step_val)])))))))))))
     else Some (Inr steps_list))"
    and loop: "foldC body (enumerate_py keys) steps = Some (Inr sl')"
    and set: "py_setitem doc ''steps'' (YList sl') = Inr doc'"
    by (auto simp: cbind_Inr_iff split: if_splits)
  have tool: "\<forall>i k sl. k \<notin> set (get_subkeys keys (tools_stems e)) \<longrightarrow> body (i, k) sl = Some (Inr sl)"
    by (simp add: body)
  have sub0: "\<exists>s v. step_value sl i k = Inr v \<and>
          set_step_value sl i k (YDict [(YStr ''subtree'', s),
             (YStr ''parentargs'', if v = YNone then YDict [] else v)]) = Inr sl'"
    if "k \<in> set (get_subkeys keys (tools_stems e))" and "body (i, k) sl = Some (Inr sl')"
    for i k sl sl'
  proof -
    from that obtain s step_val where "step_value sl i k = Inr step_val"
      and "set_step_value sl i k (YDict [(YStr ''subtree'', s),
             (YStr ''parentargs'', if step_val = YNone then YDict [] else step_val)]) = Inr sl'"
      unfolding body by (simp add: cbind_Inr_iff del: if_split split del: if_split) blast
    then show ?thesis by blast
  qed
  have sub: "\<forall>i k sl sl'. k \<in> set (get_subkeys keys (tools_stems e)) \<longrightarrow>
        body (i, k) sl = Some (Inr sl') \<longrightarrow>
        (\<exists>s v. step_value sl i k = Inr v \<and>
          set_step_value sl i k (YDict [(YStr ''subtree'', s),
             (YStr ''parentargs'', if v = YNone then YDict [] else v)]) = Inr sl')"
    by (intro allI impI) (rule sub0)
  have keys': "mapE step_key_of steps = Inr keys" using keys by simp
  have len: "length keys = length steps" using mapE_length[OF keys'] .
  have en: "enumerate_py keys = zip (map int [0..<0 + length (drop 0 keys)]) (drop 0 keys)"
    by (simp add: enumerate_py_def)
  have loop': "foldC body (zip (map int [0..<0 + length (drop 0 keys)]) (drop 0 keys)) steps
      = Some (Inr sl')"
    using loop by (simp only: en)
  have res: "length sl' = length steps \<and>
     (\<forall>j < length steps.
        (j < 0 \<longrightarrow> sl' ! j = steps ! j) \<and>
        (0 \<le> j \<longrightarrow> keys ! j \<notin> set (get_subkeys keys (tools_stems e)) \<longrightarrow> sl' ! j = steps ! j) \<and>
        (0 \<le> j \<longrightarrow> keys ! j \<in> set (get_subkeys keys (tools_stems e)) \<longrightarrow>
           (\<exists>s v. steps ! j = YDict [(YStr (keys ! j), v)] \<and>
              sl' ! j = YDict [(YStr (keys ! j),
                 YDict [(YStr ''subtree'', s),
                        (YStr ''parentargs'', if v = YNone then YDict [] else v)])])))"
    by (rule resolve_loop[OF tool sub keys' refl loop'])
  from steps obtain d where doc: "doc = YDict d" using py_getitem_dict by blast
  from set doc have get: "py_getitem doc' ''steps'' = Inr (YList sl')"
    by (auto simp: update_conv')
  from res have len': "length sl' = length steps" by (rule conjunct1)
  from res have at: "\<forall>j < length steps.
        (j < 0 \<longrightarrow> sl' ! j = steps ! j) \<and>
        (0 \<le> j \<longrightarrow> keys ! j \<notin> set (get_subkeys keys (tools_stems e)) \<longrightarrow> sl' ! j = steps ! j) \<and>
        (0 \<le> j \<longrightarrow> keys ! j \<in> set (get_subkeys keys (tools_stems e)) \<longrightarrow>
           (\<exists>s v. steps ! j = YDict [(YStr (keys ! j), v)] \<and>
              sl' ! j = YDict [(YStr (keys ! j),
                 YDict [(YStr ''subtree'', s),
                        (YStr ''parentargs'', if v = YNone then YDict [] else v)])]))"
    by (rule conjunct2)
  have le: "0 \<le> j" for j :: nat by (rule le0)
  show ?thesis
  proof (intro exI[of _ sl'] conjI allI impI)
    show "py_getitem doc' ''steps'' = Inr (YList sl')" by (rule get)
  next
    show "length sl' = length steps" by (rule len')
  next
    fix j assume "j < length steps" "keys ! j \<in> set (get_subkeys keys (tools_stems e))"
    with at le[of j] show "\<exists>s v. steps ! j = YDict [(YStr (keys ! j), v)] \<and>
              sl' ! j = YDict [(YStr (keys ! j),
                 YDict [(YStr ''subtree'', s),
                        (YStr ''parentargs'', if v = YNone then YDict [] else v)])]"
      by blast
  next
    fix j assume "j < length steps" "keys ! j \<notin> set (get_subkeys keys (tools_stems e))"
    with at le[of j] show "sl' ! j = steps ! j" by blast
  qed
qed

theorem read_ast_from_disk_shapes_witness:
  "read_ast_from_disk (Suc 1) foo_catalog_env (root_id, two_step_doc)
     = Some (Inr (root_id, two_step_doc_resolved)) \<and>
   py_get two_step_doc ''wic'' (YDict []) = Inr (YDict []) \<and>
   py_in (YStr ''backends'') (YDict []) = Inr False \<and>
   py_getitem two_step_doc ''steps'' = Inr (YList [YDict [(YStr ''echo'', YNone)], YDict [(YStr ''foo'', YNone)]]) \<and>
   get_steps_keys (YList [YDict [(YStr ''echo'', YNone)], YDict [(YStr ''foo'', YNone)]]) = Inr [''echo'', ''foo''] \<and>
   get_subkeys [''echo'', ''foo''] (tools_stems foo_catalog_env) = [''foo''] \<and>
   (\<exists>steps'. py_getitem two_step_doc_resolved ''steps'' = Inr (YList steps') \<and> length steps' = 2 \<and>
      (\<exists>s. steps' ! 1 = YDict [(YStr ''foo'',
                 YDict [(YStr ''subtree'', s), (YStr ''parentargs'', YDict [])])]) \<and>
      steps' ! 0 = YDict [(YStr ''echo'', YNone)])"
proof -
  have run: "read_ast_from_disk (Suc 1) foo_catalog_env (root_id, two_step_doc)
     = Some (Inr (root_id, two_step_doc_resolved))" by code_simp
  have w: "py_get two_step_doc ''wic'' (YDict []) = Inr (YDict [])" by code_simp
  have nb: "py_in (YStr ''backends'') (YDict []) = Inr False" by simp
  have st: "py_getitem two_step_doc ''steps''
      = Inr (YList [YDict [(YStr ''echo'', YNone)], YDict [(YStr ''foo'', YNone)]])" by code_simp
  have ks: "get_steps_keys (YList [YDict [(YStr ''echo'', YNone)], YDict [(YStr ''foo'', YNone)]])
      = Inr [''echo'', ''foo'']" by code_simp
  have sk: "get_subkeys [''echo'', ''foo''] (tools_stems foo_catalog_env) = [''foo'']" by code_simp
  from read_ast_from_disk_shapes[OF run w nb st ks] obtain steps' where
    s1: "py_getitem two_step_doc_resolved ''steps'' = Inr (YList steps')" and s2: "length steps' = 2"
    and s3: "\<forall>j < 2.
        ([''echo'', ''foo''] ! j \<in> set [''foo''] \<longrightarrow>
           (\<exists>s v. [YDict [(YStr ''echo'', YNone)], YDict [(YStr ''foo'', YNone)]] ! j
                     = YDict [(YStr ([''echo'', ''foo''] ! j), v)] \<and>
              steps' ! j = YDict [(YStr ([''echo'', ''foo''] ! j),
                 YDict [(YStr ''subtree'', s),
                        (YStr ''parentargs'', if v = YNone then YDict [] else v)])])) \<and>
        ([''echo'', ''foo''] ! j \<notin> set [''foo''] \<longrightarrow>
           steps' ! j = [YDict [(YStr ''echo'', YNone)], YDict [(YStr ''foo'', YNone)]] ! j)"
    unfolding sk by auto
  from s3[rule_format, of 1] have a: "\<exists>s. steps' ! 1 = YDict [(YStr ''foo'',
                 YDict [(YStr ''subtree'', s), (YStr ''parentargs'', YDict [])])]"
    by auto
  from s3[rule_format, of 0] have b: "steps' ! 0 = YDict [(YStr ''echo'', YNone)]"
    by simp
  from run w nb st ks sk s1 s2 a b show ?thesis by blast
qed


section \<open>Inlining a subworkflow\<close>

lemma py_getitem_py_get: "py_getitem obj k = Inr v \<Longrightarrow> py_get obj k dflt = Inr v"
  by (cases obj) (auto split: option.splits)

lemma py_setitem_getitem_same: "py_setitem obj k v = Inr obj' \<Longrightarrow> py_getitem obj' k = Inr v"
  by (cases obj) (auto simp: update_conv')

lemma py_setitem_getitem_other:
  "py_setitem obj k v = Inr obj' \<Longrightarrow> k' \<noteq> k \<Longrightarrow> py_getitem obj' k' = py_getitem obj k'"
  by (cases obj) (auto simp: update_conv')

lemma dom_delete_alist: "fst ` set (AList.delete k al) = fst ` set al - {k}"
  by (auto simp: AList.delete_eq)

lemma delete_absent: "map_of al k = None \<Longrightarrow> AList.delete k al = al"
  by (induction al) (auto split: if_splits)

lemma merge_dict_step:
  assumes "merge_dict dst ((k, sv) # src) = Inr m" and "map_of dst k = Some dv"
  shows "merge_dict
           (AList.update k
              (case (dv, sv) of
                 (YDict a, YDict b) \<Rightarrow> (case merge_dict a b of Inr x \<Rightarrow> YDict x | Inl err \<Rightarrow> sv)
               | _ \<Rightarrow> sv) dst) src = Inr m"
proof (cases "\<exists>dd sd. dv = YDict dd \<and> sv = YDict sd")
  case True
  then obtain dd sd where "dv = YDict dd" "sv = YDict sd" by blast
  with assms show ?thesis by (auto split: sum.splits)
next
  case False
  with assms have "merge_dict (AList.update k sv dst) src = Inr m"
    by (cases dv; cases sv) (auto split: if_splits)
  moreover from False have "(case (dv, sv) of
                 (YDict a, YDict b) \<Rightarrow> (case merge_dict a b of Inr x \<Rightarrow> YDict x | Inl err \<Rightarrow> sv)
               | _ \<Rightarrow> sv) = sv"
    by (cases dv; cases sv) auto
  ultimately show ?thesis by simp
qed

lemma merge_dict_nested:
  assumes "merge_dict dst ((k, YDict b) # src) = Inr m" and "map_of dst k = Some (YDict a)"
  shows "\<exists>x. merge_dict a b = Inr x"
  using assms by (auto split: sum.splits)

lemma merge_dict_keys: "merge_dict d s = Inr m \<Longrightarrow> fst ` set m = fst ` set d \<union> fst ` set s"
proof (induction s arbitrary: d m)
  case Nil
  then show ?case by simp
next
  case (Cons a src)
  obtain k sv where a: "a = (k, sv)" by (cases a)
  show ?case
  proof (cases "map_of d k")
    case None
    with Cons.prems a have "merge_dict (d @ [(k, sv)]) src = Inr m" by simp
    from Cons.IH[OF this] a show ?thesis by auto
  next
    case (Some dv)
    then have kin: "k \<in> fst ` set d" by (metis map_of_eq_None_iff option.distinct(1))
    from Cons.IH[OF merge_dict_step[OF Cons.prems[unfolded a] Some]] kin a
    show ?thesis by (auto simp: dom_update)
  qed
qed

text \<open>
  The merged mapping as a function: a key of the source wins, except that two
  mappings under the same key are merged themselves.
\<close>

lemma merge_dict_map_of:
  "distinct (map fst s) \<Longrightarrow> merge_dict d s = Inr m \<Longrightarrow>
     map_of m k =
       (case map_of s k of
          None \<Rightarrow> map_of d k
        | Some sv \<Rightarrow>
            (case (map_of d k, sv) of
               (Some (YDict a), YDict b) \<Rightarrow>
                 (case merge_dict a b of Inr x \<Rightarrow> Some (YDict x) | Inl err \<Rightarrow> None)
             | _ \<Rightarrow> Some sv))"
proof (induction s arbitrary: d m)
  case Nil
  then show ?case by simp
next
  case (Cons p src)
  obtain k0 sv0 where p: "p = (k0, sv0)" by (cases p)
  from Cons.prems(1) p have dist: "distinct (map fst src)" and k0: "k0 \<notin> fst ` set src" by auto
  from k0 have none: "map_of src k0 = None" by (simp add: map_of_eq_None_iff)
  show ?case
  proof (cases "map_of d k0")
    case None
    with Cons.prems(2) p have run: "merge_dict (d @ [(k0, sv0)]) src = Inr m" by simp
    note ih = Cons.IH[OF dist run]
    show ?thesis
    proof (cases "k = k0")
      case True
      with ih none None p show ?thesis by (simp add: map_add_def)
    next
      case False
      then have e: "map_of (d @ [(k0, sv0)]) k = map_of d k"
        by (simp add: map_add_def split: option.splits)
      from ih p False show ?thesis unfolding e by simp
    qed
  next
    case (Some dv)
    define nv where "nv = (case (dv, sv0) of
                 (YDict a, YDict b) \<Rightarrow> (case merge_dict a b of Inr x \<Rightarrow> YDict x | Inl err \<Rightarrow> sv0)
               | _ \<Rightarrow> sv0)"
    from merge_dict_step[OF Cons.prems(2)[unfolded p] Some]
    have run: "merge_dict (AList.update k0 nv d) src = Inr m" by (simp add: nv_def)
    note ih = Cons.IH[OF dist run]
    show ?thesis
    proof (cases "k = k0")
      case True
      have "map_of m k0 = Some nv" using ih none True by (simp add: update_conv')
      moreover have "(case (Some dv, sv0) of
               (Some (YDict a), YDict b) \<Rightarrow>
                 (case merge_dict a b of Inr x \<Rightarrow> Some (YDict x) | Inl err \<Rightarrow> None)
             | _ \<Rightarrow> Some sv0) = Some nv"
      proof (cases "\<exists>a b. dv = YDict a \<and> sv0 = YDict b")
        case True
        then obtain a b where ab: "dv = YDict a" "sv0 = YDict b" by blast
        from merge_dict_nested[OF Cons.prems(2)[unfolded p ab(2)] Some[unfolded ab(1)]]
        obtain x where "merge_dict a b = Inr x" by blast
        with ab show ?thesis by (simp add: nv_def)
      next
        case False
        then show ?thesis by (cases dv; cases sv0) (auto simp: nv_def)
      qed
      ultimately show ?thesis using True Some p by simp
    next
      case False
      then have e: "map_of (AList.update k0 nv d) k = map_of d k" by (simp add: update_conv')
      from ih p False show ?thesis unfolding e by simp
    qed
  qed
qed

lemma merge_char:
  assumes "merge (YDict d) (YDict s) = Inr r" and "distinct (map fst s)"
  shows "\<exists>m. r = YDict m \<and> fst ` set m = fst ` set d \<union> fst ` set s \<and>
     (\<forall>k. map_of m k =
       (case map_of s k of
          None \<Rightarrow> map_of d k
        | Some sv \<Rightarrow>
            (case (map_of d k, sv) of
               (Some (YDict a), YDict b) \<Rightarrow>
                 (case merge_dict a b of Inr x \<Rightarrow> Some (YDict x) | Inl err \<Rightarrow> None)
             | _ \<Rightarrow> Some sv)))"
proof -
  from assms(1) obtain m where m: "merge_dict d s = Inr m" and r: "r = YDict m"
    by (auto split: sum.splits)
  from merge_dict_keys[OF m] merge_dict_map_of[OF assms(2) m] r show ?thesis by blast
qed

text \<open>
  The re-indexed mapping as a function: every entry is stored under its new key, and
  of two entries with the same new key the later one stays.
\<close>

lemma reindex_fold_char:
  assumes "foldE (\<lambda>(keyv, val) acc.
              (case keyv of
                 YStr keystr \<Rightarrow>
                   (case parse_meta_step_key keystr of
                      None \<Rightarrow> Inl ValueError
                    | Some (i, s) \<Rightarrow>
                        Inr (AList.update
                               (YStr (if index \<le> i then meta_step_key (i + num_steps) s else keystr))
                               val acc))
               | _ \<Rightarrow> Inl TypeError)) items acc = Inr acc'"
  shows "map_of acc' = map_of (rev (map (\<lambda>(k, v). (reindex_key index num_steps k, v)) items) @ acc) \<and>
         (distinct (map fst acc) \<longrightarrow> distinct (map fst acc')) \<and>
         fst ` set acc' = fst ` set acc \<union>
           {kv. \<exists>ks m s. YStr ks \<in> fst ` set items \<and> parse_meta_step_key ks = Some (m, s) \<and>
                  kv = YStr (if index \<le> m then meta_step_key (m + num_steps) s else ks)}"
  using assms
proof (induction items arbitrary: acc)
  case Nil
  then show ?case by simp
next
  case (Cons a items)
  obtain keyv val where a: "a = (keyv, val)" by (cases a)
  from Cons.prems a obtain ks m s where keyv: "keyv = YStr ks"
    and parse: "parse_meta_step_key ks = Some (m, s)"
    and rest: "foldE (\<lambda>(keyv, val) acc.
              (case keyv of
                 YStr keystr \<Rightarrow>
                   (case parse_meta_step_key keystr of
                      None \<Rightarrow> Inl ValueError
                    | Some (i, s) \<Rightarrow>
                        Inr (AList.update
                               (YStr (if index \<le> i then meta_step_key (i + num_steps) s else keystr))
                               val acc))
               | _ \<Rightarrow> Inl TypeError)) items
            (AList.update (YStr (if index \<le> m then meta_step_key (m + num_steps) s else ks)) val acc)
          = Inr acc'"
    by (auto simp: ebind_Inr_iff split: yaml.splits option.splits)
  let ?nk = "YStr (if index \<le> m then meta_step_key (m + num_steps) s else ks)"
  have nk: "reindex_key index num_steps keyv = ?nk"
    by (simp add: reindex_key_def keyv parse)
  note ih = Cons.IH[OF rest]
  have c1: "map_of acc' = map_of (rev (map (\<lambda>(k, v). (reindex_key index num_steps k, v)) (a # items)) @ acc)"
    using ih nk a by (simp add: update_conv')
  have c2: "distinct (map fst acc) \<longrightarrow> distinct (map fst acc')"
    using ih by (simp add: distinct_update)
  have "fst ` set acc' = fst ` set (AList.update ?nk val acc) \<union>
           {kv. \<exists>ks m s. YStr ks \<in> fst ` set items \<and> parse_meta_step_key ks = Some (m, s) \<and>
                  kv = YStr (if index \<le> m then meta_step_key (m + num_steps) s else ks)}"
    using ih by blast
  also have "\<dots> = fst ` set acc \<union>
           {kv. \<exists>ks m s. YStr ks \<in> fst ` set (a # items) \<and> parse_meta_step_key ks = Some (m, s) \<and>
                  kv = YStr (if index \<le> m then meta_step_key (m + num_steps) s else ks)}"
    unfolding dom_update using a keyv parse by auto
  finally have c3: "fst ` set acc' = fst ` set acc \<union>
           {kv. \<exists>ks m s. YStr ks \<in> fst ` set (a # items) \<and> parse_meta_step_key ks = Some (m, s) \<and>
                  kv = YStr (if index \<le> m then meta_step_key (m + num_steps) s else ks)}" .
  from c1 c2 c3 show ?case by blast
qed

lemma reindex_wic_steps_char:
  assumes "reindex_wic_steps (YDict d) index num_steps = Inr r"
  shows "\<exists>d'. r = YDict d' \<and> distinct (map fst d') \<and>
           map_of d' = map_of (rev (map (\<lambda>(k, v). (reindex_key index num_steps k, v)) d)) \<and>
           fst ` set d' =
           {kv. \<exists>ks m s. YStr ks \<in> fst ` set d \<and> parse_meta_step_key ks = Some (m, s) \<and>
                  kv = YStr (if index \<le> m then meta_step_key (m + num_steps) s else ks)}"
proof -
  from assms obtain d' where f: "foldE (\<lambda>(keyv, val) acc.
              (case keyv of
                 YStr keystr \<Rightarrow>
                   (case parse_meta_step_key keystr of
                      None \<Rightarrow> Inl ValueError
                    | Some (i, s) \<Rightarrow>
                        Inr (AList.update
                               (YStr (if index \<le> i then meta_step_key (i + num_steps) s else keystr))
                               val acc))
               | _ \<Rightarrow> Inl TypeError)) d [] = Inr d'" and r: "r = YDict d'"
    unfolding reindex_wic_steps_def by (auto simp: ebind_Inr_iff)
  from reindex_fold_char[OF f] r show ?thesis by simp
qed

lemma wic_tag_walk_single:
  assumes run: "wic_tag_walk parent [(i, k)] L = Inr parent'"
    and w: "py_get parent ''wic'' (YDict []) = Inr w"
    and pst: "py_get w ''steps'' (YDict []) = Inr (YDict pst)"
    and sub: "py_get (YDict pst) (meta_step_key (i + 1) k) (YDict []) = Inr sub_wic"
    and sw: "py_get sub_wic ''wic'' (YDict []) = Inr sw"
    and ss: "py_get sw ''steps'' (YDict []) = Inr (YDict ss)"
  shows "\<exists>w' sre pre merged.
     reindex_wic_steps (YDict ss) 1 i = Inr sre \<and>
     reindex_wic_steps (YDict (AList.delete (YStr (meta_step_key (i + 1) k)) pst)) (i + 1) (L - 1)
       = Inr pre \<and>
     merge sre pre = Inr merged \<and>
     py_getitem parent' ''wic'' = Inr w' \<and> py_getitem w' ''steps'' = Inr merged"
proof -
  let ?key = "meta_step_key (i + 1) k"
  from run w pst sub sw ss obtain sre present parent1 w3 st3 pre merged w4 where
    sre: "reindex_wic_steps (YDict ss) 1 i = Inr sre"
    and present: "py_in (YStr ?key) (YDict pst) = Inr present"
    and parent1: "(if present
             then ebind (py_getitem parent ''wic'') (\<lambda>w1.
                  ebind (py_getitem w1 ''steps'') (\<lambda>st1.
                  ebind (py_delitem st1 ?key) (\<lambda>st2.
                  ebind (py_setitem w1 ''steps'' st2) (\<lambda>w2.
                  py_setitem parent ''wic'' w2))))
             else Inr parent) = Inr parent1"
    and w3: "py_getitem parent1 ''wic'' = Inr w3"
    and st3: "py_getitem w3 ''steps'' = Inr st3"
    and pre: "reindex_wic_steps st3 (i + 1) (L - 1) = Inr pre"
    and merged: "merge sre pre = Inr merged"
    and w4: "py_setitem w3 ''steps'' merged = Inr w4"
    and p': "py_setitem parent1 ''wic'' w4 = Inr parent'"
    unfolding wic_tag_walk.simps Let_def
    by (simp add: ebind_Inr_iff del: if_split split del: if_split) blast
  have st3_eq: "st3 = YDict (AList.delete (YStr ?key) pst)"
  proof (cases present)
    case True
    with parent1 obtain w1 st1 st2 w2 where
      w1: "py_getitem parent ''wic'' = Inr w1" and st1: "py_getitem w1 ''steps'' = Inr st1"
      and st2: "py_delitem st1 ?key = Inr st2" and w2: "py_setitem w1 ''steps'' st2 = Inr w2"
      and p1: "py_setitem parent ''wic'' w2 = Inr parent1"
      by (auto simp: ebind_Inr_iff)
    from py_getitem_py_get[OF w1, of "YDict []"] w have "w1 = w" by simp
    with py_getitem_py_get[OF st1, of "YDict []"] pst have "st1 = YDict pst" by simp
    with st2 have st2': "st2 = YDict (AList.delete (YStr ?key) pst)" by (auto split: if_splits)
    from py_setitem_getitem_same[OF p1] w3 have "w3 = w2" by simp
    with py_setitem_getitem_same[OF w2] st3 have "st3 = st2" by simp
    with st2' show ?thesis by simp
  next
    case False
    with parent1 have "parent1 = parent" by simp
    with py_getitem_py_get[OF w3, of "YDict []"] w have "w3 = w" by simp
    with py_getitem_py_get[OF st3, of "YDict []"] pst have "st3 = YDict pst" by simp
    moreover from present False have "map_of pst (YStr ?key) = None" by simp
    ultimately show ?thesis by (simp add: delete_absent)
  qed
  have g1: "py_getitem parent' ''wic'' = Inr w4" by (rule py_setitem_getitem_same[OF p'])
  have g2: "py_getitem w4 ''steps'' = Inr merged" by (rule py_setitem_getitem_same[OF w4])
  from sre pre[unfolded st3_eq] merged g1 g2 show ?thesis by blast
qed

lemma apply_args_steps:
  assumes run: "apply_args sub_yml_tree sub_parentargs = Inr body'"
  shows "\<exists>sub_steps body_steps keys.
           py_getitem sub_yml_tree ''steps'' = Inr (YList sub_steps) \<and>
           py_getitem body' ''steps'' = Inr (YList body_steps) \<and>
           mapE step_key_of sub_steps = Inr keys \<and> mapE step_key_of body_steps = Inr keys"
proof -
  from run obtain iw hi tree1 steps keys pin args sl where
        has: "py_in (YStr ''inputs'') sub_yml_tree = Inr hi"
    and del: "(if hi then py_delitem sub_yml_tree ''inputs'' else Inr sub_yml_tree) = Inr tree1"
    and st: "py_getitem tree1 ''steps'' = Inr steps"
    and ks: "get_steps_keys steps = Inr keys"
    and loop: "foldE (\<lambda>(argkey, argval) steps_list.
                ebind (py_in argkey iw) (\<lambda>declared.
                  if \<not> declared
                  then Inl (Exception (''Error while inlineing '' @ (case argkey of YStr a \<Rightarrow> a | _ \<Rightarrow> [])))
                  else foldE (apply_arg_to_step argkey argval) (enumerate_py keys) steps_list))
              args (case steps of YList xs \<Rightarrow> xs | _ \<Rightarrow> []) = Inr sl"
    and set: "py_setitem tree1 ''steps'' (YList sl) = Inr body'"
    unfolding apply_args_def by (auto simp: ebind_Inr_iff)
  from get_steps_keys_list[OF ks] obtain xs where steps: "steps = YList xs" by blast
  from ks steps have keys_xs: "mapE step_key_of xs = Inr keys" by simp
  from loop steps have loop': "foldE (\<lambda>(argkey, argval) steps_list.
                ebind (py_in argkey iw) (\<lambda>declared.
                  if \<not> declared
                  then Inl (Exception (''Error while inlineing '' @ (case argkey of YStr a \<Rightarrow> a | _ \<Rightarrow> [])))
                  else foldE (apply_arg_to_step argkey argval) (enumerate_py keys) steps_list))
              args xs = Inr sl" by simp
  have keys_sl: "mapE step_key_of sl = Inr keys"
    by (rule apply_args_steps_keys[OF keys_xs loop'])
  have "py_getitem sub_yml_tree ''steps'' = Inr (YList xs)"
  proof (cases hi)
    case True
    with del obtain d where "sub_yml_tree = YDict d" "tree1 = YDict (AList.delete (YStr ''inputs'') d)"
      by (cases sub_yml_tree) (auto split: if_splits)
    with st steps show ?thesis by (simp add: delete_conv')
  next
    case False
    with del st steps show ?thesis by simp
  qed
  moreover have "py_getitem body' ''steps'' = Inr (YList sl)"
    by (rule py_setitem_getitem_same[OF set])
  ultimately show ?thesis using keys_xs keys_sl by blast
qed

lemma splice_substeps_steps:
  assumes run: "splice_substeps yaml_tree wic_wic steps_list (int i) k sub_yml_tree sub_parentargs
                  = Inr (yaml_tree1, wic_wic2, L)"
    and i: "i < length steps_list"
  shows "\<exists>body' body_steps.
           apply_args sub_yml_tree sub_parentargs = Inr body' \<and>
           py_getitem body' ''steps'' = Inr (YList body_steps) \<and>
           py_getitem yaml_tree1 ''steps''
             = Inr (YList (take i steps_list @ body_steps @ drop (Suc i) steps_list)) \<and>
           L = int (length body_steps)"
proof -
  from run obtain body' sub_steps front new_steps where
    app: "apply_args sub_yml_tree sub_parentargs = Inr body'"
    and ss: "py_getitem body' ''steps'' = Inr sub_steps"
    and front: "py_concat (YList (slice_to steps_list (int i))) sub_steps = Inr front"
    and new: "py_concat front (YList (slice_from steps_list (int i + 1))) = Inr new_steps"
    and set: "py_setitem yaml_tree ''steps'' new_steps = Inr yaml_tree1"
    and len: "py_len sub_steps = Inr L"
    unfolding splice_substeps_def
    by (simp add: ebind_Inr_iff del: if_split split del: if_split) blast
  from front obtain body_steps where sub_steps: "sub_steps = YList body_steps"
    and front': "front = YList (slice_to steps_list (int i) @ body_steps)"
    by (cases sub_steps) auto
  have a: "slice_to steps_list (int i) = take i steps_list"
    by (simp add: slice_to_def norm_index_def)
  have b: "slice_from steps_list (int i + 1) = drop (Suc i) steps_list"
    by (simp add: slice_from_def norm_index_def nat_add_distrib)
  from new front' a b have "new_steps = YList (take i steps_list @ body_steps @ drop (Suc i) steps_list)"
    by auto
  with py_setitem_getitem_same[OF set] len sub_steps app ss show ?thesis by auto
qed

text \<open>
  C1 (counterexample). The subworkflow \<open>S\<close> is step 2 (\<open>i = 1\<close>) and contributes two
  steps. The parent's meta also holds the key \<open>(2, other)\<close>: its index is \<open>i + 1\<close>,
  not greater, and it is renamed to \<open>(3, other)\<close> all the same.
\<close>

theorem reindex_at_replaced_index_counterexample:
  "parse_step_name_str ''root__step-2_S'' = Inr (''root'', 1, ''S'') \<and>
   parse_meta_step_key ''(2, other)'' = Some (2, ''other'') \<and>
   inline_subworkflow_wic_tag scenario2_meta_other [''root__step-2_S''] 2
     = Inr (YDict [(YStr ''steps'',
                    YDict [(YStr ''(3, other)'', YDict [(YStr ''wic'', YDict [(YStr ''label'', YStr ''o'')])]),
                           (YStr ''(4, B)'', YDict [(YStr ''wic'', YDict [(YStr ''label'', YStr ''b'')])])])])"
  by code_simp

text \<open>
  C1 (amended). Let the namespace \<open>ns\<close> parse to the 0-based position \<open>i\<close> and the
  step key \<open>k\<close>.

  If \<open>inline_subworkflow\<close> returns on a document without backends and the one-element
  path \<open>[ns]\<close>, then step \<open>i\<close> holds a \<open>subtree\<close> and \<open>parentargs\<close>, the body is
  \<open>apply_args(subtree, parentargs)\<close>, its step list has as many steps as the
  subtree's, the new step list is \<open>steps[:i] + body steps + steps[i+1:]\<close>, the
  returned arity \<open>L\<close> is the number of steps of the body, the new step count is the
  old one plus \<open>L - 1\<close>, and the new \<open>wic\<close> is the result of
  \<open>inline_subworkflow_wic_tag\<close> for the arity \<open>L\<close>.

  If \<open>inline_subworkflow_wic_tag\<close> returns, the new \<open>wic: steps:\<close> mapping is the
  merge of \<open>S\<close>, the subworkflow's own mapping re-indexed from 1 by \<open>i\<close>, with \<open>P\<close>,
  the parent's mapping without the entry \<open>(i + 1, k)\<close> re-indexed from \<open>i + 1\<close> by
  \<open>L - 1\<close>. Both hold every entry under its new key (the later one of two entries
  with the same new key); an entry of \<open>P\<close> replaces the entry of \<open>S\<close> with the same
  key, two mappings being merged. So the keys are exactly the subworkflow's keys
  \<open>(j, kj)\<close> moved to \<open>(j + i, kj)\<close> and the parent's keys \<open>(m, km)\<close> other than
  \<open>(i + 1, k)\<close>, moved to \<open>(m + L - 1, km)\<close> when \<open>m \<ge> i + 1\<close> and kept otherwise.
\<close>

theorem inline_subworkflow_step_count_and_meta_keys:
  assumes parse: "parse_step_name_str ns = Inr (stem, int i, k)"
  shows "(inline_subworkflow extract_backend (step_id, doc) [ns] = Inr ((step_id', doc'), L) \<longrightarrow>
          py_get doc ''wic'' (YDict []) = Inr w \<longrightarrow>
          py_in (YStr ''backends'') w = Inr False \<longrightarrow>
          py_getitem doc ''steps'' = Inr (YList steps) \<longrightarrow>
          (\<exists>step_val sub_yml_tree sub_parentargs body' sub_steps body_steps wic_wic' tag.
              step_value steps (int i) k = Inr step_val \<and>
              py_getitem step_val ''subtree'' = Inr sub_yml_tree \<and>
              py_getitem step_val ''parentargs'' = Inr sub_parentargs \<and>
              apply_args sub_yml_tree sub_parentargs = Inr body' \<and>
              py_getitem sub_yml_tree ''steps'' = Inr (YList sub_steps) \<and>
              py_getitem body' ''steps'' = Inr (YList body_steps) \<and>
              length body_steps = length sub_steps \<and>
              py_getitem doc' ''steps''
                = Inr (YList (take i steps @ body_steps @ drop (Suc i) steps)) \<and>
              L = int (length body_steps) \<and>
              int (length (take i steps @ body_steps @ drop (Suc i) steps)) = int (length steps) + L - 1 \<and>
              inline_subworkflow_wic_tag (YDict [(YStr ''wic'', wic_wic')]) [ns] L = Inr tag \<and>
              py_getitem doc' ''wic'' = Inr tag))
       \<and> (inline_subworkflow_wic_tag wic_tag [ns] len_substeps = Inr tag' \<longrightarrow>
          py_getitem wic_tag ''wic'' = Inr pw \<longrightarrow>
          py_get pw ''steps'' (YDict []) = Inr (YDict pst) \<longrightarrow>
          py_get (YDict pst) (meta_step_key (int i + 1) k) (YDict []) = Inr sub_wic \<longrightarrow>
          py_get sub_wic ''wic'' (YDict []) = Inr sw \<longrightarrow>
          py_get sw ''steps'' (YDict []) = Inr (YDict ss) \<longrightarrow>
          (\<exists>S P pst'.
             reindex_wic_steps (YDict ss) 1 (int i) = Inr (YDict S) \<and>
             reindex_wic_steps (YDict (AList.delete (YStr (meta_step_key (int i + 1) k)) pst))
                 (int i + 1) (len_substeps - 1) = Inr (YDict P) \<and>
             merge (YDict S) (YDict P) = Inr (YDict pst') \<and>
             py_getitem tag' ''steps'' = Inr (YDict pst') \<and>
             map_of S = map_of (rev (map (\<lambda>(key, v). (reindex_key 1 (int i) key, v)) ss)) \<and>
             map_of P = map_of (rev (map (\<lambda>(key, v). (reindex_key (int i + 1) (len_substeps - 1) key, v))
                                      (AList.delete (YStr (meta_step_key (int i + 1) k)) pst))) \<and>
             (\<forall>key. map_of pst' key =
                (case map_of P key of
                   None \<Rightarrow> map_of S key
                 | Some pv \<Rightarrow>
                     (case (map_of S key, pv) of
                        (Some (YDict a), YDict b) \<Rightarrow>
                          (case merge_dict a b of Inr x \<Rightarrow> Some (YDict x) | Inl err \<Rightarrow> None)
                      | _ \<Rightarrow> Some pv))) \<and>
             (\<forall>kv. kv \<in> fst ` set pst' \<longleftrightarrow>
                (\<exists>ks j kj. YStr ks \<in> fst ` set ss \<and> parse_meta_step_key ks = Some (j, kj) \<and>
                     kv = YStr (if 1 \<le> j then meta_step_key (j + int i) kj else ks)) \<or>
                (\<exists>ks m km. YStr ks \<in> fst ` set pst \<and> ks \<noteq> meta_step_key (int i + 1) k \<and>
                     parse_meta_step_key ks = Some (m, km) \<and>
                     kv = YStr (if int i + 1 \<le> m then meta_step_key (m + (len_substeps - 1)) km
                                else ks)))))"
proof (intro conjI impI)
  assume run: "inline_subworkflow extract_backend (step_id, doc) [ns] = Inr ((step_id', doc'), L)"
    and wic: "py_get doc ''wic'' (YDict []) = Inr w"
    and nb: "py_in (YStr ''backends'') w = Inr False"
    and steps: "py_getitem doc ''steps'' = Inr (YList steps)"
  from run wic nb steps parse obtain step_val sub_yml_tree sub_parentargs yaml_tree1 wic_wic' tag where
    sv: "step_value steps (int i) k = Inr step_val"
    and st: "py_getitem step_val ''subtree'' = Inr sub_yml_tree"
    and pa: "py_getitem step_val ''parentargs'' = Inr sub_parentargs"
    and sp: "splice_substeps doc w steps (int i) k sub_yml_tree sub_parentargs
               = Inr (yaml_tree1, wic_wic', L)"
    and tg: "inline_subworkflow_wic_tag (YDict [(YStr ''wic'', wic_wic')]) [ns] L = Inr tag"
    and set: "py_setitem yaml_tree1 ''wic'' tag = Inr doc'"
    by (subst (asm) inline_subworkflow.simps)
       (auto simp: ebind_Inr_iff simp del: inline_subworkflow.simps split: if_splits)
  from sv obtain x where "list_index steps (int i) = Inr x"
    by (auto simp: step_value_def ebind_Inr_iff)
  from list_index_nth[OF this] have i: "i < length steps" by (simp add: norm_index_def)
  from splice_substeps_steps[OF sp i] obtain body' body_steps where
    app: "apply_args sub_yml_tree sub_parentargs = Inr body'"
    and bs: "py_getitem body' ''steps'' = Inr (YList body_steps)"
    and g: "py_getitem yaml_tree1 ''steps'' = Inr (YList (take i steps @ body_steps @ drop (Suc i) steps))"
    and L: "L = int (length body_steps)" by blast
  from apply_args_steps[OF app] bs obtain sub_steps keys where
    ss: "py_getitem sub_yml_tree ''steps'' = Inr (YList sub_steps)"
    and k1: "mapE step_key_of sub_steps = Inr keys" and k2: "mapE step_key_of body_steps = Inr keys"
    by auto
  from mapE_length[OF k1] mapE_length[OF k2] have len: "length body_steps = length sub_steps" by simp
  have "py_getitem doc' ''steps'' = py_getitem yaml_tree1 ''steps''"
    by (rule py_setitem_getitem_other[OF set]) simp
  with g have g': "py_getitem doc' ''steps'' = Inr (YList (take i steps @ body_steps @ drop (Suc i) steps))"
    by simp
  have count: "int (length (take i steps @ body_steps @ drop (Suc i) steps)) = int (length steps) + L - 1"
    using i L by simp
  have gw: "py_getitem doc' ''wic'' = Inr tag" by (rule py_setitem_getitem_same[OF set])
  from sv st pa app ss bs len g' L count tg gw
  show "\<exists>step_val sub_yml_tree sub_parentargs body' sub_steps body_steps wic_wic' tag.
              step_value steps (int i) k = Inr step_val \<and>
              py_getitem step_val ''subtree'' = Inr sub_yml_tree \<and>
              py_getitem step_val ''parentargs'' = Inr sub_parentargs \<and>
              apply_args sub_yml_tree sub_parentargs = Inr body' \<and>
              py_getitem sub_yml_tree ''steps'' = Inr (YList sub_steps) \<and>
              py_getitem body' ''steps'' = Inr (YList body_steps) \<and>
              length body_steps = length sub_steps \<and>
              py_getitem doc' ''steps''
                = Inr (YList (take i steps @ body_steps @ drop (Suc i) steps)) \<and>
              L = int (length body_steps) \<and>
              int (length (take i steps @ body_steps @ drop (Suc i) steps)) = int (length steps) + L - 1 \<and>
              inline_subworkflow_wic_tag (YDict [(YStr ''wic'', wic_wic')]) [ns] L = Inr tag \<and>
              py_getitem doc' ''wic'' = Inr tag"
    by blast
next
  let ?key = "meta_step_key (int i + 1) k"
  assume run: "inline_subworkflow_wic_tag wic_tag [ns] len_substeps = Inr tag'"
    and pw: "py_getitem wic_tag ''wic'' = Inr pw"
    and pst: "py_get pw ''steps'' (YDict []) = Inr (YDict pst)"
    and sub: "py_get (YDict pst) ?key (YDict []) = Inr sub_wic"
    and sw: "py_get sub_wic ''wic'' (YDict []) = Inr sw"
    and ss: "py_get sw ''steps'' (YDict []) = Inr (YDict ss)"
  from run parse obtain wic_tag' where
    walk: "wic_tag_walk wic_tag [(int i, k)] len_substeps = Inr wic_tag'"
    and out: "py_getitem wic_tag' ''wic'' = Inr tag'"
    unfolding inline_subworkflow_wic_tag_def by (auto simp: ebind_Inr_iff)
  from wic_tag_walk_single[OF walk py_getitem_py_get[OF pw] pst sub sw ss] out
  obtain sre pre merged where
    sre: "reindex_wic_steps (YDict ss) 1 (int i) = Inr sre"
    and pre: "reindex_wic_steps (YDict (AList.delete (YStr ?key) pst)) (int i + 1) (len_substeps - 1)
       = Inr pre"
    and merged: "merge sre pre = Inr merged"
    and g: "py_getitem tag' ''steps'' = Inr merged"
    by auto
  from reindex_wic_steps_char[OF sre] obtain S where S: "sre = YDict S"
    and S_map: "map_of S = map_of (rev (map (\<lambda>(key, v). (reindex_key 1 (int i) key, v)) ss))"
    and S_keys: "fst ` set S =
           {kv. \<exists>ks m s. YStr ks \<in> fst ` set ss \<and> parse_meta_step_key ks = Some (m, s) \<and>
                  kv = YStr (if 1 \<le> m then meta_step_key (m + int i) s else ks)}"
    by blast
  from reindex_wic_steps_char[OF pre] obtain P where P: "pre = YDict P"
    and P_dist: "distinct (map fst P)"
    and P_map: "map_of P = map_of (rev (map (\<lambda>(key, v). (reindex_key (int i + 1) (len_substeps - 1) key, v))
                                      (AList.delete (YStr ?key) pst)))"
    and P_keys: "fst ` set P =
           {kv. \<exists>ks m s. YStr ks \<in> fst ` set (AList.delete (YStr ?key) pst) \<and>
                  parse_meta_step_key ks = Some (m, s) \<and>
                  kv = YStr (if int i + 1 \<le> m then meta_step_key (m + (len_substeps - 1)) s else ks)}"
    by blast
  from merge_char[OF merged[unfolded S P] P_dist] obtain pst' where m: "merged = YDict pst'"
    and m_keys: "fst ` set pst' = fst ` set S \<union> fst ` set P"
    and m_map: "\<forall>key. map_of pst' key =
                (case map_of P key of
                   None \<Rightarrow> map_of S key
                 | Some pv \<Rightarrow>
                     (case (map_of S key, pv) of
                        (Some (YDict a), YDict b) \<Rightarrow>
                          (case merge_dict a b of Inr x \<Rightarrow> Some (YDict x) | Inl err \<Rightarrow> None)
                      | _ \<Rightarrow> Some pv))"
    by blast
  have del: "YStr ks \<in> fst ` set (AList.delete (YStr ?key) pst)
      \<longleftrightarrow> YStr ks \<in> fst ` set pst \<and> ks \<noteq> ?key" for ks
    by (auto simp: dom_delete_alist)
  have keys: "\<forall>kv. kv \<in> fst ` set pst' \<longleftrightarrow>
                (\<exists>ks j kj. YStr ks \<in> fst ` set ss \<and> parse_meta_step_key ks = Some (j, kj) \<and>
                     kv = YStr (if 1 \<le> j then meta_step_key (j + int i) kj else ks)) \<or>
                (\<exists>ks m km. YStr ks \<in> fst ` set pst \<and> ks \<noteq> ?key \<and>
                     parse_meta_step_key ks = Some (m, km) \<and>
                     kv = YStr (if int i + 1 \<le> m then meta_step_key (m + (len_substeps - 1)) km
                                else ks))"
    unfolding m_keys S_keys P_keys del by blast
  from sre[unfolded S] pre[unfolded P] merged[unfolded S P m] g[unfolded m] S_map P_map m_map keys
  show "\<exists>S P pst'.
             reindex_wic_steps (YDict ss) 1 (int i) = Inr (YDict S) \<and>
             reindex_wic_steps (YDict (AList.delete (YStr ?key) pst))
                 (int i + 1) (len_substeps - 1) = Inr (YDict P) \<and>
             merge (YDict S) (YDict P) = Inr (YDict pst') \<and>
             py_getitem tag' ''steps'' = Inr (YDict pst') \<and>
             map_of S = map_of (rev (map (\<lambda>(key, v). (reindex_key 1 (int i) key, v)) ss)) \<and>
             map_of P = map_of (rev (map (\<lambda>(key, v). (reindex_key (int i + 1) (len_substeps - 1) key, v))
                                      (AList.delete (YStr ?key) pst))) \<and>
             (\<forall>key. map_of pst' key =
                (case map_of P key of
                   None \<Rightarrow> map_of S key
                 | Some pv \<Rightarrow>
                     (case (map_of S key, pv) of
                        (Some (YDict a), YDict b) \<Rightarrow>
                          (case merge_dict a b of Inr x \<Rightarrow> Some (YDict x) | Inl err \<Rightarrow> None)
                      | _ \<Rightarrow> Some pv))) \<and>
             (\<forall>kv. kv \<in> fst ` set pst' \<longleftrightarrow>
                (\<exists>ks j kj. YStr ks \<in> fst ` set ss \<and> parse_meta_step_key ks = Some (j, kj) \<and>
                     kv = YStr (if 1 \<le> j then meta_step_key (j + int i) kj else ks)) \<or>
                (\<exists>ks m km. YStr ks \<in> fst ` set pst \<and> ks \<noteq> ?key \<and>
                     parse_meta_step_key ks = Some (m, km) \<and>
                     kv = YStr (if int i + 1 \<le> m then meta_step_key (m + (len_substeps - 1)) km
                                else ks)))"
    by blast
qed

theorem inline_subworkflow_step_count_and_meta_keys_witness:
  "parse_step_name_str ''root__step-2_S'' = Inr (''root'', int 1, ''S'') \<and>
   inline_subworkflow no_backend (root_id, scenario2_doc) [''root__step-2_S'']
     = Inr ((root_id, scenario2_inlined), 2) \<and>
   py_get scenario2_doc ''wic'' (YDict []) = Inr scenario2_wic \<and>
   py_in (YStr ''backends'') scenario2_wic = Inr False \<and>
   py_getitem scenario2_doc ''steps'' = Inr (YList scenario2_steps) \<and>
   (\<exists>step_val sub_yml_tree sub_parentargs body' sub_steps body_steps wic_wic' tag.
       step_value scenario2_steps (int 1) ''S'' = Inr step_val \<and>
       py_getitem step_val ''subtree'' = Inr sub_yml_tree \<and>
       py_getitem step_val ''parentargs'' = Inr sub_parentargs \<and>
       apply_args sub_yml_tree sub_parentargs = Inr body' \<and>
       py_getitem sub_yml_tree ''steps'' = Inr (YList sub_steps) \<and>
       py_getitem body' ''steps'' = Inr (YList body_steps) \<and>
       length body_steps = length sub_steps \<and>
       py_getitem scenario2_inlined ''steps''
         = Inr (YList (take 1 scenario2_steps @ body_steps @ drop (Suc 1) scenario2_steps)) \<and>
       2 = int (length body_steps) \<and>
       int (length (take 1 scenario2_steps @ body_steps @ drop (Suc 1) scenario2_steps))
         = int (length scenario2_steps) + 2 - 1 \<and>
       inline_subworkflow_wic_tag (YDict [(YStr ''wic'', wic_wic')]) [''root__step-2_S''] 2 = Inr tag \<and>
       py_getitem scenario2_inlined ''wic'' = Inr tag) \<and>
   inline_subworkflow_wic_tag (YDict [(YStr ''wic'', scenario2_wic)]) [''root__step-2_S''] 2
     = Inr scenario2_inlined_wic \<and>
   py_getitem (YDict [(YStr ''wic'', scenario2_wic)]) ''wic'' = Inr scenario2_wic \<and>
   py_get scenario2_wic ''steps'' (YDict []) = Inr (YDict scenario2_meta) \<and>
   py_get (YDict scenario2_meta) (meta_step_key (int 1 + 1) ''S'') (YDict [])
     = Inr (YDict [(YStr ''wic'', YDict [(YStr ''steps'', YDict scenario2_sub_meta)])]) \<and>
   py_get (YDict [(YStr ''wic'', YDict [(YStr ''steps'', YDict scenario2_sub_meta)])]) ''wic'' (YDict [])
     = Inr (YDict [(YStr ''steps'', YDict scenario2_sub_meta)]) \<and>
   py_get (YDict [(YStr ''steps'', YDict scenario2_sub_meta)]) ''steps'' (YDict [])
     = Inr (YDict scenario2_sub_meta) \<and>
   (\<exists>pst'. py_getitem scenario2_inlined_wic ''steps'' = Inr (YDict pst') \<and>
       map_of pst' (YStr ''(3, D)'') = Some (YDict [(YStr ''wic'', YDict [(YStr ''label'', YStr ''d'')])]) \<and>
       map_of pst' (YStr ''(4, B)'') = Some (YDict [(YStr ''wic'', YDict [(YStr ''label'', YStr ''b'')])]) \<and>
       YStr ''(4, B)'' \<in> fst ` set pst')"
proof -
  have h0: "parse_step_name_str ''root__step-2_S'' = Inr (''root'', int 1, ''S'')" by code_simp
  have h1: "inline_subworkflow no_backend (root_id, scenario2_doc) [''root__step-2_S'']
     = Inr ((root_id, scenario2_inlined), 2)" by code_simp
  have h2: "py_get scenario2_doc ''wic'' (YDict []) = Inr scenario2_wic" by code_simp
  have h3: "py_in (YStr ''backends'') scenario2_wic = Inr False" by code_simp
  have h4: "py_getitem scenario2_doc ''steps'' = Inr (YList scenario2_steps)" by code_simp
  have t1: "inline_subworkflow_wic_tag (YDict [(YStr ''wic'', scenario2_wic)]) [''root__step-2_S''] 2
     = Inr scenario2_inlined_wic" by code_simp
  have t2: "py_getitem (YDict [(YStr ''wic'', scenario2_wic)]) ''wic'' = Inr scenario2_wic" by simp
  have t3: "py_get scenario2_wic ''steps'' (YDict []) = Inr (YDict scenario2_meta)" by code_simp
  have t4: "py_get (YDict scenario2_meta) (meta_step_key (int 1 + 1) ''S'') (YDict [])
     = Inr (YDict [(YStr ''wic'', YDict [(YStr ''steps'', YDict scenario2_sub_meta)])])" by code_simp
  have t5: "py_get (YDict [(YStr ''wic'', YDict [(YStr ''steps'', YDict scenario2_sub_meta)])]) ''wic'' (YDict [])
     = Inr (YDict [(YStr ''steps'', YDict scenario2_sub_meta)])" by simp
  have t6: "py_get (YDict [(YStr ''steps'', YDict scenario2_sub_meta)]) ''steps'' (YDict [])
     = Inr (YDict scenario2_sub_meta)" by simp
  note both = inline_subworkflow_step_count_and_meta_keys[OF h0,
      where extract_backend = no_backend and step_id = root_id and doc = scenario2_doc
        and step_id' = root_id and doc' = scenario2_inlined and L = 2 and w = scenario2_wic
        and steps = scenario2_steps and wic_tag = "YDict [(YStr ''wic'', scenario2_wic)]"
        and len_substeps = 2 and tag' = scenario2_inlined_wic and pw = scenario2_wic
        and pst = scenario2_meta
        and sub_wic = "YDict [(YStr ''wic'', YDict [(YStr ''steps'', YDict scenario2_sub_meta)])]"
        and sw = "YDict [(YStr ''steps'', YDict scenario2_sub_meta)]" and ss = scenario2_sub_meta]
  from both h1 h2 h3 h4 have c1: "\<exists>step_val sub_yml_tree sub_parentargs body' sub_steps body_steps wic_wic' tag.
       step_value scenario2_steps (int 1) ''S'' = Inr step_val \<and>
       py_getitem step_val ''subtree'' = Inr sub_yml_tree \<and>
       py_getitem step_val ''parentargs'' = Inr sub_parentargs \<and>
       apply_args sub_yml_tree sub_parentargs = Inr body' \<and>
       py_getitem sub_yml_tree ''steps'' = Inr (YList sub_steps) \<and>
       py_getitem body' ''steps'' = Inr (YList body_steps) \<and>
       length body_steps = length sub_steps \<and>
       py_getitem scenario2_inlined ''steps''
         = Inr (YList (take 1 scenario2_steps @ body_steps @ drop (Suc 1) scenario2_steps)) \<and>
       2 = int (length body_steps) \<and>
       int (length (take 1 scenario2_steps @ body_steps @ drop (Suc 1) scenario2_steps))
         = int (length scenario2_steps) + 2 - 1 \<and>
       inline_subworkflow_wic_tag (YDict [(YStr ''wic'', wic_wic')]) [''root__step-2_S''] 2 = Inr tag \<and>
       py_getitem scenario2_inlined ''wic'' = Inr tag"
    by blast
  from both t1 t2 t3 t4 t5 t6 obtain S P pst' where
    g: "py_getitem scenario2_inlined_wic ''steps'' = Inr (YDict pst')"
    and S_map: "map_of S = map_of (rev (map (\<lambda>(key, v). (reindex_key 1 (int 1) key, v)) scenario2_sub_meta))"
    and P_map: "map_of P = map_of (rev (map (\<lambda>(key, v). (reindex_key (int 1 + 1) (2 - 1) key, v))
                                      (AList.delete (YStr (meta_step_key (int 1 + 1) ''S'')) scenario2_meta)))"
    and m_map: "\<forall>key. map_of pst' key =
                (case map_of P key of
                   None \<Rightarrow> map_of S key
                 | Some pv \<Rightarrow>
                     (case (map_of S key, pv) of
                        (Some (YDict a), YDict b) \<Rightarrow>
                          (case merge_dict a b of Inr x \<Rightarrow> Some (YDict x) | Inl err \<Rightarrow> None)
                      | _ \<Rightarrow> Some pv))"
    and keys: "\<forall>kv. kv \<in> fst ` set pst' \<longleftrightarrow>
                (\<exists>ks j kj. YStr ks \<in> fst ` set scenario2_sub_meta \<and> parse_meta_step_key ks = Some (j, kj) \<and>
                     kv = YStr (if 1 \<le> j then meta_step_key (j + int 1) kj else ks)) \<or>
                (\<exists>ks m km. YStr ks \<in> fst ` set scenario2_meta \<and> ks \<noteq> meta_step_key (int 1 + 1) ''S'' \<and>
                     parse_meta_step_key ks = Some (m, km) \<and>
                     kv = YStr (if int 1 + 1 \<le> m then meta_step_key (m + (2 - 1)) km else ks))"
    by blast
  have sD: "map_of (rev (map (\<lambda>(key, v). (reindex_key 1 (int 1) key, v)) scenario2_sub_meta)) (YStr ''(3, D)'')
      = Some (YDict [(YStr ''wic'', YDict [(YStr ''label'', YStr ''d'')])])" by code_simp
  have pD: "map_of (rev (map (\<lambda>(key, v). (reindex_key (int 1 + 1) (2 - 1) key, v))
                (AList.delete (YStr (meta_step_key (int 1 + 1) ''S'')) scenario2_meta))) (YStr ''(3, D)'')
      = None" by code_simp
  have sB: "map_of (rev (map (\<lambda>(key, v). (reindex_key 1 (int 1) key, v)) scenario2_sub_meta)) (YStr ''(4, B)'')
      = None" by code_simp
  have pB: "map_of (rev (map (\<lambda>(key, v). (reindex_key (int 1 + 1) (2 - 1) key, v))
                (AList.delete (YStr (meta_step_key (int 1 + 1) ''S'')) scenario2_meta))) (YStr ''(4, B)'')
      = Some (YDict [(YStr ''wic'', YDict [(YStr ''label'', YStr ''b'')])])" by code_simp
  have v1: "map_of pst' (YStr ''(3, D)'') = Some (YDict [(YStr ''wic'', YDict [(YStr ''label'', YStr ''d'')])])"
    using m_map[rule_format, of "YStr ''(3, D)''"] unfolding P_map S_map pD sD by simp
  have v2: "map_of pst' (YStr ''(4, B)'') = Some (YDict [(YStr ''wic'', YDict [(YStr ''label'', YStr ''b'')])])"
    using m_map[rule_format, of "YStr ''(4, B)''"] unfolding P_map S_map pB sB by simp
  have b1: "YStr ''(3, B)'' \<in> fst ` set scenario2_meta" by (simp add: scenario2_meta_def)
  have key: "meta_step_key (int 1 + 1) ''S'' = ''(2, S)''" by code_simp
  have b2: "''(3, B)'' \<noteq> meta_step_key (int 1 + 1) ''S''" unfolding key by simp
  have p3: "parse_meta_step_key ''(3, B)'' = Some (3, ''B'')" by code_simp
  have b3: "YStr ''(4, B)'' = YStr (if int 1 + 1 \<le> 3 then meta_step_key (3 + (2 - 1)) ''B'' else ''(3, B)'')"
    by code_simp
  from keys b1 b2 p3 b3 have k2: "YStr ''(4, B)'' \<in> fst ` set pst'" by blast
  from h0 h1 h2 h3 h4 c1 t1 t2 t3 t4 t5 t6 g v1 v2 k2 show ?thesis by blast
qed

end
